(* ===== verification/Go_Prelude.thy ===== *)
theory Go_Prelude
  imports Main "HOL-Library.Monad_Syntax"
begin

text \<open>
  The vocabulary every component shares. Go values that need a representation of
  their own: an \<open>error\<close> keeps the operation that built it and the error it wraps;
  a slice is an optional list, because the code tells a nil slice from an empty one
  (\<open>nc == nil\<close> in both controllers, \<open>null\<close> against \<open>[]\<close> in JSON).

  An effectful Go function is a function of the world it runs in, of type
  \<open>('w, 'a) io\<close>. Its result is \<open>None\<close> if the call never returns; otherwise it is an
  \<open>outcome\<close> (a value, an error return, a run-time panic, or the process exit of
  \<open>glog.Fatalf\<close>) together with the world it leaves. The effects made before an error
  are in that world: an early return undoes nothing.
\<close>

section \<open>Errors and outcomes\<close>

text \<open>
  \<open>ErrNoFreeIPs\<close> and \<open>ErrEmptyPool\<close> are the package variables of pkg/allocator, which
  the code compares by identity. \<open>ApiErr\<close> is an error of the Kubernetes client, whose
  reason \<open>IsNotFound\<close> and \<open>IsConflict\<close> read. \<open>NotExist\<close> is an error that
  \<open>os.IsNotExist\<close> recognises, \<open>ExtErr\<close> any other error of the operating
  system, of AWS or of a library, with its text. \<open>Errorf\<close> is an error the repository
  makes (\<open>errors.New\<close>, \<open>fmt.Errorf\<close>), \<open>Wrapf\<close> one it wraps: format and arguments, not
  formatted. \<open>Status\<close> is a \<open>grpc.Errorf\<close>.
\<close>

datatype api_reason = NotFound | Conflict | OtherReason

datatype error =
    ErrNoFreeIPs
  | ErrEmptyPool
  | ApiErr api_reason string
  | NotExist string
  | ExtErr string
  | Errorf string "string list"
  | Wrapf error string "string list"
  | Status string string error

fun is_not_found :: "error \<Rightarrow> bool" where
  "is_not_found (ApiErr NotFound _) = True"
| "is_not_found _ = False"

fun is_not_exist :: "error \<Rightarrow> bool" where
  "is_not_exist (NotExist _) = True"
| "is_not_exist _ = False"

fun is_conflict :: "error \<Rightarrow> bool" where
  "is_conflict (ApiErr Conflict _) = True"
| "is_conflict _ = False"

datatype 'a outcome = Ok 'a | Fail error | Panic string | Exit string

type_synonym ('w, 'a) io = "'w \<Rightarrow> ('a outcome \<times> 'w) option"

named_theorems io_simps "equations of the effect combinators"
named_theorems total_intros "rules for calls that return"
named_theorems keeps_intros "rules for predicates of the world that calls keep"

section \<open>Combinators\<close>

definition ret :: "'a \<Rightarrow> ('w, 'a) io" where
  "ret a w = Some (Ok a, w)"

definition throw :: "error \<Rightarrow> ('w, 'a) io" where
  "throw e w = Some (Fail e, w)"

definition go_panic :: "string \<Rightarrow> ('w, 'a) io" where
  "go_panic s w = Some (Panic s, w)"

definition fatal :: "string \<Rightarrow> ('w, 'a) io" where
  "fatal s w = Some (Exit s, w)"

text \<open>\<open>x, err := m(); if err != nil { return err }; f(x)\<close>\<close>

definition andthen :: "('w, 'a) io \<Rightarrow> ('a \<Rightarrow> ('w, 'b) io) \<Rightarrow> ('w, 'b) io" where
  "andthen m f w =
     (case m w of
        None \<Rightarrow> None
      | Some (Ok a, w') \<Rightarrow> f a w'
      | Some (Fail e, w') \<Rightarrow> Some (Fail e, w')
      | Some (Panic s, w') \<Rightarrow> Some (Panic s, w')
      | Some (Exit s, w') \<Rightarrow> Some (Exit s, w'))"

text \<open>\<open>x, err := m()\<close>, where what follows looks at \<open>err\<close> itself.\<close>

definition attempt :: "('w, 'a) io \<Rightarrow> ('w, error + 'a) io" where
  "attempt m w =
     (case m w of
        None \<Rightarrow> None
      | Some (Ok a, w') \<Rightarrow> Some (Ok (Inr a), w')
      | Some (Fail e, w') \<Rightarrow> Some (Ok (Inl e), w')
      | Some (Panic s, w') \<Rightarrow> Some (Panic s, w')
      | Some (Exit s, w') \<Rightarrow> Some (Exit s, w'))"

text \<open>\<open>if err != nil { return errors.Wrapf(err, \<dots>) }\<close>\<close>

definition wrapping :: "(error \<Rightarrow> error) \<Rightarrow> ('w, 'a) io \<Rightarrow> ('w, 'a) io" where
  "wrapping g m =
     andthen (attempt m) (\<lambda>r. case r of Inl e \<Rightarrow> throw (g e) | Inr a \<Rightarrow> ret a)"

text \<open>An error that is logged or dropped.\<close>

definition ignoring :: "('w, 'a) io \<Rightarrow> ('w, unit) io" where
  "ignoring m = andthen (attempt m) (\<lambda>_. ret ())"

text \<open>\<open>for _, x := range xs { if err := f(x); err != nil { return err } }\<close>\<close>

primrec each :: "('a \<Rightarrow> ('w, unit) io) \<Rightarrow> 'a list \<Rightarrow> ('w, unit) io" where
  "each f [] = ret ()"
| "each f (x # xs) = andthen (f x) (\<lambda>_. each f xs)"

text \<open>A value computed without effect, with its error.\<close>

definition of_sum :: "error + 'a \<Rightarrow> ('w, 'a) io" where
  "of_sum r = (case r of Inl e \<Rightarrow> throw e | Inr a \<Rightarrow> ret a)"

text \<open>Dereferencing a pointer that may be nil.\<close>

definition deref :: "'a option \<Rightarrow> ('w, 'a) io" where
  "deref p = (case p of None \<Rightarrow> go_panic ''nil pointer dereference'' | Some a \<Rightarrow> ret a)"

text \<open>
  A call on one part of the world: the program's own state (\<open>on_fst\<close>) or everything
  outside it (\<open>on_snd\<close>).
\<close>

definition on_fst :: "('s, 'a) io \<Rightarrow> ('s \<times> 'o, 'a) io" where
  "on_fst m w = map_option (\<lambda>(r, s'). (r, (s', snd w))) (m (fst w))"

definition on_snd :: "('o, 'a) io \<Rightarrow> ('s \<times> 'o, 'a) io" where
  "on_snd m w = map_option (\<lambda>(r, o'). (r, (fst w, o'))) (m (snd w))"

lemmas io_defs = ret_def throw_def go_panic_def fatal_def of_sum_def deref_def

declare ret_def [simp, io_simps] throw_def [simp, io_simps] go_panic_def [simp, io_simps]
  fatal_def [simp, io_simps] andthen_def [io_simps] attempt_def [io_simps]
  wrapping_def [io_simps] ignoring_def [io_simps] of_sum_def [io_simps] deref_def [io_simps]
  on_fst_def [io_simps] on_snd_def [io_simps]

subsection \<open>Stepping through a sequence\<close>

lemma andthen_Ok [simp]: "m w = Some (Ok a, w') \<Longrightarrow> andthen m f w = f a w'"
  by (simp add: andthen_def)

lemma andthen_Fail [simp]: "m w = Some (Fail e, w') \<Longrightarrow> andthen m f w = Some (Fail e, w')"
  by (simp add: andthen_def)

lemma andthen_Panic [simp]: "m w = Some (Panic s, w') \<Longrightarrow> andthen m f w = Some (Panic s, w')"
  by (simp add: andthen_def)

lemma andthen_Exit [simp]: "m w = Some (Exit s, w') \<Longrightarrow> andthen m f w = Some (Exit s, w')"
  by (simp add: andthen_def)

lemma andthen_ret [simp]: "andthen (ret a) f = f a"
  by (simp add: andthen_def fun_eq_iff)

lemma andthen_throw [simp]: "andthen (throw e) f = throw e"
  by (simp add: andthen_def fun_eq_iff)

lemma attempt_Ok [simp]: "m w = Some (Ok a, w') \<Longrightarrow> attempt m w = Some (Ok (Inr a), w')"
  by (simp add: attempt_def)

lemma attempt_Fail [simp]: "m w = Some (Fail e, w') \<Longrightarrow> attempt m w = Some (Ok (Inl e), w')"
  by (simp add: attempt_def)

lemma wrapping_Ok [simp]: "m w = Some (Ok a, w') \<Longrightarrow> wrapping g m w = Some (Ok a, w')"
  by (simp add: wrapping_def)

lemma wrapping_Fail [simp]: "m w = Some (Fail e, w') \<Longrightarrow> wrapping g m w = Some (Fail (g e), w')"
  by (simp add: wrapping_def)

lemma ignoring_Ok [simp]: "m w = Some (Ok a, w') \<Longrightarrow> ignoring m w = Some (Ok (), w')"
  by (simp add: ignoring_def)

lemma ignoring_Fail [simp]: "m w = Some (Fail e, w') \<Longrightarrow> ignoring m w = Some (Ok (), w')"
  by (simp add: ignoring_def)

lemma of_sum_Ok: "of_sum x w = Some (Ok a, w') \<longleftrightarrow> x = Inr a \<and> w' = w"
  by (cases x) (auto simp: of_sum_def)

lemma deref_Ok: "deref p w = Some (Ok a, w') \<longleftrightarrow> p = Some a \<and> w' = w"
  by (cases p) (auto simp: deref_def)

lemma andthen_eq_Ok:
  "andthen m f w = Some (Ok b, w'') \<longleftrightarrow>
     (\<exists>a w'. m w = Some (Ok a, w') \<and> f a w' = Some (Ok b, w''))"
  by (auto simp: andthen_def split: option.splits outcome.splits)

lemma wrapping_eq_Ok [simp]: "wrapping g m w = Some (Ok a, w') \<longleftrightarrow> m w = Some (Ok a, w')"
  by (auto simp: wrapping_def andthen_def attempt_def split: option.splits outcome.splits)

lemma on_fst_simp [simp]:
  "on_fst m (s, o1) = (case m s of None \<Rightarrow> None | Some (r, s') \<Rightarrow> Some (r, (s', o1)))"
  by (simp add: on_fst_def split: option.splits)

lemma on_snd_simp [simp]:
  "on_snd m (s, o1) = (case m o1 of None \<Rightarrow> None | Some (r, o2) \<Rightarrow> Some (r, (s, o2)))"
  by (simp add: on_snd_def split: option.splits)

lemma andthen_assoc: "andthen (andthen m f) g = andthen m (\<lambda>a. andthen (f a) g)"
  by (rule ext) (simp add: andthen_def split: option.splits outcome.splits prod.splits)

lemma each_append: "each f (xs @ ys) = andthen (each f xs) (\<lambda>_. each f ys)"
  by (induction xs) (simp_all add: andthen_assoc)

lemma andthen_cases:
  assumes "andthen m f w = Some (r, w'')"
  obtains (Ok) a w' where "m w = Some (Ok a, w')" "f a w' = Some (r, w'')"
    | (Fail) e where "m w = Some (Fail e, w'')" "r = Fail e"
    | (Panic) s where "m w = Some (Panic s, w'')" "r = Panic s"
    | (Exit) s where "m w = Some (Exit s, w'')" "r = Exit s"
  using assms by (auto simp: andthen_def split: option.splits outcome.splits)

lemma attempt_cases:
  assumes "attempt m w = Some (r, w')"
  obtains (Ok) a where "m w = Some (Ok a, w')" "r = Ok (Inr a)"
    | (Fail) e where "m w = Some (Fail e, w')" "r = Ok (Inl e)"
    | (Panic) s where "m w = Some (Panic s, w')" "r = Panic s"
    | (Exit) s where "m w = Some (Exit s, w')" "r = Exit s"
  using assms by (auto simp: attempt_def split: option.splits outcome.splits)

lemma wrapping_run:
  assumes "wrapping g m w = Some (r, w')"
  obtains r0 where "m w = Some (r0, w')" "\<And>a. r = Ok a \<longleftrightarrow> r0 = Ok a"
proof -
  obtain r0 x where run: "m w = Some (r0, x)"
    using assms by (cases "m w") (auto simp: wrapping_def andthen_def attempt_def)
  with assms have "x = w' \<and> (\<forall>a. r = Ok a \<longleftrightarrow> r0 = Ok a)"
    by (cases r0) (auto simp: wrapping_def andthen_def attempt_def)
  with run that show thesis by blast
qed

lemma ignoring_run:
  assumes "ignoring m w = Some (r, w')"
  obtains r0 where "m w = Some (r0, w')"
proof -
  obtain r0 x where run: "m w = Some (r0, x)"
    using assms by (cases "m w") (auto simp: ignoring_def andthen_def attempt_def)
  with assms have "x = w'" by (cases r0) (auto simp: ignoring_def andthen_def attempt_def)
  with run that show thesis by blast
qed

section \<open>Calls that return\<close>

definition returns :: "('w, 'a) io \<Rightarrow> bool" where
  "returns m \<longleftrightarrow> (\<forall>w. m w \<noteq> None)"

lemma returnsD: "returns m \<Longrightarrow> \<exists>r w'. m w = Some (r, w')"
  by (auto simp: returns_def)

lemma returns_basic [total_intros, simp]:
  "returns (ret a)" "returns (throw e)" "returns (go_panic s)" "returns (fatal s)"
  by (auto simp: returns_def)

lemma returns_andthen [total_intros]:
  "returns m \<Longrightarrow> (\<And>a. returns (f a)) \<Longrightarrow> returns (andthen m f)"
  by (simp add: returns_def andthen_def split: option.splits outcome.splits prod.splits)

lemma returns_attempt [total_intros]: "returns m \<Longrightarrow> returns (attempt m)"
  by (simp add: returns_def attempt_def split: option.splits outcome.splits prod.splits)

lemma returns_wrapping [total_intros]: "returns m \<Longrightarrow> returns (wrapping g m)"
  by (auto simp: wrapping_def intro!: total_intros split: sum.splits)

lemma returns_ignoring [total_intros]: "returns m \<Longrightarrow> returns (ignoring m)"
  by (auto simp: ignoring_def intro!: total_intros)

lemma returns_each [total_intros]: "(\<And>x. x \<in> set xs \<Longrightarrow> returns (f x)) \<Longrightarrow> returns (each f xs)"
  by (induction xs) (auto intro!: total_intros)

lemma returns_of_sum [total_intros]: "returns (of_sum r)"
  by (auto simp: of_sum_def split: sum.splits)

lemma returns_deref [total_intros]: "returns (deref p)"
  by (auto simp: deref_def split: option.splits)

lemma returns_on_fst [total_intros]: "returns m \<Longrightarrow> returns (on_fst m)"
  by (auto simp: returns_def on_fst_def)

lemma returns_on_snd [total_intros]: "returns m \<Longrightarrow> returns (on_snd m)"
  by (auto simp: returns_def on_snd_def)

section \<open>Predicates that calls keep\<close>

definition keeps :: "('w \<Rightarrow> bool) \<Rightarrow> ('w, 'a) io \<Rightarrow> bool" where
  "keeps P m \<longleftrightarrow> (\<forall>w r w'. P w \<longrightarrow> m w = Some (r, w') \<longrightarrow> P w')"

lemma keepsD: "keeps P m \<Longrightarrow> P w \<Longrightarrow> m w = Some (r, w') \<Longrightarrow> P w'"
  by (auto simp: keeps_def)

lemma keeps_basic [keeps_intros, simp]:
  "keeps P (ret a)" "keeps P (throw e)" "keeps P (go_panic s)" "keeps P (fatal s)"
  by (auto simp: keeps_def)

lemma keepsI: "(\<And>w r w'. P w \<Longrightarrow> m w = Some (r, w') \<Longrightarrow> P w') \<Longrightarrow> keeps P m"
  by (auto simp: keeps_def)

lemma keeps_andthen [keeps_intros]:
  assumes "keeps P m" and "\<And>a. keeps P (f a)"
  shows "keeps P (andthen m f)"
proof (rule keepsI)
  fix w r w'' assume w: "P w" and run: "andthen m f w = Some (r, w'')"
  from run show "P w''"
  proof (cases rule: andthen_cases)
    case (Ok a w')
    then show ?thesis using keepsD [OF assms(1) w] keepsD [OF assms(2)] by metis
  qed (use keepsD [OF assms(1) w] in metis)+
qed

text \<open>With what the first call has returned.\<close>

lemma keeps_andthen_Ok:
  assumes "keeps P m" "\<And>w a w'. P w \<Longrightarrow> m w = Some (Ok a, w') \<Longrightarrow> keeps P (f a)"
  shows "keeps P (andthen m f)"
proof (rule keepsI)
  fix w r w'' assume w: "P w" and run: "andthen m f w = Some (r, w'')"
  from run show "P w''"
  proof (cases rule: andthen_cases)
    case (Ok a w')
    then show ?thesis using keepsD [OF assms(1) w] keepsD [OF assms(2) [OF w Ok(1)]] by metis
  qed (use keepsD [OF assms(1) w] in metis)+
qed

lemma keeps_attempt [keeps_intros]: "keeps P m \<Longrightarrow> keeps P (attempt m)"
  by (rule keepsI, erule attempt_cases) (metis keepsD)+

lemma keeps_wrapping [keeps_intros]: "keeps P m \<Longrightarrow> keeps P (wrapping g m)"
  by (auto simp: wrapping_def intro!: keeps_intros split: sum.splits)

lemma keeps_ignoring [keeps_intros]: "keeps P m \<Longrightarrow> keeps P (ignoring m)"
  by (auto simp: ignoring_def intro!: keeps_intros)

lemma keeps_each [keeps_intros]: "(\<And>x. x \<in> set xs \<Longrightarrow> keeps P (f x)) \<Longrightarrow> keeps P (each f xs)"
  by (induction xs) (auto intro!: keeps_intros)

lemma keeps_of_sum [keeps_intros]: "keeps P (of_sum r)"
  by (auto simp: of_sum_def split: sum.splits)

lemma keeps_deref [keeps_intros]: "keeps P (deref p)"
  by (auto simp: deref_def split: option.splits)

section \<open>Calls that leave a view of the world as it was\<close>

definition unchanging :: "('w \<Rightarrow> 'v) \<Rightarrow> ('w, 'a) io \<Rightarrow> bool" where
  "unchanging view m \<longleftrightarrow> (\<forall>w r w'. m w = Some (r, w') \<longrightarrow> view w' = view w)"

lemma unchangingD: "unchanging view m \<Longrightarrow> m w = Some (r, w') \<Longrightarrow> view w' = view w"
  by (auto simp: unchanging_def)

lemma unchanging_basic [simp]:
  "unchanging v (ret a)" "unchanging v (throw e)" "unchanging v (go_panic s)" "unchanging v (fatal s)"
  by (auto simp: unchanging_def)

lemma unchangingI: "(\<And>w r w'. m w = Some (r, w') \<Longrightarrow> v w' = v w) \<Longrightarrow> unchanging v m"
  by (auto simp: unchanging_def)

lemma unchanging_andthen:
  assumes "unchanging v m" "\<And>a. unchanging v (f a)"
  shows "unchanging v (andthen m f)"
proof (rule unchangingI)
  fix w r w'' assume "andthen m f w = Some (r, w'')"
  then show "v w'' = v w"
  proof (cases rule: andthen_cases)
    case (Ok a w')
    then show ?thesis using unchangingD [OF assms(1) Ok(1)] unchangingD [OF assms(2) Ok(2)] by simp
  qed (auto dest: unchangingD [OF assms(1)])
qed

lemma unchanging_attempt: "unchanging v m \<Longrightarrow> unchanging v (attempt m)"
  by (rule unchangingI, erule attempt_cases) (auto dest: unchangingD)

lemma unchanging_wrapping: "unchanging v m \<Longrightarrow> unchanging v (wrapping g m)"
  unfolding wrapping_def by (intro unchanging_andthen unchanging_attempt) (auto split: sum.splits)

lemma unchanging_ignoring: "unchanging v m \<Longrightarrow> unchanging v (ignoring m)"
  unfolding ignoring_def by (intro unchanging_andthen unchanging_attempt) auto

lemma unchanging_on_snd: "unchanging fst (on_snd m)"
  by (auto simp: unchanging_def on_snd_def)

lemma unchanging_of_sum [simp]: "unchanging v (of_sum x)"
  by (cases x) (simp_all add: of_sum_def del: ret_def throw_def)

lemma unchanging_deref [simp]: "unchanging v (deref p)"
  by (cases p) (simp_all add: deref_def del: ret_def go_panic_def)

lemma unchanging_each: "(\<And>x. x \<in> set xs \<Longrightarrow> unchanging v (f x)) \<Longrightarrow> unchanging v (each f xs)"
  by (induction xs) (auto intro: unchanging_andthen)

lemma keeps_unchanging: "unchanging v m \<Longrightarrow> keeps (\<lambda>w. P (v w)) m"
  by (rule keepsI) (metis unchangingD)

lemmas unchanging_intros = unchanging_andthen unchanging_attempt unchanging_wrapping unchanging_ignoring
  unchanging_on_snd unchanging_basic

section \<open>Calls that move a view of the world along a preorder\<close>

definition moves :: "('w \<Rightarrow> 'v) \<Rightarrow> ('v \<Rightarrow> 'v \<Rightarrow> bool) \<Rightarrow> ('w, 'a) io \<Rightarrow> bool" where
  "moves view R m \<longleftrightarrow> (\<forall>w r w'. m w = Some (r, w') \<longrightarrow> R (view w) (view w'))"

lemma movesD: "moves v R m \<Longrightarrow> m w = Some (r, w') \<Longrightarrow> R (v w) (v w')"
  by (auto simp: moves_def)

lemma movesI: "(\<And>w r w'. m w = Some (r, w') \<Longrightarrow> R (v w) (v w')) \<Longrightarrow> moves v R m"
  by (auto simp: moves_def)

lemma moves_mono: "moves v R m \<Longrightarrow> (\<And>x y. R x y \<Longrightarrow> S x y) \<Longrightarrow> moves v S m"
  by (auto simp: moves_def)

lemma unchanging_moves: "unchanging v m \<Longrightarrow> reflp R \<Longrightarrow> moves v R m"
  by (auto simp: moves_def unchanging_def reflp_def)

lemma moves_basic:
  "reflp R \<Longrightarrow> moves v R (ret a)" "reflp R \<Longrightarrow> moves v R (throw e)"
  "reflp R \<Longrightarrow> moves v R (go_panic s)" "reflp R \<Longrightarrow> moves v R (fatal s)"
  by (simp_all add: unchanging_moves)

lemma moves_deref: "reflp R \<Longrightarrow> moves v R (deref p)"
  by (cases p) (simp_all add: deref_def moves_basic)

lemma moves_andthen:
  assumes "transp R" "moves v R m" "\<And>a. moves v R (f a)"
  shows "moves v R (andthen m f)"
proof (rule movesI)
  fix w r w'' assume "andthen m f w = Some (r, w'')"
  then show "R (v w) (v w'')"
  proof (cases rule: andthen_cases)
    case (Ok a w')
    then show ?thesis using movesD [OF assms(2) Ok(1)] movesD [OF assms(3) Ok(2)] assms(1) by (auto dest: transpD)
  qed (auto dest: movesD [OF assms(2)])
qed

lemma moves_attempt: "moves v R m \<Longrightarrow> moves v R (attempt m)"
  by (rule movesI, erule attempt_cases) (auto dest: movesD)

lemma moves_wrapping: "reflp R \<Longrightarrow> transp R \<Longrightarrow> moves v R m \<Longrightarrow> moves v R (wrapping g m)"
  unfolding wrapping_def by (intro moves_andthen moves_attempt) (auto intro: moves_basic split: sum.splits)

lemma moves_each:
  "reflp R \<Longrightarrow> transp R \<Longrightarrow> (\<And>x. x \<in> set xs \<Longrightarrow> moves v R (f x)) \<Longrightarrow> moves v R (each f xs)"
proof (induction xs)
  case (Cons x xs)
  then show ?case by (auto intro!: moves_andthen)
qed (simp add: moves_basic)

section \<open>Slices\<close>

type_synonym 'a slice = "'a list option"

text \<open>\<open>range\<close> over a slice: nil has no element.\<close>

definition elems :: "'a slice \<Rightarrow> 'a list" where
  "elems s = (case s of None \<Rightarrow> [] | Some xs \<Rightarrow> xs)"

lemma elems_simps [simp]: "elems None = []" "elems (Some xs) = xs"
  by (simp_all add: elems_def)

text \<open>\<open>append(s, xs\<dots>)\<close>: a nil slice stays nil when nothing is appended.\<close>

definition append_slice :: "'a slice \<Rightarrow> 'a list \<Rightarrow> 'a slice" where
  "append_slice s xs = (case s of None \<Rightarrow> if xs = [] then None else Some xs | Some ys \<Rightarrow> Some (ys @ xs))"

lemma elems_append_slice [simp]: "elems (append_slice s xs) = elems s @ xs"
  by (auto simp: append_slice_def split: option.splits)

text \<open>A loop variable that keeps the last element that satisfies a test.\<close>

definition last_such :: "('a \<Rightarrow> bool) \<Rightarrow> 'a list \<Rightarrow> 'a option" where
  "last_such p xs = foldl (\<lambda>acc x. if p x then Some x else acc) None xs"

lemma last_such_Nil [simp]: "last_such p [] = None"
  by (simp add: last_such_def)

lemma last_such_snoc [simp]:
  "last_such p (xs @ [x]) = (if p x then Some x else last_such p xs)"
  by (simp add: last_such_def)

lemma last_such_None: "last_such p xs = None \<longleftrightarrow> (\<forall>x \<in> set xs. \<not> p x)"
  by (induction xs rule: rev_induct) auto

lemma last_such_Some: "last_such p xs = Some x \<Longrightarrow> x \<in> set xs \<and> p x"
  by (induction xs rule: rev_induct) (auto split: if_splits)

lemma last_such_split:
  "last_such p xs = Some x \<longleftrightarrow>
     (\<exists>us vs. xs = us @ x # vs \<and> p x \<and> (\<forall>v \<in> set vs. \<not> p v))"
proof
  assume "last_such p xs = Some x"
  then show "\<exists>us vs. xs = us @ x # vs \<and> p x \<and> (\<forall>v \<in> set vs. \<not> p v)"
  proof (induction xs rule: rev_induct)
    case (snoc y ys)
    then show ?case
    proof (cases "p y")
      case True
      with snoc.prems show ?thesis by (intro exI [of _ ys] exI [of _ "[]"]) simp
    next
      case False
      with snoc obtain us vs where "ys = us @ x # vs" "p x" "\<forall>v \<in> set vs. \<not> p v" by auto
      with False show ?thesis by (intro exI [of _ us] exI [of _ "vs @ [y]"]) simp
    qed
  qed simp
next
  assume "\<exists>us vs. xs = us @ x # vs \<and> p x \<and> (\<forall>v \<in> set vs. \<not> p v)"
  then obtain us vs where "xs = us @ x # vs" "p x" "\<forall>v \<in> set vs. \<not> p v" by blast
  then show "last_such p xs = Some x"
  proof (induction vs arbitrary: xs rule: rev_induct)
    case (snoc v vs)
    then have "last_such p ((us @ x # vs) @ [v]) = Some x" by (simp only: last_such_snoc) simp
    with snoc show ?case by simp
  qed simp
qed

lemma last_such_append:
  "last_such p (xs @ ys) = (case last_such p ys of None \<Rightarrow> last_such p xs | Some y \<Rightarrow> Some y)"
  by (induction ys rule: rev_induct) (simp_all flip: append_assoc)

section \<open>Texts of values\<close>

text \<open>
  What a component relies on when it sends a value to another as a text (a node
  annotation, the state file, a gRPC field): every sendable value has a text, and reading
  the text gives the value's normal form, whose text is the same. So a second trip changes
  nothing, and texts are equal exactly when the values read back the same.
\<close>

locale text_codec =
  fixes enc :: "'a \<Rightarrow> error + string"
    and dec :: "string \<Rightarrow> error + 'a"
    and ok :: "'a \<Rightarrow> bool"
    and norm :: "'a \<Rightarrow> 'a"
  assumes dec_enc: "ok x \<Longrightarrow> \<exists>t. enc x = Inr t \<and> dec t = Inr (norm x)"
    and ok_norm: "ok x \<Longrightarrow> ok (norm x)"
    and enc_norm: "ok x \<Longrightarrow> enc (norm x) = enc x"
begin

lemma encE:
  assumes "ok x" obtains t where "enc x = Inr t" "dec t = Inr (norm x)"
  using dec_enc [OF assms] by blast

lemma norm_norm: "ok x \<Longrightarrow> norm (norm x) = norm x"
  by (metis dec_enc enc_norm ok_norm sum.inject(2))

lemma same_text: "ok x \<Longrightarrow> ok y \<Longrightarrow> enc x = enc y \<longleftrightarrow> norm x = norm y"
  by (metis dec_enc enc_norm sum.inject(2))

end

section \<open>Sums\<close>

text \<open>A computation without effect that may return an error.\<close>

definition sum_bind :: "error + 'a \<Rightarrow> ('a \<Rightarrow> error + 'b) \<Rightarrow> error + 'b" where
  "sum_bind r f = (case r of Inl e \<Rightarrow> Inl e | Inr a \<Rightarrow> f a)"

lemma sum_bind_simps [simp]: "sum_bind (Inl e) f = Inl e" "sum_bind (Inr a) f = f a"
  by (simp_all add: sum_bind_def)

lemma sum_bind_eq_Inr: "sum_bind r f = Inr b \<longleftrightarrow> (\<exists>a. r = Inr a \<and> f a = Inr b)"
  by (cases r) simp_all

primrec traverse :: "('a \<Rightarrow> error + 'b) \<Rightarrow> 'a list \<Rightarrow> error + 'b list" where
  "traverse f [] = Inr []"
| "traverse f (x # xs) = sum_bind (f x) (\<lambda>y. sum_bind (traverse f xs) (\<lambda>ys. Inr (y # ys)))"

lemma traverse_Inr: "(\<And>x. x \<in> set xs \<Longrightarrow> f x = Inr (g x)) \<Longrightarrow> traverse f xs = Inr (map g xs)"
  by (induction xs) auto

section \<open>Strings\<close>

text \<open>\<open>strings.Split(s, c)\<close> for a separator of one character.\<close>

fun strings_split :: "char \<Rightarrow> string \<Rightarrow> string list" where
  "strings_split sep [] = [[]]"
| "strings_split sep (c # s) =
     (if c = sep then [] # strings_split sep s
      else case strings_split sep s of t # ts \<Rightarrow> (c # t) # ts | [] \<Rightarrow> [[c]])"

text \<open>\<open>strings.Join(xs, sep)\<close>\<close>

fun strings_join :: "string \<Rightarrow> string list \<Rightarrow> string" where
  "strings_join sep [] = []"
| "strings_join sep [x] = x"
| "strings_join sep (x # y # ys) = x @ sep @ strings_join sep (y # ys)"

lemma strings_split_plain: "sep \<notin> set s \<Longrightarrow> strings_split sep s = [s]"
  by (induction s) auto

lemma strings_split_two:
  "sep \<notin> set a \<Longrightarrow> sep \<notin> set b \<Longrightarrow> strings_split sep (a @ sep # b) = [a, b]"
  by (induction a) (auto simp: strings_split_plain)

end
