(* ===== verification/Net_IP.thy ===== *)
theory Net_IP
  imports Go_Prelude "HOL-Library.Word" "HOL-Library.List_Lexorder"
begin

text \<open>
  What the repository uses of Go's package net (Go 1.9, the version .travis.yml pins):
  addresses as byte slices, in their 4-byte or 16-byte form; \<open>To4\<close>, \<open>Equal\<close>,
  \<open>String\<close>, \<open>ParseIP\<close>, \<open>Mask\<close>; networks, \<open>CIDRMask\<close>, \<open>ParseCIDR\<close> and
  \<open>IPNet.String\<close>; and \<open>bytes.Compare\<close>, the order of addresses.
  The lemmas are the printing and parsing round trips for IPv4, which decide whether an
  address survives the JSON and gRPC texts it is sent through.
\<close>

unbundle bit_operations_syntax

type_synonym bytes = "8 word list"

section \<open>Addresses\<close>

text \<open>
  \<open>net.IP\<close> is a \<open>[]byte\<close>; no bytes is \<open>nil\<close> (an empty address that is not nil
  behaves the same in every function used).
\<close>

datatype net_ip = IP (ip_bytes: bytes)

abbreviation nil_ip :: net_ip where "nil_ip \<equiv> IP []"

definition v4_in_v6_prefix :: bytes where
  "v4_in_v6_prefix = [0, 0, 0, 0, 0, 0, 0, 0, 0, 0, 255, 255]"

definition ipv4 :: "8 word \<Rightarrow> 8 word \<Rightarrow> 8 word \<Rightarrow> 8 word \<Rightarrow> net_ip" where
  "ipv4 a b c d = IP (v4_in_v6_prefix @ [a, b, c, d])"

definition ip_to4 :: "net_ip \<Rightarrow> net_ip" where
  "ip_to4 ip =
     (if length (ip_bytes ip) = 4 then ip
      else if length (ip_bytes ip) = 16 \<and> take 12 (ip_bytes ip) = v4_in_v6_prefix
      then IP (drop 12 (ip_bytes ip))
      else nil_ip)"

definition ip_equal :: "net_ip \<Rightarrow> net_ip \<Rightarrow> bool" where
  "ip_equal ip x =
     (let a = ip_bytes ip; b = ip_bytes x in
      if length a = length b then a = b
      else if length a = 4 \<and> length b = 16 then take 12 b = v4_in_v6_prefix \<and> a = drop 12 b
      else if length a = 16 \<and> length b = 4 then take 12 a = v4_in_v6_prefix \<and> drop 12 a = b
      else False)"

definition is_v4 :: "net_ip \<Rightarrow> bool" where
  "is_v4 ip \<longleftrightarrow> length (ip_bytes (ip_to4 ip)) = 4"

subsection \<open>The order of addresses\<close>

text \<open>\<open>bytes.Compare(a, b) < 0\<close>\<close>

fun bytes_less :: "bytes \<Rightarrow> bytes \<Rightarrow> bool" where
  "bytes_less [] [] = False"
| "bytes_less [] (_ # _) = True"
| "bytes_less (_ # _) [] = False"
| "bytes_less (x # xs) (y # ys) = (if x = y then bytes_less xs ys else x < y)"

lemma bytes_less_lex: "bytes_less xs ys \<longleftrightarrow> xs < ys"
  by (induction xs ys rule: bytes_less.induct) auto

text \<open>\<open>netIps.Less\<close>, on the two addresses themselves.\<close>

definition ip_less :: "net_ip \<Rightarrow> net_ip \<Rightarrow> bool" where
  "ip_less a b \<longleftrightarrow> bytes_less (ip_bytes a) (ip_bytes b)"

instantiation net_ip :: linorder
begin

definition less_net_ip :: "net_ip \<Rightarrow> net_ip \<Rightarrow> bool" where
  "less_net_ip a b \<longleftrightarrow> ip_less a b"

definition less_eq_net_ip :: "net_ip \<Rightarrow> net_ip \<Rightarrow> bool" where
  "less_eq_net_ip a b \<longleftrightarrow> a = b \<or> ip_less a b"

instance
proof
  fix a b c :: net_ip
  have le: "x \<le> y \<longleftrightarrow> ip_bytes x \<le> ip_bytes y" for x y :: net_ip
    by (metis bytes_less_lex ip_less_def le_less less_eq_net_ip_def net_ip.expand)
  show "a < b \<longleftrightarrow> a \<le> b \<and> \<not> b \<le> a"
    by (simp add: le less_net_ip_def ip_less_def bytes_less_lex less_le_not_le)
  show "a \<le> a" by (simp add: le)
  show "a \<le> b \<Longrightarrow> b \<le> c \<Longrightarrow> a \<le> c" unfolding le by (rule order_trans)
  show "a \<le> b \<Longrightarrow> b \<le> a \<Longrightarrow> a = b" by (simp add: le net_ip.expand)
  show "a \<le> b \<or> b \<le> a" by (simp add: le linear)
qed

end

section \<open>Decimal and hexadecimal numbers\<close>

definition digit_char :: "nat \<Rightarrow> char" where
  "digit_char n = char_of (if n < 10 then 48 + n else 87 + n)"

definition is_digit :: "char \<Rightarrow> bool" where
  "is_digit c \<longleftrightarrow> 48 \<le> (of_char c :: nat) \<and> (of_char c :: nat) \<le> 57"

definition digit_val :: "char \<Rightarrow> nat" where
  "digit_val c = of_char c - 48"

fun uitoa :: "nat \<Rightarrow> string" where
  "uitoa n = (if n < 10 then [digit_char n] else uitoa (n div 10) @ [digit_char (n mod 10)])"

declare uitoa.simps [simp del]

text \<open>\<open>dtoi\<close>: the value of the leading digits and what follows them; none if there is no
  digit or the value reaches \<open>big\<close>.\<close>

primrec dec_loop :: "nat \<Rightarrow> string \<Rightarrow> (nat \<times> string) option" where
  "dec_loop n [] = Some (n, [])"
| "dec_loop n (c # cs) =
     (if is_digit c
      then let m = n * 10 + digit_val c in if m \<ge> 16777215 then None else dec_loop m cs
      else Some (n, c # cs))"

definition dtoi :: "string \<Rightarrow> (nat \<times> string) option" where
  "dtoi s = (case s of [] \<Rightarrow> None | c # _ \<Rightarrow> if is_digit c then dec_loop 0 s else None)"

definition hexdigit_val :: "char \<Rightarrow> nat option" where
  "hexdigit_val c =
     (let n = of_char c :: nat in
      if 48 \<le> n \<and> n \<le> 57 then Some (n - 48)
      else if 97 \<le> n \<and> n \<le> 102 then Some (n - 87)
      else if 65 \<le> n \<and> n \<le> 70 then Some (n - 55)
      else None)"

primrec hex_loop :: "nat \<Rightarrow> string \<Rightarrow> (nat \<times> string) option" where
  "hex_loop n [] = Some (n, [])"
| "hex_loop n (c # cs) =
     (case hexdigit_val c of
        Some d \<Rightarrow> let m = n * 16 + d in if m \<ge> 16777215 then None else hex_loop m cs
      | None \<Rightarrow> Some (n, c # cs))"

definition xtoi :: "string \<Rightarrow> (nat \<times> string) option" where
  "xtoi s = (case s of [] \<Rightarrow> None | c # _ \<Rightarrow> if hexdigit_val c = None then None else hex_loop 0 s)"

fun hex_of :: "nat \<Rightarrow> string" where
  "hex_of n = (if n < 16 then [digit_char n] else hex_of (n div 16) @ [digit_char (n mod 16)])"

declare hex_of.simps [simp del]

definition hex_byte :: "8 word \<Rightarrow> string" where
  "hex_byte b = [digit_char (unat b div 16), digit_char (unat b mod 16)]"

section \<open>Printing an address\<close>

fun zero_run :: "bytes \<Rightarrow> nat" where
  "zero_run (a # b # r) = (if a = 0 \<and> b = 0 then 2 + zero_run r else 0)"
| "zero_run _ = 0"

text \<open>The longest run of zero groups, the first of equal ones.\<close>

function longest_run :: "bytes \<Rightarrow> nat \<Rightarrow> nat \<times> nat \<Rightarrow> nat \<times> nat" where
  "longest_run p i e =
     (if 16 \<le> i then e
      else let j = i + zero_run (drop i p) in
        if i < j \<and> snd e - fst e < j - i then longest_run p (j + 2) (i, j)
        else longest_run p (i + 2) e)"
  by pat_completeness auto
termination
  by (relation "measure (\<lambda>(p, i, e). 16 - i)") auto

function print_groups :: "bytes \<Rightarrow> (nat \<times> nat) option \<Rightarrow> nat \<Rightarrow> string" where
  "print_groups p e i =
     (if 16 \<le> i then []
      else let (sep, i') = (case e of
             Some (e0, e1) \<Rightarrow> if i = e0 \<and> i < e1 then (''::'', e1) else (if 0 < i then '':'' else '''', i)
           | None \<Rightarrow> (if 0 < i then '':'' else '''', i))
      in sep @
         (if 16 \<le> i' then []
          else hex_of (unat (p ! i') * 256 + unat (p ! (i' + 1))) @ print_groups p e (i' + 2)))"
  by pat_completeness auto
termination
  by (relation "measure (\<lambda>(p, e, i). 16 - i)") (auto split: option.splits if_splits)

definition ip_string :: "net_ip \<Rightarrow> string" where
  "ip_string ip =
     (if ip_bytes ip = [] then ''<nil>''
      else case ip_bytes (ip_to4 ip) of
        [a, b, c, d] \<Rightarrow>
          uitoa (unat a) @ ''.'' @ uitoa (unat b) @ ''.'' @ uitoa (unat c) @ ''.'' @ uitoa (unat d)
      | _ \<Rightarrow>
          if length (ip_bytes ip) \<noteq> 16 then ''?'' @ concat (map hex_byte (ip_bytes ip))
          else let (e0, e1) = longest_run (ip_bytes ip) 0 (0, 0)
               in print_groups (ip_bytes ip) (if e1 - e0 \<le> 2 then None else Some (e0, e1)) 0)"

section \<open>Parsing an address\<close>

fun octets :: "nat \<Rightarrow> string \<Rightarrow> bytes option" where
  "octets 0 s = (if s = [] then Some [] else None)"
| "octets (Suc k) s =
     (case s of
        [] \<Rightarrow> None
      | c # cs \<Rightarrow>
          (case (if Suc k < 4 then (if c = CHR ''.'' then Some cs else None) else Some s) of
             None \<Rightarrow> None
           | Some t \<Rightarrow>
               (case dtoi t of
                  None \<Rightarrow> None
                | Some (n, rest) \<Rightarrow>
                    if 255 < n then None else map_option ((#) (of_nat n)) (octets k rest))))"

definition parse_ipv4 :: "string \<Rightarrow> net_ip" where
  "parse_ipv4 s = (case octets 4 s of None \<Rightarrow> nil_ip | Some bs \<Rightarrow> IP (v4_in_v6_prefix @ bs))"

function parse_groups :: "bytes \<Rightarrow> nat option \<Rightarrow> string \<Rightarrow> (bytes \<times> nat option \<times> string) option" where
  "parse_groups bs ell s =
     (if 16 \<le> length bs then Some (bs, ell, s)
      else case xtoi s of
        None \<Rightarrow> None
      | Some (n, rest) \<Rightarrow>
          if 65535 < n then None
          else if rest \<noteq> [] \<and> hd rest = CHR ''.'' then
            (if ell = None \<and> length bs \<noteq> 12 then None
             else if 16 < length bs + 4 then None
             else map_option (\<lambda>b4. (bs @ b4, ell, [])) (octets 4 s))
          else let bs' = bs @ [of_nat (n div 256), of_nat n] in
            (case rest of
               [] \<Rightarrow> Some (bs', ell, [])
             | [c] \<Rightarrow> None
             | c # d # t \<Rightarrow>
                 if c \<noteq> CHR '':'' then None
                 else if d = CHR '':'' then
                   (if ell \<noteq> None then None
                    else if t = [] then Some (bs', Some (length bs'), [])
                    else parse_groups bs' (Some (length bs')) t)
                 else parse_groups bs' ell (d # t)))"
  by pat_completeness auto
termination
  by (relation "measure (\<lambda>(bs, ell, s). 16 - length bs)") auto

definition parse_ipv6 :: "string \<Rightarrow> net_ip" where
  "parse_ipv6 s =
     (let lead = (take 2 s = ''::''); s' = (if lead then drop 2 s else s) in
      if lead \<and> s' = [] then IP (replicate 16 0)
      else case parse_groups [] (if lead then Some 0 else None) s' of
        None \<Rightarrow> nil_ip
      | Some (bs, ell, rest) \<Rightarrow>
          if rest \<noteq> [] then nil_ip
          else if length bs < 16 then
            (case ell of
               None \<Rightarrow> nil_ip
             | Some e \<Rightarrow> IP (take e bs @ replicate (16 - length bs) 0 @ drop e bs))
          else if ell \<noteq> None then nil_ip
          else IP bs)"

definition parse_ip :: "string \<Rightarrow> net_ip" where
  "parse_ip s =
     (case filter (\<lambda>c. c = CHR ''.'' \<or> c = CHR '':'') s of
        [] \<Rightarrow> nil_ip
      | c # _ \<Rightarrow> if c = CHR ''.'' then parse_ipv4 s else parse_ipv6 s)"

section \<open>Networks\<close>

record ip_net =
  net_IP :: net_ip
  net_Mask :: bytes

definition mask_byte :: "nat \<Rightarrow> 8 word" where
  "mask_byte n = (if 8 \<le> n then 255 else NOT (drop_bit n 255))"

definition cidr_mask :: "nat \<Rightarrow> nat \<Rightarrow> bytes" where
  "cidr_mask ones bits = map (\<lambda>i. mask_byte (ones - 8 * i)) [0..<bits div 8]"

definition ip_mask :: "net_ip \<Rightarrow> bytes \<Rightarrow> net_ip" where
  "ip_mask ip m =
     (let m' = (if length m = 16 \<and> length (ip_bytes ip) = 4 \<and> take 12 m = replicate 12 255
                then drop 12 m else m);
          a = (if length m' = 4 \<and> length (ip_bytes ip) = 16 \<and> take 12 (ip_bytes ip) = v4_in_v6_prefix
               then drop 12 (ip_bytes ip) else ip_bytes ip)
      in if length a \<noteq> length m' then nil_ip else IP (map2 (AND) a m'))"

text \<open>\<open>ParseCIDR\<close>: the address as written, and the network; none for a \<open>ParseError\<close>.\<close>

definition parse_cidr :: "string \<Rightarrow> (net_ip \<times> ip_net) option" where
  "parse_cidr s =
     (let addr = takeWhile (\<lambda>c. c \<noteq> CHR ''/'') s; rest = dropWhile (\<lambda>c. c \<noteq> CHR ''/'') s in
      case rest of
        [] \<Rightarrow> None
      | _ # mtext \<Rightarrow>
          (let v4 = parse_ipv4 addr; iplen = (if v4 = nil_ip then 16 else 4);
               ip = (if v4 = nil_ip then parse_ipv6 addr else v4)
           in case dtoi mtext of
                None \<Rightarrow> None
              | Some (n, left) \<Rightarrow>
                  if ip = nil_ip \<or> left \<noteq> [] \<or> 8 * iplen < n then None
                  else let m = cidr_mask n (8 * iplen)
                       in Some (ip, \<lparr>net_IP = ip_mask ip m, net_Mask = m\<rparr>)))"

primrec leading_ones :: "nat \<Rightarrow> 8 word \<Rightarrow> nat" where
  "leading_ones 0 v = 0"
| "leading_ones (Suc k) v = (if bit v 7 then Suc (leading_ones k (push_bit 1 v)) else 0)"

fun simple_mask_length :: "bytes \<Rightarrow> nat option" where
  "simple_mask_length [] = Some 0"
| "simple_mask_length (v # vs) =
     (if v = 255 then map_option ((+) 8) (simple_mask_length vs)
      else if push_bit (leading_ones 8 v) v \<noteq> 0 \<or> (\<exists>x \<in> set vs. x \<noteq> 0) then None
      else Some (leading_ones 8 v))"

definition ipnet_string :: "ip_net \<Rightarrow> string" where
  "ipnet_string n =
     (let v4 = ip_to4 (net_IP n); ip = (if v4 = nil_ip then net_IP n else v4);
          li = length (ip_bytes ip); lm = length (net_Mask n);
          m = (if lm = 16 \<and> li = 4 then drop 12 (net_Mask n) else net_Mask n)
      in if li \<noteq> 4 \<and> li \<noteq> 16 \<or> lm \<noteq> 4 \<and> lm \<noteq> 16 \<or> lm = 4 \<and> li \<noteq> 4 then ''<nil>''
         else case simple_mask_length m of
           None \<Rightarrow> ip_string ip @ ''/'' @ concat (map hex_byte m)
         | Some l \<Rightarrow> ip_string ip @ ''/'' @ uitoa l)"

section \<open>Equality of addresses\<close>

lemma length_v4_in_v6_prefix [simp]: "length v4_in_v6_prefix = 12"
  by (simp add: v4_in_v6_prefix_def)

text \<open>Every address has a canonical form, the 16-byte one where it has one, and \<open>Equal\<close>
  compares canonical forms: it is an equivalence.\<close>

definition canon :: "net_ip \<Rightarrow> bytes" where
  "canon ip = (if length (ip_bytes ip) = 4 then v4_in_v6_prefix @ ip_bytes ip else ip_bytes ip)"

lemma ip_equal_canon: "ip_equal a b \<longleftrightarrow> canon a = canon b"
proof -
  have eq12: "xs = v4_in_v6_prefix @ ys \<longleftrightarrow> take 12 xs = v4_in_v6_prefix \<and> drop 12 xs = ys"
    for xs ys :: bytes
    by (metis append_eq_conv_conj append_take_drop_id length_v4_in_v6_prefix)
  have eq21: "v4_in_v6_prefix @ ys = xs \<longleftrightarrow> take 12 xs = v4_in_v6_prefix \<and> ys = drop 12 xs"
    for xs ys :: bytes
    using eq12 [of xs ys] by auto
  show ?thesis
    by (auto simp: ip_equal_def canon_def Let_def eq12 eq21 dest: arg_cong [where f = length])
qed

lemma ip_equal_refl [simp]: "ip_equal ip ip"
  by (simp add: ip_equal_canon)

lemma ip_equal_sym: "ip_equal a b = ip_equal b a"
  by (auto simp: ip_equal_canon)

lemma ip_equal_trans: "ip_equal a b \<Longrightarrow> ip_equal b c \<Longrightarrow> ip_equal a c"
  by (simp add: ip_equal_canon)

lemma v6_form_split:
  "length a = 16 \<Longrightarrow> take 12 a = v4_in_v6_prefix \<Longrightarrow> a = v4_in_v6_prefix @ drop 12 a"
  by (metis append_take_drop_id)

lemma ip_to4_ipv4 [simp]: "ip_to4 (ipv4 a b c d) = IP [a, b, c, d]"
  by (simp add: ip_to4_def ipv4_def v4_in_v6_prefix_def)

lemma length4E:
  assumes "length xs = 4" obtains a b c d where "xs = [a, b, c, d]"
  using assms by (auto simp: numeral_eq_Suc length_Suc_conv)

text \<open>An IPv4 address is one of two byte slices, which \<open>Equal\<close> identifies.\<close>

lemma is_v4_cases:
  assumes "is_v4 ip"
  obtains a b c d where "ip = ipv4 a b c d \<or> ip = IP [a, b, c, d]" "ip_to4 ip = IP [a, b, c, d]"
proof -
  obtain bs where bs: "ip_bytes (ip_to4 ip) = bs" "length bs = 4" using assms by (auto simp: is_v4_def)
  then obtain a b c d where abcd: "bs = [a, b, c, d]" by (auto elim: length4E)
  have "ip_to4 ip = IP [a, b, c, d]" using bs abcd by (cases "ip_to4 ip") simp
  moreover from this have "ip = ipv4 a b c d \<or> ip = IP [a, b, c, d]"
    by (cases ip) (auto simp: ip_to4_def ipv4_def dest: v6_form_split split: if_splits)
  ultimately show ?thesis by (rule that [rotated])
qed

lemma ip_to4_bytes4 [simp]: "ip_to4 (IP [a, b, c, d]) = IP [a, b, c, d]"
  by (simp add: ip_to4_def)

lemma is_v4_forms [simp]: "is_v4 (ipv4 a b c d)" "is_v4 (IP [a, b, c, d])"
  by (simp_all add: is_v4_def)

lemma not_v4_nil [simp]: "\<not> is_v4 nil_ip"
  by (simp add: is_v4_def ip_to4_def)

lemma canon_v4:
  assumes "is_v4 ip" shows "canon ip = v4_in_v6_prefix @ ip_bytes (ip_to4 ip)"
  using assms by (elim is_v4_cases) (auto simp: canon_def ipv4_def)

lemma ip_equal_to4: "is_v4 a \<Longrightarrow> is_v4 b \<Longrightarrow> ip_equal a b \<longleftrightarrow> ip_to4 a = ip_to4 b"
  by (auto simp: ip_equal_canon canon_v4 net_ip.expand)

lemma ip_equal_v4: "ip_equal a b \<Longrightarrow> is_v4 a = is_v4 b"
  by (auto simp: ip_equal_def is_v4_def ip_to4_def Let_def split: if_splits)

section \<open>Round trips of IPv4 texts\<close>

lemma digit_char_dec [simp]:
  "n < 10 \<Longrightarrow> is_digit (digit_char n)" "n < 10 \<Longrightarrow> digit_val (digit_char n) = n"
  by (simp_all add: is_digit_def digit_val_def digit_char_def)

lemma uitoa_digits: "c \<in> set (uitoa n) \<Longrightarrow> is_digit c"
proof (induction n rule: uitoa.induct)
  case (1 n)
  then show ?case by (subst (asm) uitoa.simps) (auto split: if_splits)
qed

lemma uitoa_not_Nil [simp]: "uitoa n \<noteq> []"
  by (subst uitoa.simps) simp

lemma dec_loop_uitoa: "n < 16777215 \<Longrightarrow> dec_loop 0 (uitoa n @ rest) = dec_loop n rest"
proof (induction n arbitrary: rest rule: uitoa.induct)
  case (1 n)
  show ?case
  proof (cases "n < 10")
    case True
    then show ?thesis by (simp add: uitoa.simps [of n] Let_def)
  next
    case False
    then have "dec_loop 0 (uitoa n @ rest) = dec_loop 0 (uitoa (n div 10) @ digit_char (n mod 10) # rest)"
      by (simp add: uitoa.simps [of n])
    also have "\<dots> = dec_loop (n div 10) (digit_char (n mod 10) # rest)"
      using 1 False by simp
    also have "\<dots> = dec_loop n rest" using "1.prems" by (simp add: Let_def)
    finally show ?thesis .
  qed
qed

lemma dtoi_uitoa:
  assumes "n < 16777215" and "rest = [] \<or> \<not> is_digit (hd rest)"
  shows "dtoi (uitoa n @ rest) = Some (n, rest)"
proof -
  have "dec_loop n rest = Some (n, rest)" using assms(2) by (cases rest) auto
  moreover obtain c cs where "uitoa n = c # cs" by (cases "uitoa n") auto
  moreover from this have "is_digit c" using uitoa_digits [of c n] by simp
  ultimately show ?thesis using dec_loop_uitoa [OF assms(1), of rest] by (simp add: dtoi_def)
qed

lemma separators [simp]: "\<not> is_digit CHR ''.''" "\<not> is_digit CHR '':''" "\<not> is_digit CHR ''/''"
  by (simp_all add: is_digit_def)

lemma uitoa_separators [simp]:
  "CHR ''.'' \<notin> set (uitoa n)" "CHR '':'' \<notin> set (uitoa n)" "CHR ''/'' \<notin> set (uitoa n)"
  using uitoa_digits by force+

definition dotted :: "8 word \<Rightarrow> 8 word \<Rightarrow> 8 word \<Rightarrow> 8 word \<Rightarrow> string" where
  "dotted a b c d = uitoa (unat a) @ ''.'' @ uitoa (unat b) @ ''.'' @ uitoa (unat c) @ ''.'' @ uitoa (unat d)"

lemma unat_byte_bound [simp]: "unat (x :: 8 word) < 16777215" "\<not> 255 < unat (x :: 8 word)"
  using unsigned_less [of x, where ?'a = nat] by simp_all

lemma octets_step:
  assumes "rest = [] \<or> \<not> is_digit (hd rest)" "k < 3"
  shows "octets (Suc k) (CHR ''.'' # uitoa (unat x) @ rest) = map_option ((#) x) (octets k rest)"
  using assms by (simp add: dtoi_uitoa)

lemma octets_dotted: "octets 4 (dotted a b c d) = Some [a, b, c, d]"
proof -
  have start: "octets 4 (uitoa (unat a) @ CHR ''.'' # r) = map_option ((#) a) (octets 3 (CHR ''.'' # r))" for r
  proof -
    have four: "(4 :: nat) = Suc 3" by simp
    obtain h t where ht: "uitoa (unat a) = h # t" by (cases "uitoa (unat a)") auto
    have "dtoi (h # t @ CHR ''.'' # r) = Some (unat a, CHR ''.'' # r)"
      using dtoi_uitoa [of "unat a" "CHR ''.'' # r"] by (simp add: ht)
    then show ?thesis unfolding four octets.simps(2) by (simp add: ht)
  qed
  show ?thesis
    using octets_step [of "CHR ''.'' # uitoa (unat c) @ CHR ''.'' # uitoa (unat d)" 2 b]
      octets_step [of "CHR ''.'' # uitoa (unat d)" 1 c] octets_step [of "[]" 0 d]
    by (simp add: dotted_def start numeral_3_eq_3 numeral_2_eq_2)
qed

lemma parse_ipv4_dotted [simp]: "parse_ipv4 (dotted a b c d) = ipv4 a b c d"
  by (simp add: parse_ipv4_def octets_dotted ipv4_def)

lemma ip_string_dotted:
  "ip_to4 ip = IP [a, b, c, d] \<Longrightarrow> ip_string ip = dotted a b c d"
  by (auto simp: ip_string_def dotted_def ip_to4_def split: if_splits)

lemma filter_dotted:
  "filter (\<lambda>c. c = CHR ''.'' \<or> c = CHR '':'') (dotted a b c d) = ''...''"
proof -
  have "filter (\<lambda>c. c = CHR ''.'' \<or> c = CHR '':'') (uitoa n) = []" for n
    using uitoa_separators [of n] by (auto simp: filter_empty_conv)
  then show ?thesis by (simp add: dotted_def)
qed

lemma parse_ip_dotted [simp]: "parse_ip (dotted a b c d) = ipv4 a b c d"
  by (simp add: parse_ip_def filter_dotted)

text \<open>Printing and parsing an IPv4 address gives its 16-byte form.\<close>

lemma parse_ip_string: "ip_to4 ip = IP [a, b, c, d] \<Longrightarrow> parse_ip (ip_string ip) = ipv4 a b c d"
  by (simp add: ip_string_dotted)

lemma parse_ip_string_equal: "is_v4 ip \<Longrightarrow> ip_equal (parse_ip (ip_string ip)) ip \<and> is_v4 (parse_ip (ip_string ip))"
proof (intro conjI)
  assume v4: "is_v4 ip"
  then obtain a b c d where abcd: "ip_to4 ip = IP [a, b, c, d]" by (elim is_v4_cases)
  then show "is_v4 (parse_ip (ip_string ip))" by (simp add: parse_ip_string)
  with v4 abcd show "ip_equal (parse_ip (ip_string ip)) ip" by (simp add: parse_ip_string ip_equal_to4)
qed

lemma ip_string_inject: "is_v4 a \<Longrightarrow> is_v4 b \<Longrightarrow> ip_string a = ip_string b \<longleftrightarrow> ip_equal a b"
proof
  assume v4: "is_v4 a" "is_v4 b" and "ip_string a = ip_string b"
  then have "parse_ip (ip_string a) = parse_ip (ip_string b)" by simp
  with v4 show "ip_equal a b" by (metis parse_ip_string_equal ip_equal_sym ip_equal_trans)
next
  assume v4: "is_v4 a" "is_v4 b" and "ip_equal a b"
  then have "ip_to4 a = ip_to4 b" by (simp add: ip_equal_to4)
  with v4 show "ip_string a = ip_string b"
    by (elim is_v4_cases) (simp add: ip_string_dotted)
qed

lemma ip_string_not_empty [simp]: "ip_string ip \<noteq> []" if "is_v4 ip"
  using that by (elim is_v4_cases) (simp_all add: ip_string_dotted dotted_def)

subsection \<open>CIDR texts\<close>

lemma simple_mask_length_cidr_mask: "n \<le> 32 \<Longrightarrow> simple_mask_length (cidr_mask n 32) = Some n"
proof -
  assume "n \<le> 32"
  then have "n \<in> set [0..<33]" by auto
  moreover have "\<forall>n \<in> set [0..<33]. simple_mask_length (cidr_mask n 32) = Some n"
    by code_simp
  ultimately show ?thesis by blast
qed

lemma length_cidr_mask [simp]: "length (cidr_mask n b) = b div 8"
  by (simp add: cidr_mask_def)

lemma takeWhile_before: "x \<notin> set xs \<Longrightarrow> takeWhile (\<lambda>c. c \<noteq> x) (xs @ x # ys) = xs"
  by (induction xs) auto

lemma dropWhile_before: "x \<notin> set xs \<Longrightarrow> dropWhile (\<lambda>c. c \<noteq> x) (xs @ x # ys) = x # ys"
  by (induction xs) auto

lemma parse_cidr_dotted:
  assumes "n \<le> 32"
  shows "parse_cidr (dotted a b c d @ ''/'' @ uitoa n) =
    Some (ipv4 a b c d, \<lparr>net_IP = ip_mask (ipv4 a b c d) (cidr_mask n 32), net_Mask = cidr_mask n 32\<rparr>)"
proof -
  have no: "CHR ''/'' \<notin> set (dotted a b c d)" by (simp add: dotted_def)
  have "ipv4 a b c d \<noteq> nil_ip" by (simp add: ipv4_def)
  then show ?thesis
    using assms dtoi_uitoa [of n "[]"]
    by (simp add: parse_cidr_def takeWhile_before [OF no] dropWhile_before [OF no] Let_def)
qed

lemma ipnet_string_v4:
  assumes "ip_to4 (net_IP n) = IP [a, b, c, d]" "net_Mask n = cidr_mask l 32" "l \<le> 32"
  shows "ipnet_string n = dotted a b c d @ ''/'' @ uitoa l"
  using assms by (simp add: ipnet_string_def simple_mask_length_cidr_mask ip_string_dotted)

text \<open>An IPv4 network survives its text, up to the form of its address.\<close>

lemma parse_cidr_ipnet_string:
  assumes "is_v4 (net_IP n)" "net_Mask n = cidr_mask l 32" "l \<le> 32"
  shows "\<exists>a b c d. ip_to4 (net_IP n) = IP [a, b, c, d] \<and>
    parse_cidr (ipnet_string n) =
      Some (ipv4 a b c d, \<lparr>net_IP = ip_mask (ipv4 a b c d) (net_Mask n), net_Mask = net_Mask n\<rparr>)"
proof -
  obtain a b c d where "ip_to4 (net_IP n) = IP [a, b, c, d]" using assms(1) by (elim is_v4_cases)
  with assms(2,3) show ?thesis by (simp add: ipnet_string_v4 parse_cidr_dotted [simplified])
qed

section \<open>Addresses as texts\<close>

text \<open>\<open>IP.MarshalText\<close> and \<open>IP.UnmarshalText\<close>\<close>

definition marshal_ip :: "net_ip \<Rightarrow> error + string" where
  "marshal_ip ip =
     (if ip_bytes ip = [] then Inr []
      else if length (ip_bytes ip) \<noteq> 4 \<and> length (ip_bytes ip) \<noteq> 16 then Inl (ExtErr ''invalid IP address'')
      else Inr (ip_string ip))"

definition unmarshal_ip :: "string \<Rightarrow> error + net_ip" where
  "unmarshal_ip s =
     (if s = [] then Inr nil_ip
      else if parse_ip s = nil_ip then Inl (ExtErr (''invalid IP address: '' @ s))
      else Inr (parse_ip s))"

definition ip_norm :: "net_ip \<Rightarrow> net_ip" where
  "ip_norm ip = IP (canon ip)"

lemma ip_norm_v4: "ip_to4 ip = IP [a, b, c, d] \<Longrightarrow> ip_norm ip = ipv4 a b c d"
  using canon_v4 [of ip] by (simp add: is_v4_def ip_norm_def ipv4_def)

lemma ip_norm_nil [simp]: "ip_norm nil_ip = nil_ip"
  by (simp add: ip_norm_def canon_def)

lemma is_v4_ip_norm [simp]: "is_v4 ip \<Longrightarrow> is_v4 (ip_norm ip)"
  by (elim is_v4_cases) (simp add: ip_norm_v4)

lemma ip_equal_norm [simp]: "is_v4 ip \<Longrightarrow> ip_equal (ip_norm ip) ip"
  by (metis ip_norm_v4 ip_to4_ipv4 ip_equal_to4 is_v4_cases is_v4_ip_norm)

lemma ip_norm_eq: "is_v4 a \<Longrightarrow> is_v4 b \<Longrightarrow> ip_norm a = ip_norm b \<longleftrightarrow> ip_equal a b"
  by (simp add: ip_norm_def ip_equal_canon)

lemma ip_string_norm [simp]: "is_v4 ip \<Longrightarrow> ip_string (ip_norm ip) = ip_string ip"
  by (simp add: ip_string_inject)

lemma parse_ip_string_norm: "is_v4 ip \<Longrightarrow> parse_ip (ip_string ip) = ip_norm ip"
  by (elim is_v4_cases) (simp add: parse_ip_string ip_norm_v4)

lemma v4_lengths: "is_v4 ip \<Longrightarrow> length (ip_bytes ip) = 4 \<or> length (ip_bytes ip) = 16"
  by (auto simp: is_v4_def ip_to4_def split: if_splits)

lemma marshal_ip_v4: "is_v4 ip \<Longrightarrow> marshal_ip ip = Inr (ip_string ip)"
  using v4_lengths [of ip] by (auto simp: marshal_ip_def)

text \<open>The addresses that travel as texts: nil, or IPv4.\<close>

definition sendable_ip :: "net_ip \<Rightarrow> bool" where
  "sendable_ip ip \<longleftrightarrow> ip = nil_ip \<or> is_v4 ip"

lemma parse_ip_string_sendable: "sendable_ip ip \<Longrightarrow> parse_ip (ip_string ip) = ip_norm ip"
  by (auto simp: sendable_ip_def parse_ip_string_norm) (simp add: ip_string_def parse_ip_def)

interpretation ip_text: text_codec marshal_ip unmarshal_ip sendable_ip ip_norm
proof
  fix ip assume ip: "sendable_ip ip"
  have neq: "ip_norm ip \<noteq> nil_ip" if "is_v4 ip" using is_v4_ip_norm [OF that] by auto
  show "\<exists>t. marshal_ip ip = Inr t \<and> unmarshal_ip t = Inr (ip_norm ip)"
  proof (cases "is_v4 ip")
    case True
    then show ?thesis
      using neq by (simp add: marshal_ip_v4 unmarshal_ip_def parse_ip_string_norm)
  next
    case False
    then have "ip = nil_ip" using ip by (simp add: sendable_ip_def)
    then show ?thesis by (simp add: marshal_ip_def unmarshal_ip_def)
  qed
  show "sendable_ip (ip_norm ip)" using ip by (auto simp: sendable_ip_def)
  show "marshal_ip (ip_norm ip) = marshal_ip ip" using ip by (auto simp: sendable_ip_def marshal_ip_v4)
qed

end
