(* ===== verification/Json_Text.thy ===== *)
theory Json_Text
  imports Net_IP
begin

text \<open>
  The JSON texts of Go's package encoding/json that pass between the two daemons (node
  annotations) and that keep the allocator's state on disk: values, the compact text
  \<open>json.Marshal\<close> writes, and the parser behind \<open>json.Unmarshal\<close>. Numbers keep their
  literal, as the decoder does until it knows the field's type. Strings are byte strings;
  bytes above 127 are passed through (Go replaces invalid UTF-8 there).

  The main lemma is \<open>json_roundtrip\<close>: parsing the printed text of a value gives the value
  back, and the fuel of the parser, twice the length of its input, is always enough for it.
\<close>

section \<open>Values\<close>

datatype json =
    JNull
  | JBool bool
  | JNum string
  | JStr string
  | JArr "json list"
  | JObj "(string \<times> json) list"

section \<open>Printing\<close>

abbreviation dquote :: char where "dquote \<equiv> CHR 0x22"
abbreviation backslash :: char where "backslash \<equiv> CHR 0x5C"

definition escape_char :: "char \<Rightarrow> string" where
  "escape_char c =
     (if c = dquote then [backslash, dquote]
      else if c = backslash then [backslash, backslash]
      else if c = CHR 0x0A then [backslash, CHR ''n'']
      else if c = CHR 0x0D then [backslash, CHR ''r'']
      else if c = CHR 0x09 then [backslash, CHR ''t'']
      else if (of_char c :: nat) < 32 \<or> c = CHR ''<'' \<or> c = CHR ''>'' \<or> c = CHR ''&''
      then [backslash, CHR ''u'', CHR ''0'', CHR ''0'',
            digit_char (of_char c div 16), digit_char (of_char c mod 16)]
      else [c])"

definition json_quote :: "string \<Rightarrow> string" where
  "json_quote s = dquote # concat (map escape_char s) @ [dquote]"

fun comma_sep :: "string list \<Rightarrow> string" where
  "comma_sep [] = []"
| "comma_sep [x] = x"
| "comma_sep (x # xs) = x @ CHR '','' # comma_sep xs"

fun json_print :: "json \<Rightarrow> string" where
  "json_print JNull = ''null''"
| "json_print (JBool b) = (if b then ''true'' else ''false'')"
| "json_print (JNum s) = s"
| "json_print (JStr s) = json_quote s"
| "json_print (JArr xs) = CHR ''['' # comma_sep (map json_print xs) @ '']''"
| "json_print (JObj ms) =
     CHR ''{'' # comma_sep (map (\<lambda>(k, v). json_quote k @ CHR '':'' # json_print v) ms) @ ''}''"

section \<open>Parsing\<close>

definition is_space :: "char \<Rightarrow> bool" where
  "is_space c \<longleftrightarrow> c = CHR '' '' \<or> c = CHR 0x09 \<or> c = CHR 0x0A \<or> c = CHR 0x0D"

definition skip_ws :: "string \<Rightarrow> string" where
  "skip_ws s = dropWhile is_space s"

definition utf8 :: "nat \<Rightarrow> string" where
  "utf8 n =
     (if n < 128 then [char_of n]
      else if n < 2048 then [char_of (192 + n div 64), char_of (128 + n mod 64)]
      else if n < 65536 then
        [char_of (224 + n div 4096), char_of (128 + n div 64 mod 64), char_of (128 + n mod 64)]
      else
        [char_of (240 + n div 262144), char_of (128 + n div 4096 mod 64),
         char_of (128 + n div 64 mod 64), char_of (128 + n mod 64)])"

definition hex4 :: "char \<Rightarrow> char \<Rightarrow> char \<Rightarrow> char \<Rightarrow> nat option" where
  "hex4 a b c d =
     (case (hexdigit_val a, hexdigit_val b, hexdigit_val c, hexdigit_val d) of
        (Some w, Some x, Some y, Some z) \<Rightarrow> Some (((w * 16 + x) * 16 + y) * 16 + z)
      | _ \<Rightarrow> None)"

definition simple_escape :: "char \<Rightarrow> char option" where
  "simple_escape e =
     (if e = dquote \<or> e = backslash \<or> e = CHR ''/'' then Some e
      else if e = CHR ''b'' then Some CHR 0x08
      else if e = CHR ''f'' then Some CHR 0x0C
      else if e = CHR ''n'' then Some CHR 0x0A
      else if e = CHR ''r'' then Some CHR 0x0D
      else if e = CHR ''t'' then Some CHR 0x09
      else None)"

text \<open>The rest of a string literal, after its opening quote. A pair of surrogates is one
  code point; a lone one is U+FFFD.\<close>

definition cons_str :: "string \<Rightarrow> (string \<times> string) option \<Rightarrow> (string \<times> string) option" where
  "cons_str p r = map_option (\<lambda>(s, rest). (p @ s, rest)) r"

fun str_body :: "string \<Rightarrow> (string \<times> string) option" where
  "str_body [] = None"
| "str_body (c # cs) =
     (if c = dquote then Some ([], cs)
      else if c = backslash then
        (case cs of
           [] \<Rightarrow> None
         | e # es \<Rightarrow>
             if e = CHR ''u'' then
               (case es of
                  a # b # c' # d # r \<Rightarrow>
                    (case hex4 a b c' d of
                       None \<Rightarrow> None
                     | Some n \<Rightarrow>
                         if 55296 \<le> n \<and> n < 57344 then
                           (case r of
                              s1 # s2 # a' # b' # c'' # d' # r' \<Rightarrow>
                                (case hex4 a' b' c'' d' of
                                   Some m \<Rightarrow>
                                     if s1 = backslash \<and> s2 = CHR ''u'' \<and> n < 56320 \<and> 56320 \<le> m \<and> m < 57344
                                     then cons_str (utf8 (65536 + (n - 55296) * 1024 + (m - 56320))) (str_body r')
                                     else cons_str (utf8 65533) (str_body r)
                                 | None \<Rightarrow> cons_str (utf8 65533) (str_body r))
                            | _ \<Rightarrow> cons_str (utf8 65533) (str_body r))
                         else cons_str (utf8 n) (str_body r))
                | _ \<Rightarrow> None)
             else (case simple_escape e of None \<Rightarrow> None | Some x \<Rightarrow> cons_str [x] (str_body es)))
      else if (of_char c :: nat) < 32 then None
      else cons_str [c] (str_body cs))"

definition is_num_char :: "char \<Rightarrow> bool" where
  "is_num_char c \<longleftrightarrow> is_digit c \<or> c = CHR ''-'' \<or> c = CHR ''+'' \<or> c = CHR ''.'' \<or> c = CHR ''e'' \<or> c = CHR ''E''"

definition digits1 :: "string \<Rightarrow> bool" where
  "digits1 s \<longleftrightarrow> s \<noteq> [] \<and> list_all is_digit s"

definition valid_exp :: "string \<Rightarrow> bool" where
  "valid_exp s =
     (case s of
        [] \<Rightarrow> True
      | c # cs \<Rightarrow>
          (c = CHR ''e'' \<or> c = CHR ''E'') \<and>
          (case cs of
             [] \<Rightarrow> False
           | d # ds \<Rightarrow> digits1 (if d = CHR ''+'' \<or> d = CHR ''-'' then ds else d # ds)))"

fun strip_minus :: "string \<Rightarrow> bool \<times> string" where
  "strip_minus [] = (False, [])"
| "strip_minus (c # cs) = (if c = CHR ''-'' then (True, cs) else (False, c # cs))"

definition valid_number :: "string \<Rightarrow> bool" where
  "valid_number s =
     (let t = snd (strip_minus s);
          i = takeWhile is_digit t; r = dropWhile is_digit t
      in digits1 i \<and> (hd i = CHR ''0'' \<longrightarrow> length i = 1) \<and>
         (case r of
            [] \<Rightarrow> True
          | c # cs \<Rightarrow>
              if c = CHR ''.''
              then digits1 (takeWhile is_digit cs) \<and> valid_exp (dropWhile is_digit cs)
              else valid_exp r))"

definition expect :: "string \<Rightarrow> json \<Rightarrow> string \<Rightarrow> (json \<times> string) option" where
  "expect w v s = (if take (length w) s = w then Some (v, drop (length w) s) else None)"

definition parse_number :: "string \<Rightarrow> (json \<times> string) option" where
  "parse_number s =
     (let n = takeWhile is_num_char s
      in if valid_number n then Some (JNum n, dropWhile is_num_char s) else None)"

fun parse_value :: "nat \<Rightarrow> string \<Rightarrow> (json \<times> string) option"
  and parse_elems :: "nat \<Rightarrow> string \<Rightarrow> (json list \<times> string) option"
  and parse_members :: "nat \<Rightarrow> string \<Rightarrow> ((string \<times> json) list \<times> string) option"
where
  "parse_value 0 s = None"
| "parse_value (Suc k) s =
     (case skip_ws s of
        [] \<Rightarrow> None
      | c # cs \<Rightarrow>
          if c = CHR ''{'' then
            (if take 1 (skip_ws cs) = ''}'' then Some (JObj [], tl (skip_ws cs))
             else map_option (\<lambda>(ms, r). (JObj ms, r)) (parse_members k cs))
          else if c = CHR ''['' then
            (if take 1 (skip_ws cs) = '']'' then Some (JArr [], tl (skip_ws cs))
             else map_option (\<lambda>(xs, r). (JArr xs, r)) (parse_elems k cs))
          else if c = dquote then map_option (\<lambda>(t, r). (JStr t, r)) (str_body cs)
          else if c = CHR ''n'' then expect ''null'' JNull (c # cs)
          else if c = CHR ''t'' then expect ''true'' (JBool True) (c # cs)
          else if c = CHR ''f'' then expect ''false'' (JBool False) (c # cs)
          else parse_number (c # cs))"
| "parse_elems 0 s = None"
| "parse_elems (Suc k) s =
     (case parse_value k s of
        None \<Rightarrow> None
      | Some (v, r) \<Rightarrow>
          (case skip_ws r of
             [] \<Rightarrow> None
           | c # cs \<Rightarrow>
               if c = CHR '','' then map_option (\<lambda>(vs, r). (v # vs, r)) (parse_elems k cs)
               else if c = CHR '']'' then Some ([v], cs)
               else None))"
| "parse_members 0 s = None"
| "parse_members (Suc k) s =
     (case skip_ws s of
        [] \<Rightarrow> None
      | q # qs \<Rightarrow>
          if q \<noteq> dquote then None
          else case str_body qs of
            None \<Rightarrow> None
          | Some (key, r) \<Rightarrow>
              if take 1 (skip_ws r) \<noteq> '':'' then None
              else case parse_value k (tl (skip_ws r)) of
                None \<Rightarrow> None
              | Some (v, r) \<Rightarrow>
                  (case skip_ws r of
                     [] \<Rightarrow> None
                   | c # cs \<Rightarrow>
                       if c = CHR '','' then map_option (\<lambda>(ms, r). ((key, v) # ms, r)) (parse_members k cs)
                       else if c = CHR ''}'' then Some ([(key, v)], cs)
                       else None))"

definition json_parse :: "string \<Rightarrow> json option" where
  "json_parse s =
     (case parse_value (2 * length s + 2) s of
        Some (v, r) \<Rightarrow> if skip_ws r = [] then Some v else None
      | None \<Rightarrow> None)"

section \<open>The round trip\<close>

lemma str_body_plain:
  "c \<noteq> dquote \<Longrightarrow> c \<noteq> backslash \<Longrightarrow> 32 \<le> (of_char c :: nat) \<Longrightarrow>
     str_body (c # cs) = cons_str [c] (str_body cs)"
  by simp

lemma hexdigit_digit_char [simp]: "n < 16 \<Longrightarrow> hexdigit_val (digit_char n) = Some n"
  by (auto simp: digit_char_def hexdigit_val_def Let_def)

lemma hex4_byte:
  assumes "x < 256"
  shows "hex4 (CHR ''0'') (CHR ''0'') (digit_char (x div 16)) (digit_char (x mod 16)) = Some x"
proof -
  have zero: "hexdigit_val (CHR ''0'') = Some 0" by (simp add: hexdigit_val_def)
  show ?thesis using assms by (simp add: hex4_def zero)
qed

declare str_body.simps(2) [simp del]

lemma str_body_u:
  assumes "x < 256"
  shows "str_body (backslash # CHR ''u'' # CHR ''0'' # CHR ''0'' # digit_char (x div 16) # digit_char (x mod 16) # r) =
     cons_str (utf8 x) (str_body r)"
  using assms by (subst str_body.simps) (simp add: hex4_byte)

lemma str_body_simple:
  "simple_escape e = Some x \<Longrightarrow> e \<noteq> CHR ''u'' \<Longrightarrow>
     str_body (backslash # e # r) = cons_str [x] (str_body r)"
  by (subst str_body.simps) simp

lemma str_body_escape: "str_body (escape_char c @ r) = cons_str [c] (str_body r)"
proof (cases "c = dquote \<or> c = backslash \<or> c = CHR 0x0A \<or> c = CHR 0x0D \<or> c = CHR 0x09")
  case True
  then show ?thesis by (auto simp: escape_char_def simple_escape_def str_body_simple)
next
  case special: False
  show ?thesis
  proof (cases "(of_char c :: nat) < 32 \<or> c = CHR ''<'' \<or> c = CHR ''>'' \<or> c = CHR ''&''")
    case True
    then have small: "(of_char c :: nat) < 128" by auto
    then have "utf8 (of_char c) = [c]" by (simp add: utf8_def)
    with small True special str_body_u [of "of_char c" r] show ?thesis
      by (simp add: escape_char_def)
  next
    case False
    with special show ?thesis
      by (simp add: escape_char_def) (subst str_body.simps, simp)
  qed
qed

lemma str_body_quote: "str_body (concat (map escape_char s) @ dquote # r) = Some (s, r)"
proof (induction s)
  case Nil
  then show ?case by (simp add: str_body.simps)
next
  case (Cons c s)
  then show ?case by (simp add: str_body_escape cons_str_def)
qed

text \<open>What may follow a value: nothing, or the punctuation of an array or object.\<close>

definition delimited :: "string \<Rightarrow> bool" where
  "delimited r \<longleftrightarrow> r = [] \<or> hd r \<in> {CHR '','', CHR '']'', CHR ''}''}"

fun json_ok :: "json \<Rightarrow> bool" where
  "json_ok (JNum s) = (valid_number s \<and> list_all is_num_char s)"
| "json_ok (JArr xs) = list_all json_ok xs"
| "json_ok (JObj ms) = list_all (\<lambda>(k, v). json_ok v) ms"
| "json_ok _ = True"

lemma number_head:
  assumes "valid_number s"
  obtains c cs where "s = c # cs" "is_digit c \<or> c = CHR ''-''"
proof -
  have "s \<noteq> []" using assms by (auto simp: valid_number_def digits1_def)
  then obtain c cs where s: "s = c # cs" by (cases s) auto
  with assms have "is_digit c \<or> c = CHR ''-''"
    by (cases "c = CHR ''-''") (auto simp: valid_number_def digits1_def Let_def split: if_splits)
  with s show ?thesis by (rule that)
qed

lemma digit_not_punct:
  "is_digit c \<or> c = CHR ''-'' \<Longrightarrow>
     c \<noteq> CHR ''{'' \<and> c \<noteq> CHR ''['' \<and> c \<noteq> dquote \<and> c \<noteq> CHR ''n'' \<and> c \<noteq> CHR ''t'' \<and> c \<noteq> CHR ''f'' \<and> \<not> is_space c"
  by (auto simp: is_digit_def is_space_def)

lemma skip_ws_head: "\<not> is_space c \<Longrightarrow> skip_ws (c # cs) = c # cs"
  by (simp add: skip_ws_def)

lemma punct_not_space [simp]:
  "\<not> is_space (CHR '','')" "\<not> is_space (CHR '']'')" "\<not> is_space (CHR ''}'')" "\<not> is_space (CHR '':'')"
  "\<not> is_space (CHR ''['')" "\<not> is_space (CHR ''{'')" "\<not> is_space dquote"
  "\<not> is_space (CHR ''n'')" "\<not> is_space (CHR ''t'')" "\<not> is_space (CHR ''f'')"
  by (simp_all add: is_space_def)

lemma skip_ws_simps [simp]: "skip_ws [] = []" "\<not> is_space c \<Longrightarrow> skip_ws (c # cs) = c # cs"
  by (simp_all add: skip_ws_def)

lemma parse_number_print:
  assumes "json_ok (JNum s)" "delimited r"
  shows "parse_number (s @ r) = Some (JNum s, r)"
proof -
  have "\<not> is_num_char (hd r)" if "r \<noteq> []"
    using assms(2) that by (auto simp: delimited_def is_num_char_def is_digit_def)
  then have "takeWhile is_num_char (s @ r) = s \<and> dropWhile is_num_char (s @ r) = r"
    using assms(1) by (cases r) (auto simp: takeWhile_append2 dropWhile_append2 list_all_iff)
  with assms(1) show ?thesis by (simp add: parse_number_def)
qed

lemma expect_append [simp]: "expect w v (w @ r) = Some (v, r)"
  by (simp add: expect_def)

lemma parse_value_number:
  assumes "json_ok (JNum s)" "delimited r"
  shows "parse_value (Suc k) (s @ r) = Some (JNum s, r)"
proof -
  obtain c cs where s: "s = c # cs" and c: "is_digit c \<or> c = CHR ''-''"
    using number_head assms(1) by auto
  show ?thesis using digit_not_punct [OF c] parse_number_print [OF assms] by (simp add: s)
qed

lemma json_print_head:
  assumes "json_ok v"
  obtains c cs where "json_print v = c # cs" "\<not> is_space c" "c \<noteq> CHR '']'' \<and> c \<noteq> CHR ''}''"
proof (cases v)
  case (JNum s)
  then obtain c cs where s: "s = c # cs" "is_digit c \<or> c = CHR ''-''" using assms number_head by auto
  then have "c \<noteq> CHR '']'' \<and> c \<noteq> CHR ''}''" by (auto simp: is_digit_def)
  with s JNum show ?thesis using that digit_not_punct by auto
next
  case (JBool b)
  then show ?thesis using that by (cases b) auto
qed (use that in \<open>auto simp: json_quote_def\<close>)

definition reads_back :: "json \<Rightarrow> bool" where
  "reads_back v \<longleftrightarrow> (\<forall>k r. delimited r \<longrightarrow> 2 * length (json_print v) < k \<longrightarrow>
     parse_value k (json_print v @ r) = Some (v, r))"

lemma reads_backD:
  "reads_back v \<Longrightarrow> delimited r \<Longrightarrow> 2 * length (json_print v) < k \<Longrightarrow>
     parse_value k (json_print v @ r) = Some (v, r)"
  by (simp add: reads_back_def)

lemma delimited_simps [simp]:
  "delimited []" "delimited (CHR '','' # r)" "delimited (CHR '']'' # r)" "delimited (CHR ''}'' # r)"
  by (simp_all add: delimited_def)

declare parse_value.simps(2) [simp del] parse_elems.simps(2) [simp del] parse_members.simps(2) [simp del]

lemma parse_elems_print:
  "xs \<noteq> [] \<Longrightarrow> (\<And>x. x \<in> set xs \<Longrightarrow> reads_back x) \<Longrightarrow>
     2 * length (comma_sep (map json_print xs)) + 1 < k \<Longrightarrow>
     parse_elems k (comma_sep (map json_print xs) @ CHR '']'' # r) = Some (xs, r)"
proof (induction xs arbitrary: k)
  case (Cons x xs)
  then obtain k' where k: "k = Suc k'" by (cases k) auto
  show ?case
  proof (cases xs)
    case Nil
    with Cons.prems k show ?thesis
      by (simp add: parse_elems.simps(2) reads_backD)
  next
    case (Cons y ys)
    then have sep: "comma_sep (map json_print (x # xs)) =
        json_print x @ CHR '','' # comma_sep (map json_print xs)" by simp
    have "parse_elems k' (comma_sep (map json_print xs) @ CHR '']'' # r) = Some (xs, r)"
      using Cons.IH [of k'] Cons.prems k \<open>xs = y # ys\<close> by (simp add: sep)
    then show ?thesis using Cons.prems k sep
      by (simp add: parse_elems.simps(2) reads_backD)
  qed
qed simp

abbreviation print_member :: "string \<times> json \<Rightarrow> string" where
  "print_member \<equiv> \<lambda>(k, v). json_quote k @ CHR '':'' # json_print v"

lemma parse_members_print:
  "ms \<noteq> [] \<Longrightarrow> (\<And>m. m \<in> set ms \<Longrightarrow> reads_back (snd m)) \<Longrightarrow>
     2 * length (comma_sep (map print_member ms)) + 1 < k \<Longrightarrow>
     parse_members k (comma_sep (map print_member ms) @ CHR ''}'' # r) = Some (ms, r)"
proof (induction ms arbitrary: k)
  case (Cons m ms)
  obtain key v where m: "m = (key, v)" by fastforce
  have v: "reads_back v" using Cons.prems(2) [of m] by (simp add: m)
  from Cons.prems obtain k' where k: "k = Suc k'" by (cases k) auto
  have split_colon: "take 1 (skip_ws (CHR '':'' # t)) = '':''" "tl (skip_ws (CHR '':'' # t)) = t" for t
    by simp_all
  have head: "parse_members (Suc k') (json_quote key @ CHR '':'' # json_print v @ t) =
      (case skip_ws t of
         [] \<Rightarrow> None
       | c # cs \<Rightarrow>
           if c = CHR '','' then map_option (\<lambda>(ms, r). ((key, v) # ms, r)) (parse_members k' cs)
           else if c = CHR ''}'' then Some ([(key, v)], cs)
           else None)"
    if "delimited t" "2 * length (json_print v) < k'" for t
    using reads_backD [OF v that] str_body_quote [of key "CHR '':'' # json_print v @ t"]
    by (simp add: parse_members.simps(2) json_quote_def)
  show ?case
  proof (cases ms)
    case Nil
    with Cons.prems k m show ?thesis
      by (simp add: head json_quote_def del: append_assoc) (simp add: head [unfolded json_quote_def, simplified])
  next
    case (Cons m' ms')
    then have sep: "comma_sep (map print_member (m # ms)) =
        json_quote key @ CHR '':'' # json_print v @ CHR '','' # comma_sep (map print_member ms)"
      by (simp add: m)
    have "parse_members k' (comma_sep (map print_member ms) @ CHR ''}'' # r) = Some (ms, r)"
      using Cons.IH [of k'] Cons.prems k \<open>ms = m' # ms'\<close> by (simp add: sep)
    moreover have "2 * length (json_print v) < k'" using Cons.prems(3) k by (simp only: sep) simp
    ultimately show ?thesis using k m sep by (simp add: head)
  qed
qed simp

lemma json_ok_reads_back: "json_ok v \<Longrightarrow> reads_back v"
proof (induction v)
  case (JNum s)
  show ?case unfolding reads_back_def
  proof (intro allI impI)
    fix k r assume "delimited r" "2 * length (json_print (JNum s)) < k"
    with JNum parse_value_number [of s r "k - 1"] show "parse_value k (json_print (JNum s) @ r) = Some (JNum s, r)"
      by (cases k) auto
  qed
next
  case (JStr s)
  show ?case unfolding reads_back_def
  proof (intro allI impI)
    fix k r assume "2 * length (json_print (JStr s)) < k"
    then show "parse_value k (json_print (JStr s) @ r) = Some (JStr s, r)"
      using str_body_quote [of s r] by (cases k) (simp_all add: parse_value.simps(2) json_quote_def)
  qed
next
  case (JArr xs)
  show ?case unfolding reads_back_def
  proof (intro allI impI)
    fix k r assume "delimited r" and k: "2 * length (json_print (JArr xs)) < k"
    then obtain k' where k': "k = Suc k'" by (cases k) auto
    show "parse_value k (json_print (JArr xs) @ r) = Some (JArr xs, r)"
    proof (cases xs)
      case Nil
      then show ?thesis by (simp add: k' parse_value.simps(2))
    next
      case (Cons x ys)
      then have "json_ok x" using JArr.prems by simp
      then obtain c cs where c: "json_print x = c # cs" "\<not> is_space c" "c \<noteq> CHR '']'' \<and> c \<noteq> CHR ''}''"
        by (rule json_print_head)
      then have "take 1 (skip_ws (comma_sep (map json_print xs) @ CHR '']'' # r)) \<noteq> '']''"
        using Cons by (cases ys) simp_all
      moreover have "reads_back x" if "x \<in> set xs" for x
        using JArr that by (auto simp: list_all_iff)
      then have "parse_elems k' (comma_sep (map json_print xs) @ CHR '']'' # r) = Some (xs, r)"
        using parse_elems_print [of xs k' r] k k' Cons by simp
      ultimately show ?thesis by (simp add: k' parse_value.simps(2))
    qed
  qed
next
  case (JObj ms)
  show ?case unfolding reads_back_def
  proof (intro allI impI)
    fix k r assume "delimited r" and k: "2 * length (json_print (JObj ms)) < k"
    then obtain k' where k': "k = Suc k'" by (cases k) auto
    show "parse_value k (json_print (JObj ms) @ r) = Some (JObj ms, r)"
    proof (cases ms)
      case Nil
      then show ?thesis by (simp add: k' parse_value.simps(2))
    next
      case (Cons m ms')
      then have "take 1 (skip_ws (comma_sep (map print_member ms) @ CHR ''}'' # r)) \<noteq> ''}''"
        by (cases ms'; cases m) (simp_all add: json_quote_def)
      moreover have "reads_back (snd m)" if "m \<in> set ms" for m
        using JObj that by (cases m) (fastforce simp: list_all_iff)
      then have "parse_members k' (comma_sep (map print_member ms) @ CHR ''}'' # r) = Some (ms, r)"
        using parse_members_print [of ms k' r] k k' Cons by simp
      ultimately show ?thesis by (simp add: k' parse_value.simps(2))
    qed
  qed
next
  case JNull
  have "parse_value (Suc k) (''null'' @ r) = Some (JNull, r)" for k r
    using expect_append [of "''null''" JNull r] by (simp add: parse_value.simps(2))
  then show ?case by (auto simp: reads_back_def dest!: less_imp_Suc_add)
next
  case (JBool b)
  have "parse_value (Suc k) (''true'' @ r) = Some (JBool True, r)"
    "parse_value (Suc k) (''false'' @ r) = Some (JBool False, r)" for k r
    using expect_append [of "''true''" "JBool True" r] expect_append [of "''false''" "JBool False" r]
    by (simp_all add: parse_value.simps(2))
  then show ?case by (auto simp: reads_back_def dest!: less_imp_Suc_add)
qed

theorem json_roundtrip: "json_ok v \<Longrightarrow> json_parse (json_print v) = Some v"
proof -
  assume "json_ok v"
  then have "parse_value (2 * length (json_print v) + 2) (json_print v @ []) = Some (v, [])"
    by (intro reads_backD json_ok_reads_back) simp_all
  then show ?thesis by (simp add: json_parse_def)
qed

end
