(* ===== verification/Json_Struct.thy ===== *)
theory Json_Struct
  imports Json_Text
begin

text \<open>
  How encoding/json fills Go structs: fields are matched by name, exactly or else up to
  ASCII case, in the order of the object's members; a field that is absent keeps the value
  it had; null leaves a string, number or struct as it is and makes a pointer or slice
  nil; a value of the wrong kind is an error of the whole call.
\<close>

definition type_error :: error where
  "type_error = ExtErr ''json: cannot unmarshal value into Go struct field''"

fun dec_string :: "json \<Rightarrow> string \<Rightarrow> error + string" where
  "dec_string (JStr s) old = Inr s"
| "dec_string JNull old = Inr old"
| "dec_string _ old = Inl type_error"

fun dec_bool :: "json \<Rightarrow> bool \<Rightarrow> error + bool" where
  "dec_bool (JBool b) old = Inr b"
| "dec_bool JNull old = Inr old"
| "dec_bool _ old = Inl type_error"

text \<open>\<open>strconv.Itoa\<close>, and \<open>strconv.ParseInt\<close> with base 10 and 64 bits.\<close>

definition itoa :: "int \<Rightarrow> string" where
  "itoa i = (if i < 0 then CHR ''-'' # uitoa (nat (- i)) else uitoa (nat i))"

definition digits_val :: "string \<Rightarrow> nat" where
  "digits_val s = foldl (\<lambda>n c. n * 10 + digit_val c) 0 s"

definition parse_int64 :: "string \<Rightarrow> int option" where
  "parse_int64 s =
     (let (neg, ds) = strip_minus s;
          v = (if neg then - int (digits_val ds) else int (digits_val ds))
      in if digits1 ds \<and> - (2 ^ 63) \<le> v \<and> v < 2 ^ 63 then Some v else None)"

fun dec_int :: "json \<Rightarrow> int \<Rightarrow> error + int" where
  "dec_int (JNum s) old = (case parse_int64 s of None \<Rightarrow> Inl type_error | Some i \<Rightarrow> Inr i)"
| "dec_int JNull old = Inr old"
| "dec_int _ old = Inl type_error"

fun dec_ip :: "json \<Rightarrow> error + net_ip" where
  "dec_ip (JStr s) = unmarshal_ip s"
| "dec_ip JNull = Inr nil_ip"
| "dec_ip _ = Inl type_error"

definition dec_ptr :: "(json \<Rightarrow> error + 'a) \<Rightarrow> json \<Rightarrow> error + 'a option" where
  "dec_ptr d v = (if v = JNull then Inr None else sum_bind (d v) (\<lambda>x. Inr (Some x)))"

fun dec_slice :: "(json \<Rightarrow> error + 'a) \<Rightarrow> json \<Rightarrow> error + 'a slice" where
  "dec_slice d JNull = Inr None"
| "dec_slice d (JArr xs) = sum_bind (traverse d xs) (\<lambda>ys. Inr (Some ys))"
| "dec_slice d _ = Inl type_error"

definition lower :: "char \<Rightarrow> char" where
  "lower c = (let n = of_char c :: nat in if 65 \<le> n \<and> n \<le> 90 then char_of (n + 32) else c)"

text \<open>The field a key names, if any.\<close>

definition match_field :: "string list \<Rightarrow> string \<Rightarrow> string option" where
  "match_field names key =
     (if key \<in> set names then Some key
      else List.find (\<lambda>f. map lower f = map lower key) names)"

fun dec_members ::
  "string list \<Rightarrow> (string \<Rightarrow> json \<Rightarrow> 'a \<Rightarrow> error + 'a) \<Rightarrow> (string \<times> json) list \<Rightarrow> 'a \<Rightarrow> error + 'a"
where
  "dec_members names field [] x = Inr x"
| "dec_members names field ((key, v) # ms) x =
     (case match_field names key of
        None \<Rightarrow> dec_members names field ms x
      | Some f \<Rightarrow> sum_bind (field f v x) (dec_members names field ms))"

fun dec_struct ::
  "string list \<Rightarrow> (string \<Rightarrow> json \<Rightarrow> 'a \<Rightarrow> error + 'a) \<Rightarrow> 'a \<Rightarrow> json \<Rightarrow> error + 'a"
where
  "dec_struct names field x (JObj ms) = dec_members names field ms x"
| "dec_struct names field x JNull = Inr x"
| "dec_struct names field x _ = Inl type_error"

definition json_unmarshal :: "(json \<Rightarrow> error + 'a) \<Rightarrow> string \<Rightarrow> error + 'a" where
  "json_unmarshal d s =
     (case json_parse s of None \<Rightarrow> Inl (ExtErr ''invalid JSON'') | Some v \<Rightarrow> d v)"

section \<open>Encoders\<close>

definition enc_ip :: "net_ip \<Rightarrow> error + json" where
  "enc_ip ip = sum_bind (marshal_ip ip) (\<lambda>t. Inr (JStr t))"

definition enc_slice :: "('a \<Rightarrow> error + json) \<Rightarrow> 'a slice \<Rightarrow> error + json" where
  "enc_slice e s = (case s of None \<Rightarrow> Inr JNull | Some xs \<Rightarrow> sum_bind (traverse e xs) (\<lambda>js. Inr (JArr js)))"

definition json_marshal :: "('a \<Rightarrow> error + json) \<Rightarrow> 'a \<Rightarrow> error + string" where
  "json_marshal e x = sum_bind (e x) (\<lambda>v. Inr (json_print v))"

section \<open>Lemmas\<close>

lemma digits_val_snoc [simp]: "digits_val (s @ [c]) = digits_val s * 10 + digit_val c"
  by (simp add: digits_val_def)

lemma digits_val_uitoa [simp]: "digits_val (uitoa n) = n"
proof (induction n rule: uitoa.induct)
  case (1 n)
  show ?case
  proof (cases "n < 10")
    case True
    then show ?thesis using digits_val_snoc [of "[]"] by (simp add: uitoa.simps [of n] digits_val_def)
  next
    case False
    with 1 show ?thesis by (simp add: uitoa.simps [of n])
  qed
qed

lemma list_all_uitoa [simp]: "list_all is_digit (uitoa n)"
  using uitoa_digits by (auto simp: list_all_iff)

lemma digits1_uitoa [simp]: "digits1 (uitoa n)"
  by (simp add: digits1_def)

lemma uitoa_head_zero: "hd (uitoa n) = CHR ''0'' \<Longrightarrow> n = 0"
proof (induction n rule: uitoa.induct)
  case (1 n)
  show ?case
  proof (cases "n < 10")
    case True
    with 1 have "digit_val (digit_char n) = 0" by (simp add: uitoa.simps [of n] digit_val_def)
    with True show ?thesis by simp
  next
    case False
    with 1 have "n div 10 = 0" by (simp add: uitoa.simps [of n] hd_append)
    with False show ?thesis by simp
  qed
qed

lemma strip_minus_uitoa [simp]: "strip_minus (uitoa n) = (False, uitoa n)"
  using uitoa_digits [of "CHR ''-''" n] by (cases "uitoa n") (auto simp: is_digit_def)

lemma uitoa_scan [simp]:
  "takeWhile is_digit (uitoa n) = uitoa n" "dropWhile is_digit (uitoa n) = []"
  using uitoa_digits by (auto simp: takeWhile_eq_all_conv dropWhile_eq_Nil_conv)

lemma valid_number_uitoa: "valid_number (uitoa n)" "valid_number (CHR ''-'' # uitoa n)"
proof -
  have len: "hd (uitoa n) = CHR ''0'' \<Longrightarrow> length (uitoa n) = 1"
    using uitoa_head_zero [of n] by (auto simp: uitoa.simps [of 0])
  show "valid_number (uitoa n)" "valid_number (CHR ''-'' # uitoa n)"
    using len by (simp_all add: valid_number_def)
qed

lemma valid_number_itoa: "valid_number (itoa i)"
  by (simp add: itoa_def valid_number_uitoa)

lemma json_ok_itoa [simp]: "json_ok (JNum (itoa i))"
  using valid_number_itoa uitoa_digits by (auto simp: itoa_def list_all_iff is_num_char_def)

lemmas itoa_number [simp] = json_ok_itoa [simplified]

lemma parse_int64_itoa: "- (2 ^ 63) \<le> i \<Longrightarrow> i < 2 ^ 63 \<Longrightarrow> parse_int64 (itoa i) = Some i"
  by (cases "i < 0") (simp_all add: parse_int64_def itoa_def Let_def)

lemma match_field_exact [simp]: "f \<in> set names \<Longrightarrow> match_field names f = Some f"
  by (simp add: match_field_def)

lemma json_unmarshal_print: "json_ok v \<Longrightarrow> json_unmarshal d (json_print v) = d v"
  by (simp add: json_unmarshal_def json_roundtrip)

lemma enc_ip_sendable:
  assumes "sendable_ip ip"
  obtains t where "enc_ip ip = Inr (JStr t)" "dec_ip (JStr t) = Inr (ip_norm ip)" "marshal_ip ip = Inr t"
  using ip_text.encE [OF assms] by (auto simp: enc_ip_def)

text \<open>
  An encoder and a decoder of JSON values that fit together: what a text codec needs,
  before printing.
\<close>

locale json_codec =
  fixes enc :: "'a \<Rightarrow> error + json"
    and dec :: "json \<Rightarrow> error + 'a"
    and ok :: "'a \<Rightarrow> bool"
    and norm :: "'a \<Rightarrow> 'a"
  assumes dec_enc: "ok x \<Longrightarrow> \<exists>v. enc x = Inr v \<and> json_ok v \<and> dec v = Inr (norm x)"
    and ok_norm: "ok x \<Longrightarrow> ok (norm x)"
    and enc_norm: "ok x \<Longrightarrow> enc (norm x) = enc x"
begin

lemma enc_valueE:
  assumes "ok x" obtains v where "enc x = Inr v" "json_ok v" "dec v = Inr (norm x)"
  using dec_enc [OF assms] by blast

lemma traverse_dec_enc:
  "list_all ok xs \<Longrightarrow> \<exists>js. traverse enc xs = Inr js \<and> list_all json_ok js \<and>
     traverse dec js = Inr (map norm xs) \<and> traverse enc (map norm xs) = traverse enc xs"
proof (induction xs)
  case (Cons x xs)
  then obtain js where "traverse enc xs = Inr js" "list_all json_ok js"
    "traverse dec js = Inr (map norm xs)" "traverse enc (map norm xs) = traverse enc xs" by auto
  moreover obtain v where "enc x = Inr v" "json_ok v" "dec v = Inr (norm x)" "enc (norm x) = enc x"
    using Cons.prems enc_valueE [of x] enc_norm [of x] by auto
  ultimately show ?case by simp
qed simp

text \<open>A codec of elements is one of slices.\<close>

lemma slice_codec:
  "json_codec (enc_slice enc) (dec_slice dec) (\<lambda>s. list_all ok (elems s)) (map_option (map norm))"
proof
  fix s :: "'a slice" assume "list_all ok (elems s)"
  then show "\<exists>v. enc_slice enc s = Inr v \<and> json_ok v \<and> dec_slice dec v = Inr (map_option (map norm) s)"
    and "enc_slice enc (map_option (map norm) s) = enc_slice enc s"
    and "list_all ok (elems (map_option (map norm) s))"
    using traverse_dec_enc [of "elems s"] ok_norm
    by (cases s; force simp: enc_slice_def list_all_iff)+
qed

end

text \<open>Every JSON codec gives one of texts.\<close>

sublocale json_codec \<subseteq> printed: text_codec "json_marshal enc" "json_unmarshal dec" ok norm
proof
  fix x assume x: "ok x"
  then obtain v where "enc x = Inr v" "json_ok v" "dec v = Inr (norm x)" by (rule enc_valueE)
  then show "\<exists>t. json_marshal enc x = Inr t \<and> json_unmarshal dec t = Inr (norm x)"
    by (auto simp: json_marshal_def json_unmarshal_print)
  show "json_marshal enc (norm x) = json_marshal enc x" using x by (simp add: json_marshal_def enc_norm)
qed (rule ok_norm)

interpretation ip_json: json_codec enc_ip dec_ip sendable_ip ip_norm
proof
  fix ip assume ip: "sendable_ip ip"
  then show "\<exists>v. enc_ip ip = Inr v \<and> json_ok v \<and> dec_ip v = Inr (ip_norm ip)"
    by (auto elim: enc_ip_sendable)
  show "enc_ip (ip_norm ip) = enc_ip ip" using ip by (simp add: enc_ip_def ip_text.enc_norm)
qed (rule ip_text.ok_norm)

interpretation ip_slice_json: json_codec "enc_slice enc_ip" "dec_slice dec_ip"
    "\<lambda>s. list_all sendable_ip (elems s)" "map_option (map ip_norm)"
  by (rule ip_json.slice_codec)

end
