(* ===== verification/App_Config.thy ===== *)
theory App_Config
  imports Net_IP
begin

text \<open>
  pkg/config/config.go: networks that read and write CIDR notation, the configuration
  record of both daemons, and \<open>Load\<close>. The TOML decoder (github.com/BurntSushi/toml) and
  the file system are parameters of \<open>load\<close>.
\<close>

section \<open>IPNet\<close>

text \<open>\<open>(n *IPNet) UnmarshalText\<close>: the address keeps its host bits, the mask is the prefix's.\<close>

definition unmarshal_text :: "string \<Rightarrow> error + ip_net" where
  "unmarshal_text text =
     (case parse_cidr text of
        None \<Rightarrow> Inl (ExtErr (''invalid CIDR address: '' @ text))
      | Some (ip, cidr) \<Rightarrow> Inr \<lparr>net_IP = ip, net_Mask = net_Mask cidr\<rparr>)"

text \<open>\<open>(n *IPNet) MarshalText\<close>; a nil receiver gives no text.\<close>

definition marshal_text :: "ip_net option \<Rightarrow> string option" where
  "marshal_text n = (case n of None \<Rightarrow> None | Some ipn \<Rightarrow> Some (ipnet_string ipn))"

text \<open>\<open>(n *IPNet) IPNet\<close>: a copy, nil for nil.\<close>

definition as_net_ipnet :: "ip_net option \<Rightarrow> ip_net option" where
  "as_net_ipnet n = (case n of None \<Rightarrow> None | Some ipn \<Rightarrow> Some \<lparr>net_IP = net_IP ipn, net_Mask = net_Mask ipn\<rparr>)"

lemma as_net_ipnet_id [simp]: "as_net_ipnet n = n"
  by (auto simp: as_net_ipnet_def split: option.splits)

section \<open>Configuration\<close>

definition FromPodRTBase :: int where
  "FromPodRTBase = 120"

definition DefaultConfigPath :: string where
  "DefaultConfigPath = ''/etc/vpcnet/config.toml''"

record network =
  ClusterCIDR :: "ip_net option"
  ServiceCIDR :: "ip_net option"
  PodIPMasq :: bool
  VPCRouted :: "ip_net option list"
  InstanceMetadataRedirectPort :: int
  HostPrimaryInterface :: string

record logging =
  CNIVLevel :: int

record config =
  Network :: "network option"
  Logging :: "logging option"
  TaintWhenNoIPs :: bool
  DeletePodWhenNoIPs :: bool

definition load_config ::
  "(string \<Rightarrow> ('w, string) io) \<Rightarrow> (string \<Rightarrow> error + config) \<Rightarrow> string \<Rightarrow> ('w, config) io" where
  "load_config read_file toml_decode path =
     andthen (wrapping (\<lambda>e. Wrapf e ''Error loading configuration file from disk'' []) (read_file path))
       (\<lambda>dat. wrapping (\<lambda>e. Wrapf e ''Error decoding configuration file data'' []) (of_sum (toml_decode dat)))"

section \<open>CIDR texts round trip\<close>

text \<open>The networks that travel as texts: IPv4, with a mask of leading ones.\<close>

definition sendable_net :: "ip_net \<Rightarrow> bool" where
  "sendable_net n \<longleftrightarrow> is_v4 (net_IP n) \<and> (\<exists>l \<le> 32. net_Mask n = cidr_mask l 32)"

definition net_norm :: "ip_net \<Rightarrow> ip_net" where
  "net_norm n = \<lparr>net_IP = ip_norm (net_IP n), net_Mask = net_Mask n\<rparr>"

lemma unmarshal_ipnet_string: "sendable_net n \<Longrightarrow> unmarshal_text (ipnet_string n) = Inr (net_norm n)"
proof -
  assume "sendable_net n"
  then obtain l where l: "l \<le> 32" "net_Mask n = cidr_mask l 32" "is_v4 (net_IP n)"
    by (auto simp: sendable_net_def)
  then obtain a b c d where "ip_to4 (net_IP n) = IP [a, b, c, d]"
    "parse_cidr (ipnet_string n) =
       Some (ipv4 a b c d, \<lparr>net_IP = ip_mask (ipv4 a b c d) (net_Mask n), net_Mask = net_Mask n\<rparr>)"
    using parse_cidr_ipnet_string [of n l] by blast
  then show ?thesis by (simp add: unmarshal_text_def net_norm_def ip_norm_v4)
qed

lemma parse_cidr_sendable:
  assumes "sendable_net n"
  obtains ip m where "parse_cidr (ipnet_string n) = Some (ip, m)" "net_Mask m = net_Mask n"
proof -
  obtain l where "is_v4 (net_IP n)" "net_Mask n = cidr_mask l 32" "l \<le> 32"
    using assms by (auto simp: sendable_net_def)
  from parse_cidr_ipnet_string [OF this] show thesis by (auto intro: that)
qed

lemma sendable_net_norm [simp]: "sendable_net n \<Longrightarrow> sendable_net (net_norm n)"
  by (auto simp: sendable_net_def net_norm_def)

lemma ip_to4_norm [simp]: "is_v4 ip \<Longrightarrow> ip_to4 (ip_norm ip) = ip_to4 ip"
  by (elim is_v4_cases) (simp add: ip_norm_v4)

lemma ipnet_string_norm [simp]: "sendable_net n \<Longrightarrow> ipnet_string (net_norm n) = ipnet_string n"
proof -
  assume n: "sendable_net n"
  then obtain l where "l \<le> 32" "net_Mask n = cidr_mask l 32" "is_v4 (net_IP n)"
    by (auto simp: sendable_net_def)
  moreover from this obtain a b c d where "ip_to4 (net_IP n) = IP [a, b, c, d]" by (elim is_v4_cases)
  ultimately show ?thesis by (simp add: net_norm_def ipnet_string_v4)
qed

interpretation cidr_text: text_codec "\<lambda>n. Inr (the (marshal_text (Some n)))" unmarshal_text sendable_net net_norm
  by unfold_locales (simp_all add: marshal_text_def unmarshal_ipnet_string)

end
