(* ===== verification/Node_State.thy ===== *)
theory Node_State
  imports Json_Struct App_Config
begin

text \<open>
  pkg/nodestate/node.go: what the ENI controller writes on a node object for the daemon of
  that node to read. \<open>ENIs\<close> is a slice of pointers, so an element may be nil (JSON null).
  Both values are sent as JSON annotations; the interpretations \<open>enis_json\<close> and
  \<open>info_json\<close> are the proof that what one side writes the other reads.
\<close>

definition IFSKey :: string where "IFSKey = ''k8s-vpcnet/eni-interfaces''"
definition EC2InfoKey :: string where "EC2InfoKey = ''k8s-vpcnet/ec2-instance-info''"

section \<open>ENI\<close>

record eni =
  EniID :: string
  Attached :: bool
  InterfaceIP :: net_ip
  Index :: int
  CIDRBlock :: "ip_net option"
  IPs :: "net_ip slice"
  MACAddress :: string

type_synonym enis = "eni option slice"

definition zero_eni :: eni where
  "zero_eni = \<lparr>EniID = [], Attached = False, InterfaceIP = nil_ip, Index = 0,
     CIDRBlock = None, IPs = None, MACAddress = []\<rparr>"

text \<open>\<open>(e *ENI) InterfaceName\<close>\<close>

definition interface_name :: "eni \<Rightarrow> string" where
  "interface_name e = ''eni'' @ itoa (Index e)"

subsection \<open>JSON of an ENI\<close>

definition eni_fields :: "string list" where
  "eni_fields =
     [''eni_id'', ''attached'', ''interface_ip'', ''index'', ''cidr_block'', ''ips'', ''mac_address'']"

fun dec_net :: "json \<Rightarrow> error + ip_net" where
  "dec_net (JStr s) = unmarshal_text s"
| "dec_net _ = Inl type_error"

definition eni_field :: "string \<Rightarrow> json \<Rightarrow> eni \<Rightarrow> error + eni" where
  "eni_field f v e =
     (if f = ''eni_id'' then sum_bind (dec_string v (EniID e)) (\<lambda>x. Inr (e\<lparr>EniID := x\<rparr>))
      else if f = ''attached'' then sum_bind (dec_bool v (Attached e)) (\<lambda>x. Inr (e\<lparr>Attached := x\<rparr>))
      else if f = ''interface_ip'' then sum_bind (dec_ip v) (\<lambda>x. Inr (e\<lparr>InterfaceIP := x\<rparr>))
      else if f = ''index'' then sum_bind (dec_int v (Index e)) (\<lambda>x. Inr (e\<lparr>Index := x\<rparr>))
      else if f = ''cidr_block'' then sum_bind (dec_ptr dec_net v) (\<lambda>x. Inr (e\<lparr>CIDRBlock := x\<rparr>))
      else if f = ''ips'' then sum_bind (dec_slice dec_ip v) (\<lambda>x. Inr (e\<lparr>IPs := x\<rparr>))
      else sum_bind (dec_string v (MACAddress e)) (\<lambda>x. Inr (e\<lparr>MACAddress := x\<rparr>)))"

definition dec_eni :: "json \<Rightarrow> error + eni option" where
  "dec_eni = dec_ptr (dec_struct eni_fields eni_field zero_eni)"

definition enc_net :: "ip_net option \<Rightarrow> json" where
  "enc_net n = (case marshal_text n of None \<Rightarrow> JNull | Some t \<Rightarrow> JStr t)"

definition enc_eni :: "eni option \<Rightarrow> error + json" where
  "enc_eni p =
     (case p of
        None \<Rightarrow> Inr JNull
      | Some e \<Rightarrow>
          sum_bind (enc_ip (InterfaceIP e)) (\<lambda>iip.
          sum_bind (enc_slice enc_ip (IPs e)) (\<lambda>ips.
          Inr (JObj
            [(''eni_id'', JStr (EniID e)), (''attached'', JBool (Attached e)),
             (''interface_ip'', iip), (''index'', JNum (itoa (Index e))),
             (''cidr_block'', enc_net (CIDRBlock e)), (''ips'', ips),
             (''mac_address'', JStr (MACAddress e))]))))"

definition marshal_enis :: "enis \<Rightarrow> error + string" where
  "marshal_enis = json_marshal (enc_slice enc_eni)"

definition unmarshal_enis :: "string \<Rightarrow> error + enis" where
  "unmarshal_enis = json_unmarshal (dec_slice dec_eni)"

subsection \<open>ENIs survive their annotation\<close>

definition int64 :: "int \<Rightarrow> bool" where
  "int64 i \<longleftrightarrow> - (2 ^ 63) \<le> i \<and> i < 2 ^ 63"

definition sendable_eni :: "eni option \<Rightarrow> bool" where
  "sendable_eni p =
     (case p of
        None \<Rightarrow> True
      | Some e \<Rightarrow> sendable_ip (InterfaceIP e) \<and> int64 (Index e) \<and>
          pred_option sendable_net (CIDRBlock e) \<and> list_all sendable_ip (elems (IPs e)))"

definition eni_norm :: "eni \<Rightarrow> eni" where
  "eni_norm e = e\<lparr>InterfaceIP := ip_norm (InterfaceIP e), CIDRBlock := map_option net_norm (CIDRBlock e),
     IPs := map_option (map ip_norm) (IPs e)\<rparr>"

lemma dec_enc_net:
  assumes "pred_option sendable_net n"
  shows "dec_ptr dec_net (enc_net n) = Inr (map_option net_norm n)"
    and "enc_net (map_option net_norm n) = enc_net n" and "json_ok (enc_net n)"
  using assms by (cases n; simp add: enc_net_def marshal_text_def dec_ptr_def unmarshal_ipnet_string)+

interpretation eni_json: json_codec enc_eni dec_eni sendable_eni "map_option eni_norm"
proof
  fix p assume p: "sendable_eni p"
  show "\<exists>v. enc_eni p = Inr v \<and> json_ok v \<and> dec_eni v = Inr (map_option eni_norm p)"
    and "enc_eni (map_option eni_norm p) = enc_eni p"
    and "sendable_eni (map_option eni_norm p)"
  proof (atomize (full), cases p)
    case None
    then show "(\<exists>v. enc_eni p = Inr v \<and> json_ok v \<and> dec_eni v = Inr (map_option eni_norm p)) \<and>
      enc_eni (map_option eni_norm p) = enc_eni p \<and> sendable_eni (map_option eni_norm p)"
      by (simp add: enc_eni_def dec_eni_def dec_ptr_def sendable_eni_def)
  next
    case (Some e)
    then have iip: "sendable_ip (InterfaceIP e)" and idx: "int64 (Index e)"
      and cidr: "pred_option sendable_net (CIDRBlock e)" and ips: "list_all sendable_ip (elems (IPs e))"
      using p by (simp_all add: sendable_eni_def)
    obtain vi where vi: "enc_ip (InterfaceIP e) = Inr vi" "json_ok vi" "dec_ip vi = Inr (ip_norm (InterfaceIP e))"
      using ip_json.enc_valueE [OF iip] .
    obtain vs where vs: "enc_slice enc_ip (IPs e) = Inr vs" "json_ok vs"
      "dec_slice dec_ip vs = Inr (map_option (map ip_norm) (IPs e))"
      using ip_slice_json.enc_valueE [OF ips] .
    have dec: "dec_struct eni_fields eni_field zero_eni
        (JObj [(''eni_id'', JStr (EniID e)), (''attached'', JBool (Attached e)),
             (''interface_ip'', vi), (''index'', JNum (itoa (Index e))),
             (''cidr_block'', enc_net (CIDRBlock e)), (''ips'', vs),
             (''mac_address'', JStr (MACAddress e))]) = Inr (eni_norm e)"
      using idx by (simp add: eni_fields_def eni_field_def vi vs dec_enc_net [OF cidr]
          parse_int64_itoa int64_def eni_norm_def zero_eni_def)
    have "\<exists>v. enc_eni p = Inr v \<and> json_ok v \<and> dec_eni v = Inr (map_option eni_norm p)"
      using vi vs dec dec_enc_net(3) [OF cidr] by (simp add: Some enc_eni_def dec_eni_def dec_ptr_def)
    moreover have "enc_eni (map_option eni_norm p) = enc_eni p"
      using ip_json.enc_norm [OF iip] ip_slice_json.enc_norm [OF ips] dec_enc_net(2) [OF cidr]
      by (simp add: Some enc_eni_def eni_norm_def)
    moreover have "pred_option sendable_net (map_option net_norm (CIDRBlock e))"
      using cidr by (cases "CIDRBlock e") simp_all
    then have "sendable_eni (map_option eni_norm p)"
      using ip_json.ok_norm [OF iip] ip_slice_json.ok_norm [OF ips] idx
      by (simp add: Some sendable_eni_def eni_norm_def)
    ultimately show "(\<exists>v. enc_eni p = Inr v \<and> json_ok v \<and> dec_eni v = Inr (map_option eni_norm p)) \<and>
      enc_eni (map_option eni_norm p) = enc_eni p \<and> sendable_eni (map_option eni_norm p)"
      by blast
  qed
qed

interpretation enis_json: json_codec "enc_slice enc_eni" "dec_slice dec_eni"
    "\<lambda>s. list_all sendable_eni (elems s)" "map_option (map (map_option eni_norm))"
  by (rule eni_json.slice_codec)

section \<open>AWSInstanceInfo\<close>

record aws_instance_info =
  InstanceType :: string
  SubnetID :: string
  SubnetCIDR :: "ip_net option"
  SecurityGroupIDs :: "string slice"

definition zero_info :: aws_instance_info where
  "zero_info = \<lparr>InstanceType = [], SubnetID = [], SubnetCIDR = None, SecurityGroupIDs = None\<rparr>"

definition info_fields :: "string list" where
  "info_fields = [''instance_type'', ''subnet_id'', ''subnet_cidr'', ''security_group_ids'']"

definition info_field :: "string \<Rightarrow> json \<Rightarrow> aws_instance_info \<Rightarrow> error + aws_instance_info" where
  "info_field f v i =
     (if f = ''instance_type'' then sum_bind (dec_string v (InstanceType i)) (\<lambda>x. Inr (i\<lparr>InstanceType := x\<rparr>))
      else if f = ''subnet_id'' then sum_bind (dec_string v (SubnetID i)) (\<lambda>x. Inr (i\<lparr>SubnetID := x\<rparr>))
      else if f = ''subnet_cidr'' then sum_bind (dec_ptr dec_net v) (\<lambda>x. Inr (i\<lparr>SubnetCIDR := x\<rparr>))
      else sum_bind (dec_slice (\<lambda>j. dec_string j []) v) (\<lambda>x. Inr (i\<lparr>SecurityGroupIDs := x\<rparr>)))"

definition dec_info :: "json \<Rightarrow> error + aws_instance_info" where
  "dec_info = dec_struct info_fields info_field zero_info"

definition enc_string :: "string \<Rightarrow> error + json" where
  "enc_string s = Inr (JStr s)"

definition enc_info :: "aws_instance_info \<Rightarrow> error + json" where
  "enc_info i =
     sum_bind (enc_slice enc_string (SecurityGroupIDs i)) (\<lambda>sgs.
     Inr (JObj
       [(''instance_type'', JStr (InstanceType i)), (''subnet_id'', JStr (SubnetID i)),
        (''subnet_cidr'', enc_net (SubnetCIDR i)), (''security_group_ids'', sgs)]))"

definition marshal_info :: "aws_instance_info \<Rightarrow> error + string" where
  "marshal_info = json_marshal enc_info"

definition unmarshal_info :: "string \<Rightarrow> error + aws_instance_info" where
  "unmarshal_info = json_unmarshal dec_info"

definition sendable_info :: "aws_instance_info \<Rightarrow> bool" where
  "sendable_info i \<longleftrightarrow> pred_option sendable_net (SubnetCIDR i)"

definition info_norm :: "aws_instance_info \<Rightarrow> aws_instance_info" where
  "info_norm i = i\<lparr>SubnetCIDR := map_option net_norm (SubnetCIDR i)\<rparr>"

interpretation string_json: json_codec enc_string "\<lambda>j. dec_string j []" "\<lambda>_. True" "\<lambda>s. s"
  by unfold_locales (simp_all add: enc_string_def)

interpretation strings_json: json_codec "enc_slice enc_string" "dec_slice (\<lambda>j. dec_string j [])"
    "\<lambda>s. list_all (\<lambda>_. True) (elems s)" "map_option (map (\<lambda>s. s))"
  by (rule string_json.slice_codec)

interpretation info_json: json_codec enc_info dec_info sendable_info info_norm
proof
  fix i assume "sendable_info i"
  then have cidr: "pred_option sendable_net (SubnetCIDR i)" by (simp add: sendable_info_def)
  obtain vs where vs: "enc_slice enc_string (SecurityGroupIDs i) = Inr vs" "json_ok vs"
    "dec_slice (\<lambda>j. dec_string j []) vs = Inr (SecurityGroupIDs i)"
    using strings_json.enc_valueE [of "SecurityGroupIDs i"] by (auto simp: list_all_iff option.map_ident)
  show "\<exists>v. enc_info i = Inr v \<and> json_ok v \<and> dec_info v = Inr (info_norm i)"
    by (simp add: enc_info_def dec_info_def info_fields_def info_field_def vs dec_enc_net [OF cidr]
        info_norm_def zero_info_def)
  show "enc_info (info_norm i) = enc_info i"
    by (simp add: enc_info_def info_norm_def dec_enc_net [OF cidr])
  show "sendable_info (info_norm i)"
    using cidr by (cases "SubnetCIDR i") (simp_all add: sendable_info_def info_norm_def)
qed

section \<open>Reading the annotations\<close>

text \<open>A Go map; reading a nil map finds nothing.\<close>

type_synonym go_map = "(string \<rightharpoonup> string) option"

definition go_lookup :: "go_map \<Rightarrow> string \<Rightarrow> string option" where
  "go_lookup m k = (case m of None \<Rightarrow> None | Some f \<Rightarrow> f k)"

definition ENIConfigFromAnnotations :: "go_map \<Rightarrow> error + enis" where
  "ENIConfigFromAnnotations annotations =
     (case go_lookup annotations IFSKey of
        None \<Rightarrow> Inr None
      | Some ifs \<Rightarrow>
          (case unmarshal_enis ifs of
             Inl err \<Rightarrow> Inl (Wrapf err ''Error parsing node network configuration'' [])
           | Inr nc \<Rightarrow> Inr nc))"

definition AWSInstanceInfoFromAnnotations :: "go_map \<Rightarrow> error + aws_instance_info option" where
  "AWSInstanceInfoFromAnnotations annotations =
     (case go_lookup annotations EC2InfoKey of
        None \<Rightarrow> Inr None
      | Some ifs \<Rightarrow>
          (case unmarshal_info ifs of
             Inl err \<Rightarrow> Inl (Wrapf err ''Error parsing instance info'' [])
           | Inr ii \<Rightarrow> Inr (Some ii)))"

lemma ENIConfig_of_marshal:
  assumes "list_all sendable_eni (elems es)" "marshal_enis es = Inr t" "go_lookup m IFSKey = Some t"
  shows "ENIConfigFromAnnotations m = Inr (map_option (map (map_option eni_norm)) es)"
proof -
  have "unmarshal_enis t = Inr (map_option (map (map_option eni_norm)) es)"
    using enis_json.printed.encE [OF assms(1)] assms(2)
    by (metis marshal_enis_def sum.inject(2) unmarshal_enis_def)
  with assms(3) show ?thesis by (simp add: ENIConfigFromAnnotations_def)
qed

lemma AWSInstanceInfo_of_marshal:
  assumes "sendable_info i" "marshal_info i = Inr t" "go_lookup m EC2InfoKey = Some t"
  shows "AWSInstanceInfoFromAnnotations m = Inr (Some (info_norm i))"
proof -
  have "unmarshal_info t = Inr (info_norm i)"
    using info_json.printed.encE [OF assms(1)] assms(2)
    by (metis marshal_info_def sum.inject(2) unmarshal_info_def)
  with assms(3) show ?thesis by (simp add: AWSInstanceInfoFromAnnotations_def)
qed

end
