(* ===== verification/Obj_Util.thy ===== *)
theory Obj_Util
  imports Node_State
begin

text \<open>
  pkg/objutil/node.go: taints, \<open>UpdateNode\<close> (read, modify, write until there is no
  conflict) and the instance ID of a provider ID. The Kubernetes client is a parameter, a
  \<open>node_client\<close> over the world. Waiting between attempts is not modelled; an
  \<open>UpdateNode\<close> that meets conflicts for ever does not return (\<open>None\<close>). The code's message
  for a failed read formats the node object it did not get, not the name, so the error keeps
  no argument. Of Go's net/url
  (1.9) the model has what \<open>url.Parse\<close> accepts and the scheme and path it returns.
\<close>

section \<open>Nodes\<close>

record taint =
  taint_Key :: string
  taint_Value :: string
  taint_Effect :: string
  taint_TimeAdded :: "string option"

definition TaintEffectNoSchedule :: string where
  "TaintEffectNoSchedule = ''NoSchedule''"

record node =
  node_Name :: string
  ResourceVersion :: string
  Labels :: go_map
  Annotations :: go_map
  ProviderID :: string
  Taints :: "taint slice"

text \<open>A mutator of \<open>UpdateNode\<close>; none when it panics, by assigning to a nil map.\<close>

type_synonym mutator = "node \<Rightarrow> node option"

definition go_assign :: "go_map \<Rightarrow> string \<Rightarrow> string \<Rightarrow> go_map option" where
  "go_assign m k v = (case m of None \<Rightarrow> None | Some f \<Rightarrow> Some (Some (f(k \<mapsto> v))))"

section \<open>Taints\<close>

definition HasTaint :: "node \<Rightarrow> string \<Rightarrow> string \<Rightarrow> bool" where
  "HasTaint n key effect =
     foldl (\<lambda>tainted t. if taint_Key t = key \<and> taint_Effect t = effect then True else tainted)
       False (elems (Taints n))"

definition AddTaint :: "string \<Rightarrow> string \<Rightarrow> mutator" where
  "AddTaint key effect n =
     Some (n\<lparr>Taints := append_slice (Taints n)
       [\<lparr>taint_Key = key, taint_Value = [], taint_Effect = effect, taint_TimeAdded = None\<rparr>]\<rparr>)"

definition RemoveTaint :: "string \<Rightarrow> string \<Rightarrow> mutator" where
  "RemoveTaint key effect n =
     Some (n\<lparr>Taints := Some (foldl
       (\<lambda>keep t. if \<not> (taint_Key t = key \<and> taint_Effect t = effect) then keep @ [t] else keep)
       [] (elems (Taints n)))\<rparr>)"

lemma HasTaint_iff:
  "HasTaint n key effect \<longleftrightarrow> (\<exists>t \<in> set (elems (Taints n)). taint_Key t = key \<and> taint_Effect t = effect)"
proof -
  have "foldl (\<lambda>tainted t. if p t then True else tainted) b ts \<longleftrightarrow> b \<or> (\<exists>t \<in> set ts. p t)"
    for p :: "taint \<Rightarrow> bool" and b ts
    by (induction ts arbitrary: b) auto
  then show ?thesis by (simp add: HasTaint_def)
qed

lemma foldl_keep: "foldl (\<lambda>keep t. if p t then keep @ [t] else keep) ks ts = ks @ filter p ts"
  by (induction ts arbitrary: ks) auto

lemma RemoveTaint_filter:
  "RemoveTaint key effect n =
     Some (n\<lparr>Taints := Some (filter (\<lambda>t. \<not> (taint_Key t = key \<and> taint_Effect t = effect)) (elems (Taints n)))\<rparr>)"
  by (simp only: RemoveTaint_def foldl_keep append_Nil)

section \<open>UpdateNode\<close>

record 'w node_client =
  nodes_get :: "string \<Rightarrow> ('w, node) io"
  nodes_update :: "node \<Rightarrow> ('w, node) io"

partial_function (option) update_loop ::
  "'w node_client \<Rightarrow> string \<Rightarrow> mutator \<Rightarrow> node \<Rightarrow> 'w \<Rightarrow> (unit outcome \<times> 'w) option"
where
  "update_loop nc name mutate node w =
     (case mutate node of
        None \<Rightarrow> Some (Panic ''assignment to entry in nil map'', w)
      | Some node' \<Rightarrow>
          Option.bind (nodes_update nc node' w) (\<lambda>(r, w1).
            case r of
              Ok _ \<Rightarrow> Some (Ok (), w1)
            | Fail err \<Rightarrow>
                if is_conflict err then
                  Option.bind (nodes_get nc name w1) (\<lambda>(g, w2).
                    case g of
                      Ok fresh \<Rightarrow> update_loop nc name mutate fresh w2
                    | Fail e \<Rightarrow> Some (Fail (Wrapf e ''Error fetching node %s to update'' []), w2)
                    | Panic s \<Rightarrow> Some (Panic s, w2)
                    | Exit s \<Rightarrow> Some (Exit s, w2))
                else Some (Fail (Wrapf err ''Error updating node %s'' [name]), w1)
            | Panic s \<Rightarrow> Some (Panic s, w1)
            | Exit s \<Rightarrow> Some (Exit s, w1)))"

definition UpdateNode :: "'w node_client \<Rightarrow> string \<Rightarrow> mutator \<Rightarrow> ('w, unit) io" where
  "UpdateNode nc name mutate =
     andthen (wrapping (\<lambda>e. Wrapf e ''Error fetching node %s to update'' []) (nodes_get nc name))
       (update_loop nc name mutate)"

subsection \<open>What a node API server promises\<close>

text \<open>
  \<open>node_server nc versions\<close>: the versions the server has stored for the node, newest
  first, only grow, and no two have the same resource version; a read returns the newest;
  a write is accepted only if it carries the resource version of the version it
  replaces, and stores what it carries under a new one. Other writers may add versions
  before any call takes effect. This is the optimistic concurrency the Kubernetes API
  documents for \<open>resourceVersion\<close>.
\<close>

definition node_server :: "'w node_client \<Rightarrow> string \<Rightarrow> ('w \<Rightarrow> node list) \<Rightarrow> bool" where
  "node_server nc name versions \<longleftrightarrow>
     (\<forall>w. distinct (map ResourceVersion (versions w))) \<and>
     (\<forall>w r w'. nodes_get nc name w = Some (r, w') \<longrightarrow>
        (\<exists>es. versions w' = es @ versions w) \<and>
        (\<forall>n. r = Ok n \<longrightarrow> (\<exists>vs. versions w' = n # vs))) \<and>
     (\<forall>n w r w'. nodes_update nc n w = Some (r, w') \<longrightarrow>
        (case r of
           Ok _ \<Rightarrow> \<exists>es old vs new. es @ versions w = old # vs \<and> versions w' = new # old # vs \<and>
             ResourceVersion n = ResourceVersion old \<and>
             new = n\<lparr>ResourceVersion := ResourceVersion new\<rparr>
         | _ \<Rightarrow> \<exists>es. versions w' = es @ versions w))"

definition keeps_version :: "mutator \<Rightarrow> bool" where
  "keeps_version mutate \<longleftrightarrow> (\<forall>n n'. mutate n = Some n' \<longrightarrow> ResourceVersion n' = ResourceVersion n)"

lemma keeps_version_taints [simp]:
  "keeps_version (AddTaint key effect)" "keeps_version (RemoveTaint key effect)"
  by (auto simp: keeps_version_def AddTaint_def RemoveTaint_def)

lemma node_server_distinct: "node_server nc name versions \<Longrightarrow> distinct (map ResourceVersion (versions w))"
  by (simp add: node_server_def)

lemma node_server_get:
  "node_server nc name versions \<Longrightarrow> nodes_get nc name w = Some (Ok n, w') \<Longrightarrow>
     \<exists>es vs. versions w' = es @ versions w \<and> versions w' = n # vs"
  unfolding node_server_def by blast

lemma node_server_update:
  assumes "node_server nc name versions" "nodes_update nc n w = Some (Ok m, w')"
  obtains es old vs new where "es @ versions w = old # vs" "versions w' = new # old # vs"
    "ResourceVersion n = ResourceVersion old" "new = n\<lparr>ResourceVersion := ResourceVersion new\<rparr>"
proof -
  have "\<exists>es old vs new. es @ versions w = old # vs \<and> versions w' = new # old # vs \<and>
      ResourceVersion n = ResourceVersion old \<and> new = n\<lparr>ResourceVersion := ResourceVersion new\<rparr>"
    using assms(1) [unfolded node_server_def, THEN conjunct2, THEN conjunct2, rule_format, OF assms(2)]
    by simp
  then show thesis by (elim exE conjE) (rule that)
qed

lemma node_server_update_fail:
  assumes "node_server nc name versions" "nodes_update nc n w = Some (Fail e, w')"
  shows "\<exists>es. versions w' = es @ versions w"
  using assms(1) [unfolded node_server_def, THEN conjunct2, THEN conjunct2, rule_format, OF assms(2)]
  by simp

lemma same_version:
  "distinct (map ResourceVersion vs) \<Longrightarrow> a \<in> set vs \<Longrightarrow> b \<in> set vs \<Longrightarrow>
     ResourceVersion a = ResourceVersion b \<Longrightarrow> a = b"
  by (metis distinct_map inj_onD)

text \<open>A loop that returns without error has written one version, made from the one it replaced.\<close>

lemma update_loop_atomic:
  assumes server: "node_server nc name versions" and keep: "keeps_version mutate"
    and ret: "update_loop nc name mutate node w = Some r"
  shows "fst r = Ok () \<Longrightarrow> node \<in> set (versions w) \<Longrightarrow>
    \<exists>new old vs m. versions (snd r) = new # old # vs \<and> mutate old = Some m \<and>
      new = m\<lparr>ResourceVersion := ResourceVersion new\<rparr>"
proof (rule update_loop.raw_induct [where P = "\<lambda>nc' name' mutate' node w r.
      nc' = nc \<longrightarrow> name' = name \<longrightarrow> mutate' = mutate \<longrightarrow> fst r = Ok () \<longrightarrow> node \<in> set (versions w) \<longrightarrow>
    (\<exists>new old vs m. versions (snd r) = new # old # vs \<and> mutate old = Some m \<and>
      new = m\<lparr>ResourceVersion := ResourceVersion new\<rparr>)", OF _ ret, rule_format], goal_cases)
  case (1 f nc' name' mutate' node w r)
  then obtain node' where m: "mutate node = Some node'" by (auto split: option.splits)
  then have rv: "ResourceVersion node' = ResourceVersion node" using keep by (simp add: keeps_version_def)
  from 1 m obtain u w1 where u: "nodes_update nc node' w = Some (u, w1)"
    by (auto simp: bind_eq_Some_conv)
  show ?case
  proof (cases u)
    case (Ok n)
    then obtain es old vs new where "es @ versions w = old # vs" "versions w1 = new # old # vs"
      "ResourceVersion node' = ResourceVersion old" and new: "new = node'\<lparr>ResourceVersion := ResourceVersion new\<rparr>"
      using node_server_update [OF server] u by blast
    moreover from this have "old = node"
      using same_version [OF node_server_distinct [OF server], of old w1 node] 1 rv
      by (metis Cons_eq_appendI Un_iff list.set_intros(1,2) set_append)
    moreover have "r = (Ok (), w1)" using 1 m u Ok by simp
    ultimately show ?thesis using m by (intro exI [of _ new] exI [of _ old] exI [of _ vs] exI [of _ node']) simp
  next
    case (Fail e)
    with 1 m u obtain g w2 where g1: "nodes_get nc name w1 = Some (g, w2)"
      by (auto simp: bind_eq_Some_conv split: if_splits)
    with 1 m u Fail obtain fresh where g: "nodes_get nc name w1 = Some (Ok fresh, w2)"
      and rec: "f nc name mutate fresh w2 = Some r"
      by (cases g) (auto split: if_splits)
    have "fresh \<in> set (versions w2)" using node_server_get [OF server g] by (metis list.set_intros(1))
    with 1(3) [OF rec] 1(8) show ?thesis by simp
  qed (use 1 m u in auto)
qed (use assms in auto)

subsection \<open>Conflicts that end, and conflicts that do not\<close>

text \<open>
  \<open>left\<close> bounds the conflicts still to come: each conflict on the version last read, and
  the read after it, make it smaller.
\<close>

definition conflicts_end :: "'w node_client \<Rightarrow> string \<Rightarrow> ('w \<Rightarrow> nat) \<Rightarrow> bool" where
  "conflicts_end nc name left \<longleftrightarrow>
     (\<forall>n. returns (nodes_update nc n)) \<and> returns (nodes_get nc name) \<and>
     (\<forall>w0 n w m e w1 g w2. nodes_get nc name w0 = Some (Ok n, w) \<longrightarrow> ResourceVersion m = ResourceVersion n \<longrightarrow>
        nodes_update nc m w = Some (Fail e, w1) \<longrightarrow> is_conflict e \<longrightarrow>
        nodes_get nc name w1 = Some (g, w2) \<longrightarrow> left w2 < left w)"

lemma update_loop_returns:
  assumes ends: "conflicts_end nc name left" and keep: "keeps_version mutate"
    and read: "nodes_get nc name w0 = Some (Ok node, w)"
  shows "\<exists>r. update_loop nc name mutate node w = Some r"
  using read
proof (induction "left w" arbitrary: w0 node w rule: less_induct)
  case less
  have ret: "\<exists>u w1. nodes_update nc n w = Some (u, w1)" "\<exists>g w2. nodes_get nc name w = Some (g, w2)" for n w
    using ends by (simp_all add: conflicts_end_def returnsD)
  show ?case
  proof (cases "mutate node")
    case None
    then show ?thesis by (simp add: update_loop.simps)
  next
    case (Some node')
    then have rv: "ResourceVersion node' = ResourceVersion node" using keep by (simp add: keeps_version_def)
    obtain u w1 where u: "nodes_update nc node' w = Some (u, w1)" using ret by blast
    obtain g w2 where g: "nodes_get nc name w1 = Some (g, w2)" using ret by blast
    have "left w2 < left w" if "u = Fail e" "is_conflict e" for e
      using ends less.prems rv u g that unfolding conflicts_end_def by blast
    then have "\<exists>r. update_loop nc name mutate n w2 = Some r" if "u = Fail e" "is_conflict e" "g = Ok n" for e n
      using less.hyps [of w2 w1 n] g that by simp
    then show ?thesis
      using Some u g by (subst update_loop.simps) (auto split: outcome.splits)
  qed
qed

definition conflicts_forever :: "'w node_client \<Rightarrow> string \<Rightarrow> bool" where
  "conflicts_forever nc name \<longleftrightarrow>
     (\<forall>n w. \<exists>s w'. nodes_update nc n w = Some (Fail (ApiErr Conflict s), w')) \<and>
     (\<forall>w. \<exists>n w'. nodes_get nc name w = Some (Ok n, w'))"

lemma update_loop_diverges:
  assumes forever: "conflicts_forever nc name" and total: "\<And>n. mutate n \<noteq> None"
  shows "update_loop nc name mutate node w = None"
proof (rule ccontr)
  assume "update_loop nc name mutate node w \<noteq> None"
  then obtain r where ret: "update_loop nc name mutate node w = Some r" by blast
  have "nc = nc \<longrightarrow> name = name \<longrightarrow> mutate = mutate \<longrightarrow> False"
  proof (rule update_loop.raw_induct [where P = "\<lambda>nc' name' mutate' node w r.
        nc' = nc \<longrightarrow> name' = name \<longrightarrow> mutate' = mutate \<longrightarrow> False", OF _ ret], intro impI, goal_cases)
    case (1 f nc' name' mutate' node w r)
    obtain node' where m: "mutate node = Some node'" using total [of node] by blast
    obtain s w1 where u: "nodes_update nc node' w = Some (Fail (ApiErr Conflict s), w1)"
      using forever unfolding conflicts_forever_def by blast
    obtain fresh w2 where g: "nodes_get nc name w1 = Some (Ok fresh, w2)"
      using forever unfolding conflicts_forever_def by blast
    have "f nc name mutate fresh w2 = Some r" using 1 m u g by simp
    with 1 show False by blast
  qed
  then show False by simp
qed

lemma UpdateNode_writes:
  assumes server: "node_server nc name versions" and keep: "keeps_version mutate"
    and run: "UpdateNode nc name mutate w = Some (Ok (), w')"
  shows "\<exists>new old vs m. versions w' = new # old # vs \<and> mutate old = Some m \<and>
    new = m\<lparr>ResourceVersion := ResourceVersion new\<rparr>"
proof -
  from run obtain node w1 where get: "nodes_get nc name w = Some (Ok node, w1)"
    and loop: "update_loop nc name mutate node w1 = Some (Ok (), w')"
    by (auto simp: UpdateNode_def andthen_eq_Ok)
  have "node \<in> set (versions w1)" using node_server_get [OF server get] by (metis list.set_intros(1))
  with update_loop_atomic [OF server keep loop] show ?thesis by simp
qed

text \<open>What each call of the client keeps, the loop keeps.\<close>

lemma UpdateNode_keeps:
  assumes "keeps P (nodes_get nc name)" "\<And>n. keeps P (nodes_update nc n)"
  shows "keeps P (UpdateNode nc name mutate)"
proof -
  have loop: "P (snd r)" if run: "update_loop nc name mutate node w = Some r" and w: "P w" for node w r
  proof -
    have "nc = nc \<longrightarrow> name = name \<longrightarrow> mutate = mutate \<longrightarrow> P w \<longrightarrow> P (snd r)"
    proof (rule update_loop.raw_induct [where P = "\<lambda>nc' name' mutate' node w r. nc' = nc \<longrightarrow> name' = name \<longrightarrow>
          mutate' = mutate \<longrightarrow> P w \<longrightarrow> P (snd r)", OF _ run], intro impI, goal_cases)
      case (1 f nc' name' mutate' node w r)
      show ?case
      proof (cases "mutate node")
        case (Some node')
        with 1 obtain u w1 where u: "nodes_update nc node' w = Some (u, w1)" by (auto simp: bind_eq_Some_conv)
        have w1: "P w1" by (rule keepsD [OF assms(2) 1(6) u])
        show ?thesis
        proof (cases "\<exists>e. u = Fail e \<and> is_conflict e")
          case True
          with 1 Some u obtain g w2 where g: "nodes_get nc name w1 = Some (g, w2)" by (auto simp: bind_eq_Some_conv)
          have w2: "P w2" by (rule keepsD [OF assms(1) w1 g])
          show ?thesis
          proof (cases g)
            case (Ok fresh)
            with 1 Some u True g have "f nc name mutate fresh w2 = Some r" by auto
            from 1(1) [OF this] w2 show ?thesis by simp
          qed (use 1 Some u True g w2 in auto)
        qed (use 1 Some u w1 in \<open>cases u; auto\<close>)
      qed (use 1 in auto)
    qed
    with w show ?thesis by simp
  qed
  show ?thesis
    unfolding UpdateNode_def
    by (intro keeps_andthen keeps_wrapping assms(1)) (auto intro!: keepsI dest: loop)
qed

section \<open>A store of node versions\<close>

text \<open>
  A server that has one node, all its versions (newest first), numbered by the length of
  their resource version, and another writer that gets in before the next \<open>k\<close> updates.
\<close>

fun store_versions :: "node list \<Rightarrow> node list" where
  "store_versions [] = []"
| "store_versions (n # ns) = n\<lparr>ResourceVersion := replicate (length ns) (CHR ''v'')\<rparr> # store_versions ns"

definition store_client :: "(nat \<times> node list) node_client" where
  "store_client =
     \<lparr>nodes_get = (\<lambda>name w. case store_versions (snd w) of
        [] \<Rightarrow> throw (ApiErr NotFound name) w | n # _ \<Rightarrow> ret n w),
      nodes_update = (\<lambda>n w. case store_versions (snd w) of
        [] \<Rightarrow> throw (ApiErr NotFound (node_Name n)) w
      | old # _ \<Rightarrow>
          if 0 < fst w then throw (ApiErr Conflict (node_Name n)) (fst w - 1, old # snd w)
          else if ResourceVersion n = ResourceVersion old then ret n (0, n # snd w)
          else throw (ApiErr Conflict (node_Name n)) w)\<rparr>"

lemma store_versions_lengths: "v \<in> set (store_versions ns) \<Longrightarrow> length (ResourceVersion v) < length ns"
  by (induction ns) auto

lemma store_versions_distinct: "distinct (map ResourceVersion (store_versions ns))"
proof (induction ns)
  case (Cons n ns)
  moreover have "replicate (length ns) (CHR ''v'') \<notin> ResourceVersion ` set (store_versions ns)"
    by (auto dest!: store_versions_lengths) (metis length_replicate less_irrefl)
  ultimately show ?case by simp
qed simp

lemma store_is_server: "node_server store_client name (\<lambda>w. store_versions (snd w))"
  using store_versions_distinct
  by (auto simp: node_server_def store_client_def neq_Nil_conv split: list.splits if_splits)

lemma store_conflicts_end: "conflicts_end store_client name fst"
  by (auto simp: conflicts_end_def store_client_def returns_def split: list.splits if_splits)

text \<open>A server that somebody else always writes to first.\<close>

definition busy_client :: "unit node_client" where
  "busy_client =
     \<lparr>nodes_get = \<lambda>name. ret \<lparr>node_Name = name, ResourceVersion = [], Labels = None, Annotations = None,
        ProviderID = [], Taints = None\<rparr>,
      nodes_update = \<lambda>n. throw (ApiErr Conflict (node_Name n))\<rparr>"

lemma busy_forever: "conflicts_forever busy_client name"
  by (simp add: conflicts_forever_def busy_client_def)

definition demo_node :: node where
  "demo_node = \<lparr>node_Name = ''node-1'', ResourceVersion = [], Labels = None, Annotations = None,
     ProviderID = ''aws:///eu-west-1a/i-1'', Taints = None\<rparr>"

section \<open>What the helpers guarantee\<close>

text \<open>
  C21. \<open>UpdateNode\<close> loses no update: when it returns without error it has applied the
  mutator to the newest version of the node there was, and stored exactly that.
\<close>

theorem update_node_loses_nothing:
  assumes "node_server nc name versions" "keeps_version mutate"
    and "UpdateNode nc name mutate w = Some (Ok (), w')"
  shows "\<exists>new old vs m. versions w' = new # old # vs \<and> mutate old = Some m \<and>
    new = m\<lparr>ResourceVersion := ResourceVersion new\<rparr>"
  by (rule UpdateNode_writes [OF assms])

theorem update_node_loses_nothing_witness:
  "\<exists>w'. UpdateNode store_client ''node-1'' (AddTaint ''k'' ''NoSchedule'') (1, [demo_node]) = Some (Ok (), w') \<and>
     (\<exists>new old vs m. store_versions (snd w') = new # old # vs \<and> AddTaint ''k'' ''NoSchedule'' old = Some m \<and>
       new = m\<lparr>ResourceVersion := ResourceVersion new\<rparr>)"
proof -
  obtain w' where "UpdateNode store_client ''node-1'' (AddTaint ''k'' ''NoSchedule'') (1, [demo_node]) = Some (Ok (), w')"
    by (simp add: UpdateNode_def store_client_def wrapping_def attempt_def andthen_def
      update_loop.simps AddTaint_def demo_node_def)
  with update_node_loses_nothing [OF store_is_server keeps_version_taints(1) this] show ?thesis by blast
qed

text \<open>
  \<open>UpdateNode\<close> returns whenever the conflicts end, and does not return when they do not:
  nothing else bounds its loop.
\<close>

theorem update_node_returns_if_conflicts_end:
  assumes "conflicts_end nc name left" "keeps_version mutate"
  shows "\<exists>r. UpdateNode nc name mutate w = Some r"
proof -
  obtain g w1 where get: "nodes_get nc name w = Some (g, w1)"
    using assms(1) returnsD unfolding conflicts_end_def by metis
  have "\<exists>r. update_loop nc name mutate n w1 = Some r" if "g = Ok n" for n
    using update_loop_returns [OF assms] get that by simp
  with get show ?thesis
    by (cases g) (simp_all add: UpdateNode_def wrapping_def attempt_def andthen_def)
qed

theorem update_node_returns_if_conflicts_end_witness:
  "\<exists>r. UpdateNode store_client ''node-1'' (AddTaint ''k'' ''NoSchedule'') (1, [demo_node]) = Some r"
  by (rule update_node_returns_if_conflicts_end [OF store_conflicts_end keeps_version_taints(1)])

text \<open>Against a server that always answers with a conflict, \<open>UpdateNode\<close> never returns.\<close>

theorem update_node_can_loop_forever:
  assumes "conflicts_forever nc name" "\<And>n. mutate n \<noteq> None"
  shows "UpdateNode nc name mutate w = None"
proof -
  obtain n w1 where "nodes_get nc name w = Some (Ok n, w1)"
    using assms(1) unfolding conflicts_forever_def by blast
  then show ?thesis
    using update_loop_diverges [OF assms] by (simp add: UpdateNode_def)
qed

theorem update_node_can_loop_forever_witness:
  "UpdateNode busy_client ''node-1'' (AddTaint ''k'' ''NoSchedule'') () = None"
  by (rule update_node_can_loop_forever [OF busy_forever]) (simp add: AddTaint_def)

definition is_taint :: "string \<Rightarrow> string \<Rightarrow> taint \<Rightarrow> bool" where
  "is_taint key effect t \<longleftrightarrow> taint_Key t = key \<and> taint_Effect t = effect"

definition other_taints :: "string \<Rightarrow> string \<Rightarrow> node \<Rightarrow> taint list" where
  "other_taints key effect n = filter (\<lambda>t. \<not> is_taint key effect t) (elems (Taints n))"

text \<open>
  After \<open>AddTaint\<close> the node has the taint, after \<open>RemoveTaint\<close> it has not, and neither
  changes, drops or reorders any other taint or anything else of the node.
\<close>

theorem taint_mutators_touch_one_taint:
  "\<exists>a r. AddTaint key effect n = Some a \<and> RemoveTaint key effect n = Some r \<and>
     HasTaint a key effect \<and> \<not> HasTaint r key effect \<and>
     other_taints key effect a = other_taints key effect n \<and> other_taints key effect r = other_taints key effect n \<and>
     a\<lparr>Taints := Taints n\<rparr> = n \<and> r\<lparr>Taints := Taints n\<rparr> = n"
  by (simp add: AddTaint_def RemoveTaint_filter HasTaint_iff other_taints_def is_taint_def)

end
