(* ===== verification/Provider_ID.thy ===== *)
theory Provider_ID
  imports Obj_Util
begin

text \<open>
  The provider ID part of pkg/objutil/node.go. \<open>url_parse\<close> is \<open>url.Parse\<close> of Go 1.9 down to
  the two fields that \<open>ProviderIDToAWSInstanceID\<close> reads, the scheme and the decoded path;
  all the checks that can make it fail are kept (the text of the error is not).
\<close>

section \<open>Go's net/url\<close>

datatype encoding = encodePath | encodeHost | encodeZone | encodeUserPassword | encodeFragment

record url =
  Scheme :: string
  url_Path :: string

text \<open>\<open>split(s, c, cutc)\<close>: the text before the first \<open>c\<close> and the rest, without \<open>c\<close> if \<open>cutc\<close>.\<close>

definition url_split :: "char \<Rightarrow> bool \<Rightarrow> string \<Rightarrow> string \<times> string" where
  "url_split c cutc s =
     (let rest = dropWhile (\<lambda>x. x \<noteq> c) s
      in (takeWhile (\<lambda>x. x \<noteq> c) s, if cutc then drop 1 rest else rest))"

definition is_alpha :: "char \<Rightarrow> bool" where
  "is_alpha c \<longleftrightarrow>
     97 \<le> (of_char c :: nat) \<and> (of_char c :: nat) \<le> 122 \<or> 65 \<le> (of_char c :: nat) \<and> (of_char c :: nat) \<le> 90"

text \<open>\<open>shouldEscape\<close> for the host and the zone, the two modes in which reading asks for it.\<close>

definition host_should_escape :: "char \<Rightarrow> bool" where
  "host_should_escape c \<longleftrightarrow> \<not> (is_alpha c \<or> is_digit c \<or> c \<in> set ''!$&()*+,;=:[]<>-_.~'' \<or>
     (of_char c :: nat) \<in> {34, 39})"

fun unescape :: "encoding \<Rightarrow> string \<Rightarrow> string option" where
  "unescape mode [] = Some []"
| "unescape mode (c # s) =
     (if c = CHR ''%'' then
        (case s of
           a # b # rest \<Rightarrow>
             (case (hexdigit_val a, hexdigit_val b) of
                (Some x, Some y) \<Rightarrow>
                  if mode = encodeHost \<and> x < 8 \<and> \<not> (a = CHR ''2'' \<and> b = CHR ''5'') then None
                  else if mode = encodeZone \<and> \<not> (a = CHR ''2'' \<and> b = CHR ''5'') \<and>
                     16 * x + y \<noteq> 32 \<and> host_should_escape (char_of (16 * x + y)) then None
                  else map_option (Cons (char_of (16 * x + y))) (unescape mode rest)
              | _ \<Rightarrow> None)
         | _ \<Rightarrow> None)
      else if (mode = encodeHost \<or> mode = encodeZone) \<and> (of_char c :: nat) < 128 \<and> host_should_escape c
      then None
      else map_option (Cons c) (unescape mode s))"

text \<open>\<open>getscheme\<close>: none if the scheme is missing before a colon.\<close>

fun getscheme_from :: "string \<Rightarrow> string \<Rightarrow> (string \<times> string) option" where
  "getscheme_from seen [] = Some ([], seen)"
| "getscheme_from seen (c # s) =
     (if is_alpha c then getscheme_from (seen @ [c]) s
      else if is_digit c \<or> c \<in> set ''+-.'' then
        (if seen = [] then Some ([], c # s) else getscheme_from (seen @ [c]) s)
      else if c = CHR '':'' then (if seen = [] then None else Some (seen, s))
      else Some ([], seen @ c # s))"

definition getscheme :: "string \<Rightarrow> (string \<times> string) option" where
  "getscheme raw = getscheme_from [] raw"

text \<open>\<open>s[:i], s[i+1:]\<close> for the last index \<open>i\<close> of \<open>c\<close>.\<close>

definition split_last :: "char \<Rightarrow> string \<Rightarrow> (string \<times> string) option" where
  "split_last c s =
     (if c \<in> set s then
        Some (rev (drop 1 (dropWhile (\<lambda>x. x \<noteq> c) (rev s))), rev (takeWhile (\<lambda>x. x \<noteq> c) (rev s)))
      else None)"

definition valid_optional_port :: "string \<Rightarrow> bool" where
  "valid_optional_port port \<longleftrightarrow>
     (case port of [] \<Rightarrow> True | c # ds \<Rightarrow> c = CHR '':'' \<and> list_all is_digit ds)"

fun zone_index :: "string \<Rightarrow> (string \<times> string) option" where
  "zone_index [] = None"
| "zone_index (c # s) =
     (if take 3 (c # s) = ''%25'' then Some ([], c # s)
      else map_option (\<lambda>(a, b). (c # a, b)) (zone_index s))"

definition host_ok :: "string \<Rightarrow> bool" where
  "host_ok host =
     (if take 1 host = ''['' then
        (case split_last (CHR '']'') host of
           None \<Rightarrow> False
         | Some (inner, port) \<Rightarrow>
             valid_optional_port port \<and>
             (case zone_index inner of
                Some (before, zone) \<Rightarrow>
                  unescape encodeHost before \<noteq> None \<and> unescape encodeZone zone \<noteq> None \<and>
                  unescape encodeHost (CHR '']'' # port) \<noteq> None
              | None \<Rightarrow> unescape encodeHost host \<noteq> None))
      else unescape encodeHost host \<noteq> None)"

definition authority_ok :: "string \<Rightarrow> bool" where
  "authority_ok authority =
     (case split_last (CHR ''@'') authority of
        None \<Rightarrow> host_ok authority
      | Some (userinfo, host) \<Rightarrow>
          host_ok host \<and>
          (let (username, password) = url_split (CHR '':'') True userinfo
           in unescape encodeUserPassword username \<noteq> None \<and> unescape encodeUserPassword password \<noteq> None))"

definition cut_query :: "string \<Rightarrow> string" where
  "cut_query rest = fst (url_split (CHR ''?'') True rest)"

definition url_parse_raw :: "string \<Rightarrow> url option" where
  "url_parse_raw raw =
     (if raw = ''*'' then Some \<lparr>Scheme = [], url_Path = ''*''\<rparr>
      else case getscheme raw of
        None \<Rightarrow> None
      | Some (sch, rest0) \<Rightarrow>
          let scheme = map lower sch; rest = cut_query rest0;
              path_of = (\<lambda>p. map_option (\<lambda>q. \<lparr>Scheme = scheme, url_Path = q\<rparr>) (unescape encodePath p))
          in if take 1 rest \<noteq> ''/'' \<and> scheme \<noteq> [] then Some \<lparr>Scheme = scheme, url_Path = []\<rparr>
             else if take 1 rest \<noteq> ''/'' \<and> CHR '':'' \<in> set (fst (url_split (CHR ''/'') False rest)) then None
             else if (scheme \<noteq> [] \<or> take 3 rest \<noteq> ''///'') \<and> take 2 rest = ''//'' then
               let (authority, p) = url_split (CHR ''/'') False (drop 2 rest)
               in if authority_ok authority then path_of p else None
             else path_of rest)"

definition url_parse :: "string \<Rightarrow> url option" where
  "url_parse raw =
     (let (u, frag) = url_split (CHR ''#'') True raw
      in case url_parse_raw u of
           None \<Rightarrow> None
         | Some url \<Rightarrow> if frag = [] \<or> unescape encodeFragment frag \<noteq> None then Some url else None)"

section \<open>ProviderIDToAWSInstanceID\<close>

text \<open>\<open>strings.Trim(s, "/")\<close> and \<open>strings.Split(s, "/")\<close>.\<close>

definition trim_slashes :: "string \<Rightarrow> string" where
  "trim_slashes s = rev (dropWhile (\<lambda>c. c = CHR ''/'') (rev (dropWhile (\<lambda>c. c = CHR ''/'') s)))"

definition split_slashes :: "string \<Rightarrow> string list" where
  "split_slashes s = strings_split (CHR ''/'') s"

text \<open>The regular expression \<open>^i-[^/]*$\<close>.\<close>

definition awsInstanceRegMatch :: "string \<Rightarrow> bool" where
  "awsInstanceRegMatch s \<longleftrightarrow> take 2 s = ''i-'' \<and> CHR ''/'' \<notin> set (drop 2 s)"

definition ProviderIDToAWSInstanceID :: "string \<Rightarrow> error + string" where
  "ProviderIDToAWSInstanceID given =
     (let providerID = (if take 6 given \<noteq> ''aws://'' then ''aws://'' @ ''/'' @ ''/'' @ given else given)
      in case url_parse providerID of
           None \<Rightarrow> Inl (Errorf ''Invalid instance name (%s): %v'' [providerID])
         | Some url \<Rightarrow>
             if Scheme url \<noteq> ''aws'' then Inl (Errorf ''Invalid scheme for AWS instance (%s)'' [providerID])
             else
               let tokens = split_slashes (trim_slashes (url_Path url));
                   awsID = (if length tokens = 1 then tokens ! 0
                            else if length tokens = 2 then tokens ! 1 else [])
               in if awsID = [] \<or> \<not> awsInstanceRegMatch awsID
                  then Inl (Errorf ''Invalid format for AWS instance (%s)'' [providerID])
                  else Inr awsID)"

section \<open>Well-formed provider IDs\<close>

text \<open>A character that means nothing to a URL's path.\<close>

definition plain_char :: "char \<Rightarrow> bool" where
  "plain_char c \<longleftrightarrow> c \<notin> set ''/%#?''"

lemma unescape_path: "CHR ''%'' \<notin> set s \<Longrightarrow> unescape encodePath s = Some s"
  by (induction encodePath s rule: unescape.induct) auto

lemma url_split_none: "c \<notin> set s \<Longrightarrow> url_split c cutc s = (s, [])"
  by (induction s) (auto simp: url_split_def Let_def)

lemma trim_slashes_id:
  "s \<noteq> [] \<Longrightarrow> hd s \<noteq> CHR ''/'' \<Longrightarrow> last s \<noteq> CHR ''/'' \<Longrightarrow> trim_slashes s = s"
proof -
  have drop: "dropWhile P t = t" if "t \<noteq> []" "\<not> P (hd t)" for P and t :: string
    using that by (cases t) auto
  assume "s \<noteq> []" "hd s \<noteq> CHR ''/''" "last s \<noteq> CHR ''/''"
  then show ?thesis by (simp add: trim_slashes_def drop hd_rev)
qed

lemma trim_slashes_Cons [simp]: "trim_slashes (CHR ''/'' # s) = trim_slashes s"
  by (simp add: trim_slashes_def)

lemmas split_slashes_plain = strings_split_plain [of "CHR ''/''", folded split_slashes_def]
lemmas split_slashes_two = strings_split_two [of "CHR ''/''", folded split_slashes_def]

lemma getscheme_aws: "getscheme (''aws:'' @ s) = Some (''aws'', s)"
  by (simp add: getscheme_def is_alpha_def)

lemma url_parse_aws:
  assumes "list_all (\<lambda>c. c \<notin> set ''%#?'') path"
  shows "url_parse (''aws:///'' @ path) = Some \<lparr>Scheme = ''aws'', url_Path = CHR ''/'' # path\<rparr>"
proof -
  have clean: "CHR ''%'' \<notin> set path" "CHR ''#'' \<notin> set path" "CHR ''?'' \<notin> set path"
    using assms by (auto simp: list_all_iff)
  have scheme: "getscheme (CHR ''a'' # CHR ''w'' # CHR ''s'' # CHR '':'' # s) = Some (''aws'', s)" for s
    using getscheme_aws [of s] by simp
  show ?thesis
    using clean
    by (simp add: url_parse_def url_split_none url_parse_raw_def scheme cut_query_def
      unescape_path authority_ok_def split_last_def host_ok_def lower_def)
      (simp add: url_split_def unescape_path host_ok_def)
qed

lemma instance_path:
  assumes "list_all plain_char x"
  shows "trim_slashes (''i-'' @ x) = ''i-'' @ x"
  using assms by (intro trim_slashes_id) (auto simp: plain_char_def list_all_iff dest: last_in_set)

text \<open>
  The instance ID of a provider ID is an EC2 instance ID: it starts with \<open>i-\<close> and has no slash.
\<close>

theorem ProviderID_is_instance_id:
  assumes "ProviderIDToAWSInstanceID given = Inr awsID"
  shows "\<exists>x. awsID = ''i-'' @ x \<and> CHR ''/'' \<notin> set awsID"
proof -
  have "awsInstanceRegMatch awsID"
    using assms by (simp add: ProviderIDToAWSInstanceID_def Let_def split: option.splits if_splits)
  then have id: "awsID = ''i-'' @ drop 2 awsID" and "CHR ''/'' \<notin> set (drop 2 awsID)"
    unfolding awsInstanceRegMatch_def by (metis append_take_drop_id, blast)
  then obtain x where "awsID = ''i-'' @ x" "CHR ''/'' \<notin> set x" by blast
  then show ?thesis by auto
qed

theorem ProviderID_is_instance_id_witness: "\<exists>x. ''i-1'' = ''i-'' @ x \<and> CHR ''/'' \<notin> set ''i-1''"
proof (rule ProviderID_is_instance_id)
  show "ProviderIDToAWSInstanceID ''aws:///eu-west-1a/i-1'' = Inr ''i-1''" by code_simp
qed

text \<open>
  The three ways to write the ID of an instance, \<open>aws:///zone/i-x\<close>, \<open>aws:///i-x\<close> and \<open>i-x\<close>
  alone, are all read as \<open>i-x\<close>.
\<close>

theorem ProviderID_forms:
  assumes "list_all plain_char x" "list_all plain_char zone" "zone \<noteq> []"
  shows "ProviderIDToAWSInstanceID (''aws:///'' @ zone @ ''/i-'' @ x) = Inr (''i-'' @ x) \<and>
    ProviderIDToAWSInstanceID (''aws:///i-'' @ x) = Inr (''i-'' @ x) \<and>
    ProviderIDToAWSInstanceID (''i-'' @ x) = Inr (''i-'' @ x)"
proof -
  let ?id = "''i-'' @ x"
  have no: "CHR ''/'' \<notin> set ?id" "CHR ''/'' \<notin> set zone" "awsInstanceRegMatch ?id"
    using assms by (auto simp: plain_char_def list_all_iff awsInstanceRegMatch_def)
  have ok: "list_all (\<lambda>c. c \<notin> set ''%#?'') (CHR ''/'' # ?id)" "list_all (\<lambda>c. c \<notin> set ''%#?'') ?id"
     "list_all (\<lambda>c. c \<notin> set ''%#?'') (zone @ CHR ''/'' # ?id)"
    using assms by (auto simp: plain_char_def list_all_iff)
  have trim: "trim_slashes (zone @ CHR ''/'' # ?id) = zone @ CHR ''/'' # ?id"
    using assms no by (intro trim_slashes_id) (cases zone; auto dest: last_in_set)+
  have parts: "split_slashes (trim_slashes (zone @ CHR ''/'' # ?id)) = [zone, ?id]"
    "split_slashes (trim_slashes ?id) = [?id]"
    unfolding trim instance_path [OF assms(1)]
    using split_slashes_two [OF no(2,1)] split_slashes_plain [OF no(1)] by auto
  show ?thesis
    using url_parse_aws [OF ok(1)] url_parse_aws [OF ok(2)] url_parse_aws [OF ok(3)] parts no(3)
    by (simp add: ProviderIDToAWSInstanceID_def)
qed

theorem ProviderID_forms_witness:
  "ProviderIDToAWSInstanceID ''aws:///eu-west-1a/i-0a'' = Inr ''i-0a'' \<and>
   ProviderIDToAWSInstanceID ''aws:///i-0a'' = Inr ''i-0a'' \<and>
   ProviderIDToAWSInstanceID ''i-0a'' = Inr ''i-0a''"
  using ProviderID_forms [of "''0a''" "''eu-west-1a''"] by (simp add: plain_char_def)

end
