(* ===== verification/Instance_Types.thy ===== *)
theory Instance_Types
  imports Main
begin

text \<open>
  defs.go: the label that carries the instance ID, and the two tables of what an EC2
  instance type can hold, the number of network interfaces and the number of addresses on
  each. The ENI controller indexes both with the type it reads from EC2.
\<close>

definition LabelAWSInstanceID :: string where
  "LabelAWSInstanceID = ''k8s-vpcnet/instance-id''"

definition enis_table :: "(string \<times> int) list" where
  "enis_table = [
     (''c1.medium'', 2), (''c1.xlarge'', 4), (''c3.large'', 3), (''c3.xlarge'', 4),
     (''c3.2xlarge'', 4), (''c3.4xlarge'', 8), (''c3.8xlarge'', 8), (''c4.large'', 3),
     (''c4.xlarge'', 4), (''c4.2xlarge'', 4), (''c4.4xlarge'', 8), (''c4.8xlarge'', 8),
     (''c5.large'', 3), (''c5.xlarge'', 4), (''c5.2xlarge'', 4), (''c5.4xlarge'', 8),
     (''c5.9xlarge'', 8), (''c5.18xlarge'', 15), (''cc2.8xlarge'', 8), (''cg1.4xlarge'', 8),
     (''cr1.8xlarge'', 8), (''d2.xlarge'', 4), (''d2.2xlarge'', 4), (''d2.4xlarge'', 8),
     (''d2.8xlarge'', 8), (''f1.2xlarge'', 4), (''f1.16xlarge'', 8), (''g2.2xlarge'', 4),
     (''g2.8xlarge'', 8), (''g3.4xlarge'', 8), (''g3.8xlarge'', 8), (''g3.16xlarge'', 15),
     (''hi1.4xlarge'', 8), (''hs1.8xlarge'', 8), (''i2.xlarge'', 4), (''i2.2xlarge'', 4),
     (''i2.4xlarge'', 8), (''i2.8xlarge'', 8), (''i3.large'', 3), (''i3.xlarge'', 4),
     (''i3.2xlarge'', 4), (''i3.4xlarge'', 8), (''i3.8xlarge'', 8), (''i3.16xlarge'', 15),
     (''m1.small'', 2), (''m1.medium'', 2), (''m1.large'', 3), (''m1.xlarge'', 4),
     (''m2.xlarge'', 4), (''m2.2xlarge'', 4), (''m2.4xlarge'', 8), (''m3.medium'', 2),
     (''m3.large'', 3), (''m3.xlarge'', 4), (''m3.2xlarge'', 4), (''m4.large'', 2),
     (''m4.xlarge'', 4), (''m4.2xlarge'', 4), (''m4.4xlarge'', 8), (''m4.10xlarge'', 8),
     (''m4.16xlarge'', 8), (''p2.xlarge'', 4), (''p2.8xlarge'', 8), (''p2.16xlarge'', 8),
     (''r3.large'', 3), (''r3.xlarge'', 4), (''r3.2xlarge'', 4), (''r3.4xlarge'', 8),
     (''r3.8xlarge'', 8), (''r4.large'', 3), (''r4.xlarge'', 4), (''r4.2xlarge'', 4),
     (''r4.4xlarge'', 8), (''r4.8xlarge'', 8), (''r4.16xlarge'', 15), (''t1.micro'', 2),
     (''t2.nano'', 2), (''t2.micro'', 2), (''t2.small'', 2), (''t2.medium'', 3),
     (''t2.large'', 3), (''t2.xlarge'', 3), (''t2.2xlarge'', 3), (''x1.16xlarge'', 8),
     (''x1.32xlarge'', 8)]"

definition ips_table :: "(string \<times> int) list" where
  "ips_table = [
     (''c1.medium'', 6), (''c1.xlarge'', 15), (''c3.large'', 10), (''c3.xlarge'', 15),
     (''c3.2xlarge'', 15), (''c3.4xlarge'', 30), (''c3.8xlarge'', 30), (''c4.large'', 10),
     (''c4.xlarge'', 15), (''c4.2xlarge'', 15), (''c4.4xlarge'', 30), (''c4.8xlarge'', 30),
     (''c5.large'', 10), (''c5.xlarge'', 15), (''c5.2xlarge'', 15), (''c5.4xlarge'', 30),
     (''c5.9xlarge'', 30), (''c5.18xlarge'', 30), (''cc2.8xlarge'', 30), (''cg1.4xlarge'', 30),
     (''cr1.8xlarge'', 30), (''d2.xlarge'', 15), (''d2.2xlarge'', 15), (''d2.4xlarge'', 30),
     (''d2.8xlarge'', 30), (''f1.2xlarge'', 15), (''f1.16xlarge'', 50), (''g2.2xlarge'', 15),
     (''g2.8xlarge'', 30), (''g3.4xlarge'', 30), (''g3.8xlarge'', 30), (''g3.16xlarge'', 50),
     (''hi1.4xlarge'', 30), (''hs1.8xlarge'', 30), (''i2.xlarge'', 15), (''i2.2xlarge'', 15),
     (''i2.4xlarge'', 30), (''i2.8xlarge'', 30), (''i3.large'', 10), (''i3.xlarge'', 15),
     (''i3.2xlarge'', 15), (''i3.4xlarge'', 30), (''i3.8xlarge'', 30), (''i3.16xlarge'', 50),
     (''m1.small'', 4), (''m1.medium'', 6), (''m1.large'', 10), (''m1.xlarge'', 15),
     (''m2.xlarge'', 15), (''m2.2xlarge'', 30), (''m2.4xlarge'', 30), (''m3.medium'', 6),
     (''m3.large'', 10), (''m3.xlarge'', 15), (''m3.2xlarge'', 30), (''m4.large'', 10),
     (''m4.xlarge'', 15), (''m4.2xlarge'', 15), (''m4.4xlarge'', 30), (''m4.10xlarge'', 30),
     (''m4.16xlarge'', 30), (''p2.xlarge'', 15), (''p2.8xlarge'', 30), (''p2.16xlarge'', 30),
     (''r3.large'', 10), (''r3.xlarge'', 15), (''r3.2xlarge'', 15), (''r3.4xlarge'', 30),
     (''r3.8xlarge'', 30), (''r4.large'', 10), (''r4.xlarge'', 15), (''r4.2xlarge'', 15),
     (''r4.4xlarge'', 30), (''r4.8xlarge'', 30), (''r4.16xlarge'', 50), (''t1.micro'', 2),
     (''t2.nano'', 2), (''t2.micro'', 2), (''t2.small'', 4), (''t2.medium'', 6),
     (''t2.large'', 12), (''t2.xlarge'', 15), (''t2.2xlarge'', 15), (''x1.16xlarge'', 30),
     (''x1.32xlarge'', 30)]"

definition InstanceENIsAvailable :: "string \<rightharpoonup> int" where
  "InstanceENIsAvailable = map_of enis_table"

definition InstanceIPsAvailable :: "string \<rightharpoonup> int" where
  "InstanceIPsAvailable = map_of ips_table"

section \<open>The tables agree\<close>

lemma tables_same_types: "map fst enis_table = map fst ips_table"
  by (simp add: enis_table_def ips_table_def)

lemma enis_table_bounds: "list_all (\<lambda>(_, n). 2 \<le> n \<and> n \<le> 15) enis_table"
  by (simp add: enis_table_def)

lemma ips_table_bounds: "list_all (\<lambda>(_, n). 2 \<le> n \<and> n \<le> 50) ips_table"
  by (simp add: ips_table_def)

lemma dom_tables: "dom InstanceENIsAvailable = dom InstanceIPsAvailable"
  using arg_cong [OF tables_same_types, of set]
  by (simp add: InstanceENIsAvailable_def InstanceIPsAvailable_def dom_map_of_conv_image_fst)

lemma InstanceENIsAvailable_bounds: "InstanceENIsAvailable t = Some n \<Longrightarrow> 2 \<le> n \<and> n \<le> 15"
  using enis_table_bounds by (auto simp: InstanceENIsAvailable_def list_all_iff dest!: map_of_SomeD)

lemma InstanceIPsAvailable_bounds: "InstanceIPsAvailable t = Some n \<Longrightarrow> 2 \<le> n \<and> n \<le> 50"
  using ips_table_bounds by (auto simp: InstanceIPsAvailable_def list_all_iff dest!: map_of_SomeD)

lemma ips_if_enis: "InstanceENIsAvailable t = Some n \<Longrightarrow> \<exists>m. InstanceIPsAvailable t = Some m"
  using dom_tables by blast

end
