(* ===== verification/Eni_Controller.thy ===== *)
theory Eni_Controller
  imports Provider_ID Instance_Types
begin

text \<open>
  cmd/eni-controller/enicontroller: the handler that gives every node its network
  interfaces, one change per run. EC2 (the Go interface \<open>EC2Client\<close>), the node lister and the
  node client are parameters over the world. Pointers in EC2's answers are options, and
  dereferencing a nil one panics.

  \<open>handleNode\<close> is cut at its two big branches: \<open>save_instance_info\<close> is the one for a node
  whose instance data is not stored yet, \<open>configure_enis\<close> what follows it.
\<close>

section \<open>EC2\<close>

record ec2_instance =
  inst_InstanceType :: "string option"
  inst_SubnetId :: "string option"
  inst_SecurityGroups :: "string option list"

record ec2_interface =
  ni_NetworkInterfaceId :: "string option"
  ni_PrivateIpAddress :: "string option"
  ni_PrivateIpAddresses :: "string option list"
  ni_MacAddress :: "string option"

record create_input =
  ci_Description :: string
  ci_Groups :: "string list"
  ci_SubnetId :: string
  ci_SecondaryPrivateIpAddressCount :: int

text \<open>
  \<open>DescribeInstancesPages\<close> gives the pages its callback is called with: reservations, and
  their instances. \<open>ModifyNetworkInterfaceAttribute\<close> gets the interface, its attachment and
  the new deletion policy.
\<close>

record 'w ec2_client =
  DescribeInstancesPages :: "string \<Rightarrow> ('w, ec2_instance option list list list) io"
  CreateNetworkInterface :: "create_input \<Rightarrow> ('w, ec2_interface option) io"
  ModifyNetworkInterfaceAttribute :: "string \<Rightarrow> string option \<Rightarrow> bool \<Rightarrow> ('w, unit) io"
  AttachNetworkInterface :: "string \<Rightarrow> int \<Rightarrow> string \<Rightarrow> ('w, string option) io"
  DescribeSubnets :: "string \<Rightarrow> ('w, string option list) io"

record 'w eni_controller =
  ec_ec2 :: "'w ec2_client"
  ec_nodes :: "'w node_client"
  ec_lister :: "string \<Rightarrow> ('w, node) io"

section \<open>Calls to EC2\<close>

definition getInstance :: "'w eni_controller \<Rightarrow> string \<Rightarrow> string \<Rightarrow> ('w, ec2_instance option) io" where
  "getInstance c nodeName instanceID =
     andthen (DescribeInstancesPages (ec_ec2 c) instanceID) (\<lambda>pages.
       let instances = concat (concat pages) in
       if length instances \<noteq> 1
       then throw (Errorf ''Incorrect number of instances found for %s [%v]'' [nodeName])
       else ret (instances ! 0))"

text \<open>The addresses other than the primary one.\<close>

fun secondary_ips :: "string option list \<Rightarrow> string option \<Rightarrow> net_ip list \<Rightarrow> ('w, net_ip list) io" where
  "secondary_ips [] primary ips = ret ips"
| "secondary_ips (p # ps) primary ips =
     andthen (deref p) (\<lambda>a. andthen (deref primary) (\<lambda>prim.
       secondary_ips ps primary (if a \<noteq> prim then ips @ [parse_ip a] else ips)))"

definition createENI :: "'w eni_controller \<Rightarrow> string \<Rightarrow> aws_instance_info \<Rightarrow> int \<Rightarrow> ('w, eni) io" where
  "createENI c nodeName instanceInfo numIPs =
     andthen (CreateNetworkInterface (ec_ec2 c)
         \<lparr>ci_Description = ''K8S ENI for node '' @ nodeName,
          ci_Groups = elems (SecurityGroupIDs instanceInfo),
          ci_SubnetId = SubnetID instanceInfo,
          ci_SecondaryPrivateIpAddressCount = numIPs - 1\<rparr>) (\<lambda>resp.
     andthen (deref resp) (\<lambda>ni.
     andthen (secondary_ips (ni_PrivateIpAddresses ni) (ni_PrivateIpAddress ni) []) (\<lambda>ips.
     andthen (deref (ni_NetworkInterfaceId ni)) (\<lambda>id.
     andthen (deref (ni_PrivateIpAddress ni)) (\<lambda>addr.
     andthen (deref (ni_MacAddress ni)) (\<lambda>mac.
     ret \<lparr>EniID = id, Attached = False, InterfaceIP = parse_ip addr, Index = 0, CIDRBlock = None,
       IPs = Some ips, MACAddress = mac\<rparr>))))))"

definition attachENI :: "'w eni_controller \<Rightarrow> string \<Rightarrow> string \<Rightarrow> eni \<Rightarrow> ('w, unit) io" where
  "attachENI c nodeName instanceID e =
     (if Attached e
      then throw (Errorf ''Cannot attach %s to %s, it is flagged as being attached'' [EniID e, nodeName])
      else andthen (AttachNetworkInterface (ec_ec2 c) instanceID (Index e) (EniID e)) (\<lambda>attachment.
        ModifyNetworkInterfaceAttribute (ec_ec2 c) (EniID e) attachment True))"

section \<open>The node handler\<close>

definition set_annotation :: "string \<Rightarrow> string \<Rightarrow> mutator" where
  "set_annotation key v n =
     (case go_assign (Annotations n) key v of None \<Rightarrow> None | Some m \<Rightarrow> Some (n\<lparr>Annotations := m\<rparr>))"

definition set_label :: "string \<Rightarrow> string \<Rightarrow> mutator" where
  "set_label key v n =
     (case go_assign (Labels n) key v of None \<Rightarrow> None | Some m \<Rightarrow> Some (n\<lparr>Labels := m\<rparr>))"

fun deref_all :: "string option list \<Rightarrow> string list \<Rightarrow> ('w, string list) io" where
  "deref_all [] xs = ret xs"
| "deref_all (p # ps) xs = andthen (deref p) (\<lambda>x. deref_all ps (xs @ [x]))"

definition save_instance_info :: "'w eni_controller \<Rightarrow> node \<Rightarrow> string \<Rightarrow> ('w, unit) io" where
  "save_instance_info c n iid =
     andthen (wrapping (\<lambda>e. Wrapf e ''Error fetching instance for node %s'' [node_Name n])
       (getInstance c (node_Name n) iid)) (\<lambda>p.
     andthen (deref p) (\<lambda>inst.
     andthen (deref (inst_InstanceType inst)) (\<lambda>itype.
     andthen (deref (inst_SubnetId inst)) (\<lambda>subnet.
     andthen (deref_all (inst_SecurityGroups inst) []) (\<lambda>sgs.
     andthen (wrapping (\<lambda>e. Wrapf e ''Error fetching subnet info for %s'' [subnet])
       (DescribeSubnets (ec_ec2 c) subnet)) (\<lambda>subnets.
     if length subnets \<noteq> 1
     then throw (Errorf ''Expected one subnet match for %q, got %v'' [subnet])
     else andthen (deref (subnets ! 0)) (\<lambda>block.
       case parse_cidr block of
         None \<Rightarrow> throw (Wrapf (ExtErr (''invalid CIDR address: '' @ block)) ''Error getting ipnet from %q'' [block])
       | Some (_, cb) \<Rightarrow>
           let info = \<lparr>InstanceType = itype, SubnetID = subnet, SubnetCIDR = Some cb,
             SecurityGroupIDs = append_slice None sgs\<rparr> in
           andthen (wrapping (\<lambda>e. Wrapf e ''Error marshaling instance info JSON'' [])
             (of_sum (marshal_info info))) (\<lambda>iiJSON.
           wrapping (\<lambda>e. Wrapf e ''error writing instance info for node %s'' [node_Name n])
             (UpdateNode (ec_nodes c) (node_Name n) (set_annotation EC2InfoKey iiJSON))))))))))"

text \<open>
  The first ENI that is not attached, with its position: the outer option is none when the
  loop dereferences a nil ENI before it.
\<close>

fun find_unattached :: "nat \<Rightarrow> eni option list \<Rightarrow> (nat \<times> eni) option option" where
  "find_unattached i [] = Some None"
| "find_unattached i (None # ps) = None"
| "find_unattached i (Some e # ps) = (if \<not> Attached e then Some (Some (i, e)) else find_unattached (i + 1) ps)"

text \<open>Attach one; the error of the update is assigned and not looked at.\<close>

definition attach_one :: "'w eni_controller \<Rightarrow> node \<Rightarrow> string \<Rightarrow> eni option list \<Rightarrow> nat \<Rightarrow> eni \<Rightarrow> ('w, unit) io" where
  "attach_one c n iid nc i e =
     andthen (attachENI c (node_Name n) iid e) (\<lambda>_.
     andthen (of_sum (marshal_enis (Some (nc[i := Some (e\<lparr>Attached := True\<rparr>)])))) (\<lambda>ifsJSON.
     ignoring (UpdateNode (ec_nodes c) (node_Name n) (set_annotation IFSKey ifsJSON))))"

definition create_one ::
  "'w eni_controller \<Rightarrow> node \<Rightarrow> aws_instance_info \<Rightarrow> int \<Rightarrow> eni option list \<Rightarrow> ('w, unit) io" where
  "create_one c n instanceInfo numIPs nc =
     andthen (createENI c (node_Name n) instanceInfo numIPs) (\<lambda>newIf0.
     let newIf = newIf0\<lparr>Index := int (length nc) + 1, CIDRBlock := SubnetCIDR instanceInfo\<rparr> in
     andthen (of_sum (marshal_enis (Some (nc @ [Some newIf])))) (\<lambda>ifsJSON.
     wrapping (\<lambda>e. Wrapf e ''Error updating ENI annotation on node %s'' [node_Name n])
       (UpdateNode (ec_nodes c) (node_Name n) (set_annotation IFSKey ifsJSON))))"

definition configure_enis :: "'w eni_controller \<Rightarrow> node \<Rightarrow> string \<Rightarrow> aws_instance_info \<Rightarrow> ('w, unit) io" where
  "configure_enis c n iid instanceInfo =
     (case InstanceENIsAvailable (InstanceType instanceInfo) of
        None \<Rightarrow> throw (Errorf ''we have no ENI mapping info for node %s's instance type %s, cannot configure interfaces''
          [node_Name n, InstanceType instanceInfo])
      | Some enis_max \<Rightarrow>
          let numENIs = enis_max - 1 in
          case InstanceIPsAvailable (InstanceType instanceInfo) of
            None \<Rightarrow> throw (Errorf ''we have no IP mapping info for node %s's instance type %s, cannot configure interfaces''
              [node_Name n, InstanceType instanceInfo])
          | Some numIPs \<Rightarrow>
              andthen (wrapping (\<lambda>e. Wrapf e ''Error parsing ENI config from annotation for node %s'' [node_Name n])
                (of_sum (ENIConfigFromAnnotations (Annotations n)))) (\<lambda>cfg.
              let nc = elems cfg in
              if go_lookup (Labels n) LabelAWSInstanceID = None then
                wrapping (\<lambda>e. Wrapf e ''Error updating node %s'' [node_Name n])
                  (UpdateNode (ec_nodes c) (node_Name n) (set_label LabelAWSInstanceID iid))
              else case find_unattached 0 nc of
                None \<Rightarrow> go_panic ''nil pointer dereference''
              | Some (Some (i, e)) \<Rightarrow> attach_one c n iid nc i e
              | Some None \<Rightarrow>
                  if int (length nc) < numENIs then create_one c n instanceInfo numIPs nc else ret ()))"

definition cleanupNode :: "string \<Rightarrow> ('w, unit) io" where
  "cleanupNode key = ret ()"

definition handleNode :: "'w eni_controller \<Rightarrow> string \<Rightarrow> ('w, unit) io" where
  "handleNode c key =
     andthen (attempt (ec_lister c key)) (\<lambda>r.
       case r of
         Inl err \<Rightarrow> if is_not_found err then cleanupNode key else throw err
       | Inr n \<Rightarrow>
           if ProviderID n = [] then ret ()
           else andthen (of_sum (ProviderIDToAWSInstanceID (ProviderID n))) (\<lambda>iid.
             andthen (wrapping (\<lambda>e. Wrapf e ''Error unpacking instance info from annotations on node %s'' [node_Name n])
               (of_sum (AWSInstanceInfoFromAnnotations (Annotations n)))) (\<lambda>info.
             case info of
               None \<Rightarrow> save_instance_info c n iid
             | Some instanceInfo \<Rightarrow> configure_enis c n iid instanceInfo)))"

end
