(* ===== verification/Eni_Theorems.thy ===== *)
theory Eni_Theorems
  imports Eni_Controller
begin

text \<open>
  What a run of the ENI controller writes: at most once, and then one of three changes
  (\<open>one_change_per_run\<close>). A write of the interface annotation is one step of \<open>eni_change\<close>, a summary
  of what \<open>attach_one\<close> and \<open>create_one\<close> do that is proved of them, and that keeps the list well-formed
  (\<open>enis_wf\<close>): positions 1, 2, \<dots>, everything attached except perhaps the last.
\<close>

section \<open>The list of interfaces\<close>

text \<open>
  One change of the list, for a node that may have \<open>m\<close> interfaces. That the handler makes no other
  is \<open>configure_enis_writes\<close> below.
\<close>

inductive eni_change :: "int \<Rightarrow> eni option list \<Rightarrow> eni option list \<Rightarrow> bool" for m where
  attach: "find_unattached 0 nc = Some (Some (i, e)) \<Longrightarrow>
    eni_change m nc (nc[i := Some (e\<lparr>Attached := True\<rparr>)])"
| create: "find_unattached 0 nc = Some None \<Longrightarrow> int (length nc) < m \<Longrightarrow>
    Index e = int (length nc) + 1 \<Longrightarrow> \<not> Attached e \<Longrightarrow> eni_change m nc (nc @ [Some e])"

definition enis_wf :: "eni option list \<Rightarrow> bool" where
  "enis_wf nc \<longleftrightarrow>
     (\<forall>i < length nc. \<exists>e. nc ! i = Some e \<and> Index e = int i + 1 \<and> (i + 1 < length nc \<longrightarrow> Attached e))"

lemma find_unattached_shift:
  "find_unattached k nc = Some (Some (i, e)) \<Longrightarrow>
     k \<le> i \<and> i - k < length nc \<and> nc ! (i - k) = Some e \<and> \<not> Attached e \<and>
     (\<forall>j < i - k. \<exists>d. nc ! j = Some d \<and> Attached d)"
proof (induction k nc rule: find_unattached.induct)
  case (3 k d ps)
  show ?case
  proof (cases "Attached d")
    case True
    with 3 have IH: "k + 1 \<le> i" "i - (k + 1) < length ps" "ps ! (i - (k + 1)) = Some e" "\<not> Attached e"
      "\<forall>j < i - (k + 1). \<exists>d. ps ! j = Some d \<and> Attached d" by auto
    have "(Some d # ps) ! (i - k) = Some e"
    proof -
      have "i - k = Suc (i - (k + 1))" using IH(1) by simp
      with IH(3) show ?thesis by simp
    qed
    moreover have "\<forall>j < i - k. \<exists>d'. (Some d # ps) ! j = Some d' \<and> Attached d'"
      using IH(5) True by (auto simp: nth_Cons split: nat.split)
    ultimately show ?thesis using IH by auto
  next
    case False
    with 3 show ?thesis by auto
  qed
qed auto

lemmas find_unattached_Some = find_unattached_shift [where k = 0, simplified]

lemma find_unattached_None:
  "find_unattached k nc = Some None \<longleftrightarrow> (\<forall>p \<in> set nc. \<exists>e. p = Some e \<and> Attached e)"
  by (induction k nc rule: find_unattached.induct) auto

lemma attached_list:
  "\<forall>q \<in> set ps. \<exists>d. q = Some d \<and> Attached d \<Longrightarrow> \<exists>es. ps = map Some es \<and> (\<forall>d \<in> set es. Attached d)"
proof (induction ps)
  case (Cons p ps)
  then obtain es d where "ps = map Some es" "\<forall>d \<in> set es. Attached d" "p = Some d" "Attached d" by auto
  then show ?case by (intro exI [of _ "d # es"]) simp
qed simp

lemma find_unattached_wf:
  assumes "enis_wf nc"
  shows "find_unattached 0 nc =
    Some (if nc \<noteq> [] \<and> \<not> Attached (the (last nc)) then Some (length nc - 1, the (last nc)) else None)"
proof -
  have shift: "find_unattached k (map Some es @ [Some e]) =
      Some (if Attached e then None else Some (k + length es, e))" if "\<forall>d \<in> set es. Attached d" for k es e
    using that by (induction es arbitrary: k) auto
  show ?thesis
  proof (cases nc rule: rev_cases)
    case (snoc ps p)
    have all: "\<exists>e. nc ! i = Some e \<and> (i + 1 < length nc \<longrightarrow> Attached e)" if "i < length nc" for i
      using assms that by (auto simp: enis_wf_def)
    obtain e where e: "p = Some e" using all [of "length ps"] by (auto simp: snoc)
    have ps: "\<exists>d. q = Some d \<and> Attached d" if "q \<in> set ps" for q
    proof -
      from that obtain i where "i < length ps" "ps ! i = q" by (auto simp: in_set_conv_nth)
      with all [of i] show ?thesis by (auto simp: snoc nth_append)
    qed
    then obtain es where es: "ps = map Some es" "\<forall>d \<in> set es. Attached d"
      using attached_list [of ps] by blast
    show ?thesis using shift [OF es(2), of 0 e] by (simp add: snoc e es(1))
  qed simp
qed

lemma enis_wf_change:
  assumes "eni_change m nc nc'" "enis_wf nc" "int (length nc) \<le> m"
  shows "enis_wf nc' \<and> int (length nc') \<le> m"
  using assms(1)
proof cases
  case (attach i e)
  from find_unattached_Some [OF attach(2)] have "i < length nc" "nc ! i = Some e" by auto
  with attach assms(2,3) show ?thesis
    by (auto simp: enis_wf_def nth_list_update)
next
  case (create e)
  then have "\<forall>p \<in> set nc. \<exists>e. p = Some e \<and> Attached e" by (simp add: find_unattached_None)
  then have "\<exists>e. nc ! i = Some e \<and> Attached e" if "i < length nc" for i using that by auto
  with create assms(2) show ?thesis
    by (fastforce simp: enis_wf_def nth_append)
qed

section \<open>What a run writes\<close>

text \<open>
  The node while nobody else writes it: a read gives the newest version, an update that is
  accepted adds one version, and everything else leaves them alone. EC2 does not touch the
  node.
\<close>

definition sole_writer :: "'w eni_controller \<Rightarrow> string \<Rightarrow> ('w \<Rightarrow> node list) \<Rightarrow> bool" where
  "sole_writer c name versions \<longleftrightarrow>
     (\<forall>w r w'. nodes_get (ec_nodes c) name w = Some (r, w') \<longrightarrow>
        versions w' = versions w \<and> (\<forall>n. r = Ok n \<longrightarrow> (\<exists>vs. versions w = n # vs))) \<and>
     (\<forall>n w r w'. nodes_update (ec_nodes c) n w = Some (r, w') \<longrightarrow>
        (if (\<exists>m. r = Ok m) then \<exists>v. versions w' = n\<lparr>ResourceVersion := v\<rparr> # versions w
         else versions w' = versions w)) \<and>
     (\<forall>key. unchanging versions (ec_lister c key)) \<and>
     (\<forall>iid. unchanging versions (DescribeInstancesPages (ec_ec2 c) iid)) \<and>
     (\<forall>inp. unchanging versions (CreateNetworkInterface (ec_ec2 c) inp)) \<and>
     (\<forall>id att p. unchanging versions (ModifyNetworkInterfaceAttribute (ec_ec2 c) id att p)) \<and>
     (\<forall>iid i id. unchanging versions (AttachNetworkInterface (ec_ec2 c) iid i id)) \<and>
     (\<forall>subnet. unchanging versions (DescribeSubnets (ec_ec2 c) subnet))"

definition writes_once :: "('w \<Rightarrow> node list) \<Rightarrow> mutator \<Rightarrow> 'w \<Rightarrow> 'w \<Rightarrow> bool" where
  "writes_once versions mutate w w' \<longleftrightarrow> versions w' = versions w \<or>
     (\<exists>old vs m v. versions w = old # vs \<and> mutate old = Some m \<and>
       versions w' = m\<lparr>ResourceVersion := v\<rparr> # versions w)"

lemma sole_writer_get:
  "sole_writer c name versions \<Longrightarrow> nodes_get (ec_nodes c) name w = Some (r, w') \<Longrightarrow>
     versions w' = versions w \<and> (\<forall>n. r = Ok n \<longrightarrow> (\<exists>vs. versions w = n # vs))"
  unfolding sole_writer_def by metis

lemma sole_writer_update:
  assumes "sole_writer c name versions" "nodes_update (ec_nodes c) n w = Some (r, w')"
  shows "(\<exists>m v. r = Ok m \<and> versions w' = n\<lparr>ResourceVersion := v\<rparr> # versions w) \<or>
    (\<forall>m. r \<noteq> Ok m) \<and> versions w' = versions w"
proof -
  have "if (\<exists>m. r = Ok m) then \<exists>v. versions w' = n\<lparr>ResourceVersion := v\<rparr> # versions w
         else versions w' = versions w"
    using assms unfolding sole_writer_def by metis
  then show ?thesis by (auto split: if_splits)
qed

lemma update_loop_once:
  assumes sole: "sole_writer c name versions" and run: "update_loop (ec_nodes c) name mutate node w = Some (r, w')"
    and "versions w = node # vs"
  shows "writes_once versions mutate w w'"
proof -
  let ?nc = "ec_nodes c"
  have "?nc = ?nc \<longrightarrow> name = name \<longrightarrow> mutate = mutate \<longrightarrow> (\<forall>vs. versions w = node # vs \<longrightarrow>
    writes_once versions mutate w (snd (r, w')))"
  proof (rule update_loop.raw_induct [where P = "\<lambda>nc' name' mutate' node w r.
      nc' = ?nc \<longrightarrow> name' = name \<longrightarrow> mutate' = mutate \<longrightarrow> (\<forall>vs. versions w = node # vs \<longrightarrow>
        writes_once versions mutate w (snd r))", OF _ run], intro impI allI, goal_cases)
    case (1 f nc' name' mutate' node w r vs)
    show ?case
    proof (cases "mutate node")
      case None
      with 1 show ?thesis by (auto simp: writes_once_def)
    next
      case (Some node')
      with 1 obtain u w1 where u: "nodes_update ?nc node' w = Some (u, w1)"
        by (auto simp: bind_eq_Some_conv)
      from sole_writer_update [OF sole u] show ?thesis
      proof (elim disjE exE conjE)
        fix m v assume "u = Ok m" "versions w1 = node'\<lparr>ResourceVersion := v\<rparr> # versions w"
        moreover from this have "r = (Ok (), w1)" using 1 Some u by simp
        ultimately show ?thesis using Some 1 by (auto simp: writes_once_def)
      next
        assume no: "\<forall>m. u \<noteq> Ok m" and same: "versions w1 = versions w"
        show ?thesis
        proof (cases "\<exists>e. u = Fail e \<and> is_conflict e")
          case True
          then obtain e where e: "u = Fail e" "is_conflict e" by blast
          with 1 Some u obtain g w2 where g: "nodes_get ?nc name w1 = Some (g, w2)"
            by (auto simp: bind_eq_Some_conv)
          have w2: "versions w2 = versions w" "\<And>n. g = Ok n \<Longrightarrow> \<exists>vs. versions w2 = n # vs"
            using sole_writer_get [OF sole g] same by auto
          show ?thesis
          proof (cases g)
            case (Ok fresh)
            with 1 Some u e g have "f ?nc name mutate fresh w2 = Some r" by simp
            with 1(1) w2(2) [OF Ok] have "writes_once versions mutate w2 (snd r)" by blast
            then show ?thesis using w2(1) by (simp add: writes_once_def)
          qed (use 1 Some u e g w2 in \<open>auto simp: writes_once_def\<close>)
        next
          case False
          with 1 Some u no same show ?thesis by (cases u) (auto simp: writes_once_def)
        qed
      qed
    qed
  qed
  with assms(3) show ?thesis by simp
qed

lemma UpdateNode_once:
  assumes sole: "sole_writer c name versions" and run: "UpdateNode (ec_nodes c) name mutate w = Some (r, w')"
  shows "writes_once versions mutate w w'"
proof -
  have get: "versions x = versions w \<and> (\<forall>n. g = Ok n \<longrightarrow> (\<exists>vs. versions x = n # vs))"
    if "wrapping h (nodes_get (ec_nodes c) name) w = Some (g, x)" for h g x
    using that sole_writer_get [OF sole] by (elim wrapping_run) metis
  from run show ?thesis unfolding UpdateNode_def
  proof (cases rule: andthen_cases)
    case (Ok node w1)
    from get [OF Ok(1)] obtain vs where vs: "versions w1 = versions w" "versions w1 = node # vs" by blast
    from update_loop_once [OF sole Ok(2) vs(2)] show ?thesis unfolding writes_once_def vs(1) .
  qed (use get in \<open>auto simp: writes_once_def\<close>)
qed

subsection \<open>The changes a run may make\<close>

text \<open>What \<open>handleNode\<close> may write, given the node it read from its cache.\<close>

inductive node_change :: "node \<Rightarrow> mutator \<Rightarrow> bool" for n where
  info: "AWSInstanceInfoFromAnnotations (Annotations n) = Inr None \<Longrightarrow> marshal_info i = Inr t \<Longrightarrow>
    node_change n (set_annotation EC2InfoKey t)"
| label: "ProviderIDToAWSInstanceID (ProviderID n) = Inr iid \<Longrightarrow> go_lookup (Labels n) LabelAWSInstanceID = None \<Longrightarrow>
    node_change n (set_label LabelAWSInstanceID iid)"
| interfaces: "AWSInstanceInfoFromAnnotations (Annotations n) = Inr (Some i) \<Longrightarrow>
    InstanceENIsAvailable (InstanceType i) = Some k \<Longrightarrow>
    ENIConfigFromAnnotations (Annotations n) = Inr cfg \<Longrightarrow> eni_change (k - 1) (elems cfg) nc' \<Longrightarrow>
    marshal_enis (Some nc') = Inr t \<Longrightarrow> node_change n (set_annotation IFSKey t)"

definition writes_in :: "('w \<Rightarrow> node list) \<Rightarrow> (mutator \<Rightarrow> bool) \<Rightarrow> ('w, 'a) io \<Rightarrow> bool" where
  "writes_in versions S m \<longleftrightarrow> (\<forall>w r w'. m w = Some (r, w') \<longrightarrow>
     versions w' = versions w \<or> (\<exists>mutate. S mutate \<and> writes_once versions mutate w w'))"

lemma writes_in_unchanging: "unchanging versions m \<Longrightarrow> writes_in versions S m"
  by (auto simp: unchanging_def writes_in_def)

lemma writes_inD:
  "writes_in versions S m \<Longrightarrow> m w = Some (r, w') \<Longrightarrow>
     versions w' = versions w \<or> (\<exists>mutate. S mutate \<and> writes_once versions mutate w w')"
  unfolding writes_in_def by simp

lemma writes_in_basic [simp]:
  "writes_in versions S (ret a)" "writes_in versions S (throw e)" "writes_in versions S (go_panic s)"
  by (simp_all add: writes_in_unchanging del: ret_def throw_def go_panic_def)

lemma writes_in_andthen:
  assumes "unchanging versions m" "\<And>w a w'. m w = Some (Ok a, w') \<Longrightarrow> writes_in versions S (f a)"
  shows "writes_in versions S (andthen m f)"
  unfolding writes_in_def
proof (intro allI impI)
  fix w r w' assume "andthen m f w = Some (r, w')"
  then show "versions w' = versions w \<or> (\<exists>mutate. S mutate \<and> writes_once versions mutate w w')"
  proof (cases rule: andthen_cases)
    case (Ok a w1)
    have w1: "versions w1 = versions w" by (rule unchangingD [OF assms(1) Ok(1)])
    from writes_inD [OF assms(2) [OF Ok(1)] Ok(2)] show ?thesis unfolding writes_once_def w1 .
  qed (use unchangingD [OF assms(1)] in auto)
qed

lemma writes_in_wrapping:
  assumes "writes_in versions S m" shows "writes_in versions S (wrapping g m)"
  unfolding writes_in_def
proof (intro allI impI)
  fix w r w' assume "wrapping g m w = Some (r, w')"
  then obtain r0 where "m w = Some (r0, w')" by (rule wrapping_run)
  then show "versions w' = versions w \<or> (\<exists>mutate. S mutate \<and> writes_once versions mutate w w')"
    by (rule writes_inD [OF assms])
qed

lemma writes_in_ignoring:
  assumes "writes_in versions S m" shows "writes_in versions S (ignoring m)"
  unfolding writes_in_def
proof (intro allI impI)
  fix w r w' assume "ignoring m w = Some (r, w')"
  then obtain r0 where "m w = Some (r0, w')" by (rule ignoring_run)
  then show "versions w' = versions w \<or> (\<exists>mutate. S mutate \<and> writes_once versions mutate w w')"
    by (rule writes_inD [OF assms])
qed

lemma writes_in_UpdateNode:
  assumes "sole_writer c name versions" "S mutate"
  shows "writes_in versions S (UpdateNode (ec_nodes c) name mutate)"
  unfolding writes_in_def using assms(2) UpdateNode_once [OF assms(1)] by metis

lemma unchanging_secondary_ips [simp]: "unchanging v (secondary_ips ps primary ips)"
  by (induction ps arbitrary: ips) (auto intro!: unchanging_andthen simp del: ret_def)

lemma unchanging_deref_all [simp]: "unchanging v (deref_all ps xs)"
  by (induction ps arbitrary: xs) (auto intro!: unchanging_andthen simp del: ret_def)

lemma sole_writer_ec2:
  assumes "sole_writer c name versions"
  shows "unchanging versions (ec_lister c key)" "unchanging versions (DescribeInstancesPages (ec_ec2 c) iid)"
    "unchanging versions (CreateNetworkInterface (ec_ec2 c) inp)"
    "unchanging versions (ModifyNetworkInterfaceAttribute (ec_ec2 c) eniID att p)"
    "unchanging versions (AttachNetworkInterface (ec_ec2 c) iid i eniID)"
    "unchanging versions (DescribeSubnets (ec_ec2 c) subnet)"
  using assms unfolding sole_writer_def by blast+

lemma unchanging_calls:
  assumes "sole_writer c name versions"
  shows "unchanging versions (getInstance c nm iid)" "unchanging versions (createENI c nm info numIPs)"
    "unchanging versions (attachENI c nm iid e)"
  using sole_writer_ec2 [OF assms]
  by (auto simp: getInstance_def createENI_def attachENI_def Let_def intro!: unchanging_andthen
      simp del: ret_def throw_def)

lemma createENI_unattached: "createENI c nm info numIPs w = Some (Ok e, w') \<Longrightarrow> \<not> Attached e"
  by (auto simp: createENI_def andthen_eq_Ok)

lemma save_instance_info_writes:
  assumes "sole_writer c (node_Name n) versions" "AWSInstanceInfoFromAnnotations (Annotations n) = Inr None"
  shows "writes_in versions (node_change n) (save_instance_info c n iid)"
proof -
  note calls = unchanging_calls [OF assms(1)] sole_writer_ec2 [OF assms(1)]
  have stored: "writes_in versions (node_change n)
      (andthen (wrapping g (of_sum (marshal_info i))) (\<lambda>t. wrapping h
        (UpdateNode (ec_nodes c) (node_Name n) (set_annotation EC2InfoKey t))))" for i g h
    by (intro writes_in_andthen writes_in_wrapping writes_in_UpdateNode [OF assms(1)] unchanging_wrapping
        unchanging_of_sum node_change.info [OF assms(2)]) (auto simp: of_sum_Ok)
  show ?thesis
    unfolding save_instance_info_def Let_def
    by (intro writes_in_andthen unchanging_wrapping unchanging_deref unchanging_deref_all calls)
      (auto intro!: writes_in_andthen stored simp del: throw_def split: option.splits)
qed

lemma configure_enis_writes:
  assumes "sole_writer c (node_Name n) versions" "AWSInstanceInfoFromAnnotations (Annotations n) = Inr (Some i)"
    and "ProviderIDToAWSInstanceID (ProviderID n) = Inr iid"
  shows "writes_in versions (node_change n) (configure_enis c n iid i)"
proof -
  show ?thesis
  proof (cases "InstanceENIsAvailable (InstanceType i)")
    case None
    then show ?thesis by (simp add: configure_enis_def del: throw_def)
  next
    case (Some k)
    then obtain numIPs where ips: "InstanceIPsAvailable (InstanceType i) = Some numIPs" using ips_if_enis by blast
    have attach: "writes_in versions (node_change n) (attach_one c n iid nc j e)"
      if cfg: "ENIConfigFromAnnotations (Annotations n) = Inr cfg" and "nc = elems cfg"
        and find: "find_unattached 0 nc = Some (Some (j, e))" for cfg nc j e
      unfolding attach_one_def
      by (intro writes_in_andthen writes_in_ignoring writes_in_UpdateNode [OF assms(1)]
          unchanging_calls [OF assms(1)] unchanging_of_sum
          node_change.interfaces [OF assms(2) Some cfg eni_change.attach [OF find [unfolded that(2)]]])
        (simp add: of_sum_Ok that(2))
    have create: "writes_in versions (node_change n) (create_one c n i numIPs nc)"
      if cfg: "ENIConfigFromAnnotations (Annotations n) = Inr cfg" and "nc = elems cfg"
        and find: "find_unattached 0 nc = Some None" and "int (length nc) < k - 1" for cfg nc
      unfolding create_one_def Let_def
    proof (intro writes_in_andthen writes_in_wrapping writes_in_UpdateNode [OF assms(1)]
          unchanging_calls [OF assms(1)] unchanging_of_sum)
      fix w e w' t x x'
      assume e: "createENI c (node_Name n) i numIPs w = Some (Ok e, w')"
        and t: "of_sum (marshal_enis (Some (nc @ [Some (e\<lparr>Index := int (length nc) + 1, CIDRBlock := SubnetCIDR i\<rparr>)]))) x
          = Some (Ok t, x')"
      have "eni_change (k - 1) (elems cfg)
          (nc @ [Some (e\<lparr>Index := int (length nc) + 1, CIDRBlock := SubnetCIDR i\<rparr>)])"
        using createENI_unattached [OF e] find that(4) unfolding that(2) by (intro eni_change.create) simp_all
      from node_change.interfaces [OF assms(2) Some cfg this] t
      show "node_change n (set_annotation IFSKey t)" by (simp add: of_sum_Ok)
    qed
    show ?thesis
      unfolding configure_enis_def Some ips option.case Let_def
      by (auto intro!: writes_in_andthen unchanging_wrapping writes_in_wrapping writes_in_UpdateNode [OF assms(1)]
          node_change.label [OF assms(3)] attach create
          simp: of_sum_Ok simp del: ret_def go_panic_def split: option.splits prod.splits)
  qed
qed

text \<open>
  Whatever EC2 and the API server answer, a run of the handler adds at most one version
  of the node, and that version differs from the one before it by one of three changes: the
  instance data, the instance label, or one step of the interface list. That also holds of
  runs that end in an error or a panic.
\<close>

theorem one_change_per_run:
  assumes "sole_writer c (node_Name n) versions"
    and "ec_lister c key w = Some (Ok n, w1)" "handleNode c key w = Some (r, w')"
  shows "versions w' = versions w \<or> (\<exists>mutate old vs m v. node_change n mutate \<and>
    versions w = old # vs \<and> mutate old = Some m \<and> versions w' = m\<lparr>ResourceVersion := v\<rparr> # versions w)"
proof -
  have w1: "versions w1 = versions w" by (rule unchangingD [OF sole_writer_ec2(1) [OF assms(1)] assms(2)])
  let ?m = "if ProviderID n = [] then ret ()
     else andthen (of_sum (ProviderIDToAWSInstanceID (ProviderID n))) (\<lambda>iid.
       andthen (wrapping (\<lambda>e. Wrapf e ''Error unpacking instance info from annotations on node %s'' [node_Name n])
         (of_sum (AWSInstanceInfoFromAnnotations (Annotations n)))) (\<lambda>info.
       case info of None \<Rightarrow> save_instance_info c n iid | Some i \<Rightarrow> configure_enis c n iid i))"
  have "writes_in versions (node_change n) ?m"
    by (auto intro!: writes_in_andthen unchanging_wrapping
        save_instance_info_writes [OF assms(1)] configure_enis_writes [OF assms(1)]
        simp: of_sum_Ok simp del: ret_def split: option.splits)
  moreover have "?m w1 = Some (r, w')" using assms(2,3) by (simp add: handleNode_def)
  ultimately have "versions w' = versions w1 \<or> (\<exists>mutate. node_change n mutate \<and> writes_once versions mutate w1 w')"
    by (rule writes_inD)
  then show ?thesis unfolding writes_once_def w1 by blast
qed

end
