(* ===== verification/Eni_Convergence.thy ===== *)
theory Eni_Convergence
  imports Eni_Theorems
begin

text \<open>
  Liveness of the ENI controller: with an EC2 and an API server that answer (the hypothesis
  \<open>cooperative\<close>) and a cache that is up to date at each run, a new node has all its
  interfaces after \<open>2 + 2 * m\<close> runs, where \<open>m\<close> is what its instance type allows besides the
  primary interface: one run for the instance data, one for the label, and for every
  interface one to create and one to attach it. From then on a run changes nothing.
\<close>

section \<open>A cooperative world\<close>

definition good_interface :: "ec2_interface \<Rightarrow> bool" where
  "good_interface ni \<longleftrightarrow> ni_NetworkInterfaceId ni \<noteq> None \<and> ni_MacAddress ni \<noteq> None \<and>
     (\<exists>a. ni_PrivateIpAddress ni = Some a \<and> is_v4 (parse_ip a)) \<and>
     (\<forall>p \<in> set (ni_PrivateIpAddresses ni). \<exists>a. p = Some a \<and> is_v4 (parse_ip a))"

definition cooperative :: "'w eni_controller \<Rightarrow> string \<Rightarrow> string \<Rightarrow> ('w \<Rightarrow> node) \<Rightarrow> bool" where
  "cooperative c name itype cur \<longleftrightarrow>
     (\<forall>w. ec_lister c name w = Some (Ok (cur w), w)) \<and>
     (\<forall>w. nodes_get (ec_nodes c) name w = Some (Ok (cur w), w)) \<and>
     (\<forall>n w. ResourceVersion n = ResourceVersion (cur w) \<longrightarrow>
        (\<exists>m v w'. nodes_update (ec_nodes c) n w = Some (Ok m, w') \<and> cur w' = n\<lparr>ResourceVersion := v\<rparr>)) \<and>
     (\<forall>inp w. \<exists>ni w'. CreateNetworkInterface (ec_ec2 c) inp w = Some (Ok (Some ni), w') \<and>
        cur w' = cur w \<and> good_interface ni) \<and>
     (\<forall>iid i eniID w. \<exists>att w'. AttachNetworkInterface (ec_ec2 c) iid i eniID w = Some (Ok att, w') \<and> cur w' = cur w) \<and>
     (\<forall>eniID att p w. \<exists>w'. ModifyNetworkInterfaceAttribute (ec_ec2 c) eniID att p w = Some (Ok (), w') \<and> cur w' = cur w) \<and>
     (\<forall>iid w. \<exists>subnet sgs w'. DescribeInstancesPages (ec_ec2 c) iid w =
        Some (Ok [[[Some \<lparr>inst_InstanceType = Some itype, inst_SubnetId = Some subnet,
          inst_SecurityGroups = map Some sgs\<rparr>]]], w') \<and> cur w' = cur w) \<and>
     (\<forall>subnet w. \<exists>block ip cb w'. DescribeSubnets (ec_ec2 c) subnet w = Some (Ok [Some block], w') \<and>
        cur w' = cur w \<and> parse_cidr block = Some (ip, cb) \<and> sendable_net cb)"

lemma cooperative_calls:
  assumes "cooperative c name itype cur"
  shows "ec_lister c name w = Some (Ok (cur w), w)" "nodes_get (ec_nodes c) name w = Some (Ok (cur w), w)"
    and "ResourceVersion n = ResourceVersion (cur w) \<Longrightarrow>
      \<exists>m v w'. nodes_update (ec_nodes c) n w = Some (Ok m, w') \<and> cur w' = n\<lparr>ResourceVersion := v\<rparr>"
    and "\<exists>ni w'. CreateNetworkInterface (ec_ec2 c) inp w = Some (Ok (Some ni), w') \<and> cur w' = cur w \<and> good_interface ni"
    and "\<exists>att w'. AttachNetworkInterface (ec_ec2 c) iid i eniID w = Some (Ok att, w') \<and> cur w' = cur w"
    and "\<exists>w'. ModifyNetworkInterfaceAttribute (ec_ec2 c) eniID att p w = Some (Ok (), w') \<and> cur w' = cur w"
    and "\<exists>subnet sgs w'. DescribeInstancesPages (ec_ec2 c) iid w =
        Some (Ok [[[Some \<lparr>inst_InstanceType = Some itype, inst_SubnetId = Some subnet,
          inst_SecurityGroups = map Some sgs\<rparr>]]], w') \<and> cur w' = cur w"
    and "\<exists>block ip cb w'. DescribeSubnets (ec_ec2 c) subnet w = Some (Ok [Some block], w') \<and>
        cur w' = cur w \<and> parse_cidr block = Some (ip, cb) \<and> sendable_net cb"
  using assms unfolding cooperative_def by blast+

lemma cooperative_UpdateNode:
  assumes coop: "cooperative c name itype cur" and "mutate (cur w) = Some m" "keeps_version mutate"
  shows "\<exists>v w'. UpdateNode (ec_nodes c) name mutate w = Some (Ok (), w') \<and> cur w' = m\<lparr>ResourceVersion := v\<rparr>"
proof -
  have "ResourceVersion m = ResourceVersion (cur w)" using assms(2,3) by (simp add: keeps_version_def)
  from cooperative_calls(3) [OF coop this] obtain r v w' where
    "nodes_update (ec_nodes c) m w = Some (Ok r, w')" "cur w' = m\<lparr>ResourceVersion := v\<rparr>" by blast
  then show ?thesis
    using assms(2) cooperative_calls(2) [OF coop]
    by (intro exI [of _ v] exI [of _ w']) (simp add: UpdateNode_def update_loop.simps)
qed

lemma keeps_version_set [simp]: "keeps_version (set_annotation key v)" "keeps_version (set_label key v)"
  by (auto simp: keeps_version_def set_annotation_def set_label_def split: option.splits)

lemma secondary_ips_good:
  "\<forall>p \<in> set ps. \<exists>a. p = Some a \<and> is_v4 (parse_ip a) \<Longrightarrow> list_all is_v4 ips \<Longrightarrow>
     \<exists>js. secondary_ips ps (Some prim) ips w = Some (Ok js, w) \<and> list_all is_v4 js"
  by (induction ps arbitrary: ips) (auto simp: deref_def)

lemma cooperative_createENI:
  assumes "cooperative c name itype cur"
  shows "\<exists>e w' ips. createENI c nm info k w = Some (Ok e, w') \<and> cur w' = cur w \<and> \<not> Attached e \<and>
    sendable_ip (InterfaceIP e) \<and> IPs e = Some ips \<and> list_all is_v4 ips"
proof -
  let ?inp = "\<lparr>ci_Description = ''K8S ENI for node '' @ nm, ci_Groups = elems (SecurityGroupIDs info),
    ci_SubnetId = SubnetID info, ci_SecondaryPrivateIpAddressCount = k - 1\<rparr>"
  obtain ni w' where ni: "CreateNetworkInterface (ec_ec2 c) ?inp w = Some (Ok (Some ni), w')"
    "cur w' = cur w" "good_interface ni"
    using cooperative_calls(4) [OF assms] by blast
  then obtain addr where addr: "ni_PrivateIpAddress ni = Some addr" "is_v4 (parse_ip addr)"
    by (auto simp: good_interface_def)
  obtain js where js: "secondary_ips (ni_PrivateIpAddresses ni) (Some addr) [] w' = Some (Ok js, w')" "list_all is_v4 js"
    using secondary_ips_good [of "ni_PrivateIpAddresses ni" "[]" addr w'] ni(3) by (auto simp: good_interface_def)
  show ?thesis
    using ni addr js by (auto simp: createENI_def deref_def good_interface_def sendable_ip_def)
qed

section \<open>Nodes on their way\<close>

definition interfaces_of :: "node \<Rightarrow> eni option list" where
  "interfaces_of n = (case ENIConfigFromAnnotations (Annotations n) of Inl e \<Rightarrow> [] | Inr cfg \<Rightarrow> elems cfg)"

definition is_attached :: "eni option \<Rightarrow> bool" where
  "is_attached p \<longleftrightarrow> (\<exists>e. p = Some e \<and> Attached e)"

text \<open>An interface that the daemon can configure, and the instance data it is made from.\<close>

definition usable_eni :: "eni option \<Rightarrow> bool" where
  "usable_eni p \<longleftrightarrow> sendable_eni p \<and> (\<exists>e. p = Some e \<and> CIDRBlock e \<noteq> None \<and> (\<forall>ip \<in> set (elems (IPs e)). is_v4 ip))"

definition usable_info :: "string \<Rightarrow> aws_instance_info \<Rightarrow> bool" where
  "usable_info itype i \<longleftrightarrow> sendable_info i \<and> SubnetCIDR i \<noteq> None \<and> InstanceType i = itype"

lemma usable_sendable: "list_all usable_eni nc \<Longrightarrow> list_all sendable_eni nc"
  by (simp add: list_all_iff usable_eni_def)

lemma usable_norm: "usable_eni p \<Longrightarrow> usable_eni (map_option eni_norm p)"
proof -
  assume p: "usable_eni p"
  then obtain e where e: "p = Some e" "CIDRBlock e \<noteq> None" "\<forall>ip \<in> set (elems (IPs e)). is_v4 ip"
    by (auto simp: usable_eni_def)
  have "sendable_eni (map_option eni_norm p)" using p eni_json.ok_norm by (simp add: usable_eni_def)
  with e show ?thesis by (cases "IPs e") (auto simp: usable_eni_def eni_norm_def is_v4_ip_norm)
qed

definition node_good :: "string \<Rightarrow> int \<Rightarrow> node \<Rightarrow> bool" where
  "node_good itype k n \<longleftrightarrow>
     ProviderID n \<noteq> [] \<and> (\<exists>iid. ProviderIDToAWSInstanceID (ProviderID n) = Inr iid) \<and>
     Labels n \<noteq> None \<and> Annotations n \<noteq> None \<and>
     (go_lookup (Annotations n) EC2InfoKey = None \<or>
       (\<exists>i. AWSInstanceInfoFromAnnotations (Annotations n) = Inr (Some i) \<and> usable_info itype i)) \<and>
     (\<exists>cfg. ENIConfigFromAnnotations (Annotations n) = Inr cfg) \<and>
     list_all usable_eni (interfaces_of n) \<and> enis_wf (interfaces_of n) \<and> int (length (interfaces_of n)) < k"

text \<open>The number of runs left.\<close>

definition todo :: "int \<Rightarrow> node \<Rightarrow> nat" where
  "todo k n =
     (if go_lookup (Annotations n) EC2InfoKey = None then 1 else 0) +
     (if go_lookup (Labels n) LabelAWSInstanceID = None then 1 else 0) +
     (2 * nat (k - 1) - length (interfaces_of n) - length (filter is_attached (interfaces_of n)))"

lemma attached_all: "\<forall>p \<in> set nc. is_attached p \<Longrightarrow> length (filter is_attached nc) = length nc"
  by (simp add: filter_id_conv)

lemma wf_cases:
  assumes "enis_wf nc"
  obtains (all) "find_unattached 0 nc = Some None" "\<forall>p \<in> set nc. is_attached p"
    | (last) ps e where "nc = ps @ [Some e]" "\<not> Attached e" "\<forall>p \<in> set ps. is_attached p"
      "find_unattached 0 nc = Some (Some (length ps, e))" "Index e = int (length ps) + 1"
proof (cases "nc \<noteq> [] \<and> \<not> Attached (the (List.last nc))")
  case True
  then obtain ps p where nc: "nc = ps @ [p]" by (metis append_butlast_last_id)
  have at: "\<exists>e. nc ! i = Some e \<and> Index e = int i + 1 \<and> (i + 1 < length nc \<longrightarrow> Attached e)" if "i < length nc" for i
    using assms that unfolding enis_wf_def by blast
  obtain e where e: "p = Some e" "Index e = int (length ps) + 1" using at [of "length ps"] by (auto simp: nc)
  have "is_attached q" if "q \<in> set ps" for q
  proof -
    from that obtain i where "i < length ps" "ps ! i = q" by (auto simp: in_set_conv_nth)
    with at [of i] show ?thesis by (auto simp: nc nth_append is_attached_def)
  qed
  with True e find_unattached_wf [OF assms] show thesis
    by (intro last [of ps e]) (auto simp: nc)
next
  case False
  then have "find_unattached 0 nc = Some None" using find_unattached_wf [OF assms] by auto
  with all show thesis by (simp add: find_unattached_None is_attached_def)
qed

lemma enis_wf_norm [simp]: "enis_wf (map (map_option eni_norm) nc) = enis_wf nc"
  by (fastforce simp: enis_wf_def eni_norm_def)

lemma is_attached_norm [simp]: "is_attached (map_option eni_norm p) = is_attached p"
  by (cases p) (simp_all add: is_attached_def eni_norm_def)

lemma filter_attached_norm [simp]:
  "length (filter is_attached (map (map_option eni_norm) nc)) = length (filter is_attached nc)"
  by (induction nc) simp_all

section \<open>One run\<close>

lemma AWSInstanceInfo_none:
  "go_lookup m EC2InfoKey = None \<Longrightarrow> AWSInstanceInfoFromAnnotations m = Inr None"
  by (simp add: AWSInstanceInfoFromAnnotations_def)

lemma annotation_keys: "IFSKey \<noteq> EC2InfoKey" "EC2InfoKey \<noteq> IFSKey"
  by (simp_all add: IFSKey_def EC2InfoKey_def)

lemma set_annotation_Some:
  "Annotations n \<noteq> None \<Longrightarrow> \<exists>f. Annotations n = Some f \<and> set_annotation key v n = Some (n\<lparr>Annotations := Some (f(key \<mapsto> v))\<rparr>)"
  by (auto simp: set_annotation_def go_assign_def)

text \<open>The handler on a node that is ready for the big branches.\<close>

lemma handleNode_info:
  assumes "cooperative c name itype cur" "ProviderID (cur w) \<noteq> []"
    and "ProviderIDToAWSInstanceID (ProviderID (cur w)) = Inr iid"
    and "AWSInstanceInfoFromAnnotations (Annotations (cur w)) = Inr info"
  shows "handleNode c name w =
    (case info of None \<Rightarrow> save_instance_info c (cur w) iid w | Some i \<Rightarrow> configure_enis c (cur w) iid i w)"
  using assms cooperative_calls(1) [OF assms(1)]
  by (cases info) (simp_all add: handleNode_def of_sum_def)

lemma run_saves_info:
  assumes coop: "cooperative c name itype cur" and good: "node_good itype k (cur w)" and "node_Name (cur w) = name"
    and none: "go_lookup (Annotations (cur w)) EC2InfoKey = None"
  shows "\<exists>w'. handleNode c name w = Some (Ok (), w') \<and> node_good itype k (cur w') \<and>
    node_Name (cur w') = name \<and> ProviderID (cur w') = ProviderID (cur w) \<and>
    todo k (cur w) = Suc (todo k (cur w'))"
proof -
  obtain iid where iid: "ProviderIDToAWSInstanceID (ProviderID (cur w)) = Inr iid" "ProviderID (cur w) \<noteq> []"
    using good by (auto simp: node_good_def)
  obtain f where f: "Annotations (cur w) = Some f" using good by (auto simp: node_good_def)
  obtain subnet sgs w1 where w1: "DescribeInstancesPages (ec_ec2 c) iid w =
        Some (Ok [[[Some \<lparr>inst_InstanceType = Some itype, inst_SubnetId = Some subnet,
          inst_SecurityGroups = map Some sgs\<rparr>]]], w1)" "cur w1 = cur w"
    using cooperative_calls(7) [OF coop] by blast
  obtain block ip cb w2 where w2: "DescribeSubnets (ec_ec2 c) subnet w1 = Some (Ok [Some block], w2)"
    "cur w2 = cur w1" "parse_cidr block = Some (ip, cb)" "sendable_net cb"
    using cooperative_calls(8) [OF coop] by blast
  have sgs: "deref_all (map Some sgs) xs v = Some (Ok (xs @ sgs), v)" for xs and v :: 'a
    by (induction sgs arbitrary: xs) (simp_all add: deref_def)
  let ?info = "\<lparr>InstanceType = itype, SubnetID = subnet, SubnetCIDR = Some cb,
    SecurityGroupIDs = append_slice None sgs\<rparr>"
  have ok: "sendable_info ?info" using w2(4) by (simp add: sendable_info_def)
  obtain t where t: "marshal_info ?info = Inr t"
    using info_json.printed.encE [OF ok] by (auto simp: marshal_info_def)
  let ?m = "(cur w)\<lparr>Annotations := Some (f(EC2InfoKey \<mapsto> t))\<rparr>"
  have "set_annotation EC2InfoKey t (cur w2) = Some ?m"
    using w1(2) w2(2) f by (simp add: set_annotation_def go_assign_def)
  from cooperative_UpdateNode [OF coop this keeps_version_set(1)] obtain v w3 where
    w3: "UpdateNode (ec_nodes c) name (set_annotation EC2InfoKey t) w2 = Some (Ok (), w3)"
      "cur w3 = ?m\<lparr>ResourceVersion := v\<rparr>" by blast
  have run: "handleNode c name w = Some (Ok (), w3)"
    unfolding handleNode_info [OF coop iid(2,1) AWSInstanceInfo_none [OF none]] option.case
    using w1(1) w2 t w3(1) assms(3)
    by (simp add: save_instance_info_def getInstance_def deref_def sgs of_sum_def Let_def)
  have info: "AWSInstanceInfoFromAnnotations (Annotations (cur w3)) = Inr (Some (info_norm ?info))"
    by (rule AWSInstanceInfo_of_marshal [OF ok t]) (simp add: w3(2) go_lookup_def)
  have "usable_info itype (info_norm ?info)"
    using info_json.ok_norm [OF ok] by (simp add: usable_info_def) (simp add: info_norm_def)
  moreover have "ENIConfigFromAnnotations (Annotations (cur w3)) = ENIConfigFromAnnotations (Annotations (cur w))"
    by (simp add: ENIConfigFromAnnotations_def w3(2) f go_lookup_def annotation_keys)
  ultimately have "node_good itype k (cur w3)" "todo k (cur w) = Suc (todo k (cur w3))"
    using good none info
    by (auto simp: node_good_def todo_def interfaces_of_def w3(2) go_lookup_def)
  with run show ?thesis using assms(3) w3(2) by auto
qed

text \<open>The rest of the handler, on a node whose instance data is stored.\<close>

definition ready_step ::
  "'w eni_controller \<Rightarrow> int \<Rightarrow> node \<Rightarrow> string \<Rightarrow> aws_instance_info \<Rightarrow> int \<Rightarrow> ('w, unit) io" where
  "ready_step c k n iid i numIPs =
     (if go_lookup (Labels n) LabelAWSInstanceID = None then
        wrapping (\<lambda>e. Wrapf e ''Error updating node %s'' [node_Name n])
          (UpdateNode (ec_nodes c) (node_Name n) (set_label LabelAWSInstanceID iid))
      else case find_unattached 0 (interfaces_of n) of
        None \<Rightarrow> go_panic ''nil pointer dereference''
      | Some (Some (j, e)) \<Rightarrow> attach_one c n iid (interfaces_of n) j e
      | Some None \<Rightarrow>
          if int (length (interfaces_of n)) < k - 1
          then create_one c n i numIPs (interfaces_of n) else ret ())"

lemma good_info:
  assumes "cooperative c name itype cur" "node_good itype k (cur w)" "InstanceENIsAvailable itype = Some k"
    and "go_lookup (Annotations (cur w)) EC2InfoKey \<noteq> None"
  obtains iid i numIPs where "usable_info itype i" "handleNode c name w = ready_step c k (cur w) iid i numIPs w"
proof -
  obtain iid i cfg where h: "ProviderIDToAWSInstanceID (ProviderID (cur w)) = Inr iid" "ProviderID (cur w) \<noteq> []"
    "AWSInstanceInfoFromAnnotations (Annotations (cur w)) = Inr (Some i)" "usable_info itype i" "InstanceType i = itype"
    "ENIConfigFromAnnotations (Annotations (cur w)) = Inr cfg"
    using assms(2,4) by (auto simp: node_good_def usable_info_def)
  obtain numIPs where ips: "InstanceIPsAvailable itype = Some numIPs" using ips_if_enis [OF assms(3)] by blast
  have ifs: "interfaces_of (cur w) = elems cfg" by (simp add: interfaces_of_def h(6))
  have "handleNode c name w = ready_step c k (cur w) iid i numIPs w"
    using handleNode_info [OF assms(1) h(2,1,3)] h ips unfolding ready_step_def ifs
    by (simp add: configure_enis_def assms(3) of_sum_def Let_def)
  with h(4) show thesis by (rule that)
qed

lemma run_labels:
  assumes coop: "cooperative c name itype cur" and good: "node_good itype k (cur w)" and "node_Name (cur w) = name"
    and "InstanceENIsAvailable itype = Some k"
    and info: "go_lookup (Annotations (cur w)) EC2InfoKey \<noteq> None"
    and none: "go_lookup (Labels (cur w)) LabelAWSInstanceID = None"
  shows "\<exists>w'. handleNode c name w = Some (Ok (), w') \<and> node_good itype k (cur w') \<and>
    node_Name (cur w') = name \<and> ProviderID (cur w') = ProviderID (cur w) \<and>
    todo k (cur w) = Suc (todo k (cur w'))"
proof -
  obtain iid i numIPs where "handleNode c name w = ready_step c k (cur w) iid i numIPs w"
    by (rule good_info [OF coop good assms(4) info])
  with none have
    run: "handleNode c name w = wrapping (\<lambda>e. Wrapf e ''Error updating node %s'' [node_Name (cur w)])
      (UpdateNode (ec_nodes c) (node_Name (cur w)) (set_label LabelAWSInstanceID iid)) w"
    by (simp add: ready_step_def)
  obtain f where f: "Labels (cur w) = Some f" using good by (auto simp: node_good_def)
  let ?m = "(cur w)\<lparr>Labels := Some (f(LabelAWSInstanceID \<mapsto> iid))\<rparr>"
  have "set_label LabelAWSInstanceID iid (cur w) = Some ?m"
    using f by (simp add: set_label_def go_assign_def)
  from cooperative_UpdateNode [OF coop this keeps_version_set(2)] obtain v w' where
    w': "UpdateNode (ec_nodes c) name (set_label LabelAWSInstanceID iid) w = Some (Ok (), w')"
      "cur w' = ?m\<lparr>ResourceVersion := v\<rparr>" by blast
  have "handleNode c name w = Some (Ok (), w')" using run w'(1) assms(3) by simp
  moreover have "node_good itype k (cur w')" "todo k (cur w) = Suc (todo k (cur w'))"
    using good none by (auto simp: node_good_def todo_def interfaces_of_def w'(2) go_lookup_def)
  ultimately show ?thesis using assms(3) w'(2) by auto
qed

text \<open>A node whose interface annotation has been replaced by a good list.\<close>

lemma store_interfaces:
  assumes coop: "cooperative c name itype cur" and good: "node_good itype k (cur w)"
    and same: "cur w1 = cur w" and nc: "list_all usable_eni nc" "enis_wf nc" "int (length nc) < k"
  obtains t v w' where "marshal_enis (Some nc) = Inr t"
    "UpdateNode (ec_nodes c) name (set_annotation IFSKey t) w1 = Some (Ok (), w')"
    "node_good itype k (cur w')" "node_Name (cur w') = node_Name (cur w)"
    "ProviderID (cur w') = ProviderID (cur w)"
    "interfaces_of (cur w') = map (map_option eni_norm) nc"
    "go_lookup (Annotations (cur w')) EC2InfoKey = go_lookup (Annotations (cur w)) EC2InfoKey"
    "go_lookup (Labels (cur w')) LabelAWSInstanceID = go_lookup (Labels (cur w)) LabelAWSInstanceID"
proof -
  obtain f where f: "Annotations (cur w) = Some f" using good by (auto simp: node_good_def)
  have ok: "list_all sendable_eni (elems (Some nc))" using usable_sendable [OF nc(1)] by simp
  obtain t where t: "marshal_enis (Some nc) = Inr t"
    using enis_json.printed.encE [OF ok] by (auto simp: marshal_enis_def)
  let ?m = "(cur w)\<lparr>Annotations := Some (f(IFSKey \<mapsto> t))\<rparr>"
  have "set_annotation IFSKey t (cur w1) = Some ?m"
    using f by (simp add: same set_annotation_def go_assign_def)
  from cooperative_UpdateNode [OF coop this keeps_version_set(1)] obtain v w' where
    w': "UpdateNode (ec_nodes c) name (set_annotation IFSKey t) w1 = Some (Ok (), w')"
      "cur w' = ?m\<lparr>ResourceVersion := v\<rparr>" by blast
  have cfg: "ENIConfigFromAnnotations (Annotations (cur w')) = Inr (map_option (map (map_option eni_norm)) (Some nc))"
    by (rule ENIConfig_of_marshal [OF ok t]) (simp add: w'(2) go_lookup_def)
  then have ifs: "interfaces_of (cur w') = map (map_option eni_norm) nc" by (simp add: interfaces_of_def)
  have info: "go_lookup (Annotations (cur w')) EC2InfoKey = go_lookup (Annotations (cur w)) EC2InfoKey"
    by (simp add: w'(2) f go_lookup_def annotation_keys)
  then have "AWSInstanceInfoFromAnnotations (Annotations (cur w')) = AWSInstanceInfoFromAnnotations (Annotations (cur w))"
    by (simp add: AWSInstanceInfoFromAnnotations_def)
  moreover have "list_all usable_eni (map (map_option eni_norm) nc)"
    using nc(1) usable_norm by (auto simp: list_all_iff)
  ultimately have "node_good itype k (cur w')"
    using good cfg ifs info nc(2,3) by (simp add: node_good_def) (simp add: w'(2))
  then show thesis using that t w'(1) ifs info by (simp add: w'(2))
qed

lemma run_attaches:
  assumes coop: "cooperative c name itype cur" and good: "node_good itype k (cur w)" and name: "node_Name (cur w) = name"
    and "InstanceENIsAvailable itype = Some k"
    and info: "go_lookup (Annotations (cur w)) EC2InfoKey \<noteq> None"
    and label: "go_lookup (Labels (cur w)) LabelAWSInstanceID \<noteq> None"
    and last: "interfaces_of (cur w) = ps @ [Some e]" "\<not> Attached e" "\<forall>p \<in> set ps. is_attached p"
      "find_unattached 0 (interfaces_of (cur w)) = Some (Some (length ps, e))"
  shows "\<exists>w'. handleNode c name w = Some (Ok (), w') \<and> node_good itype k (cur w') \<and>
    node_Name (cur w') = name \<and> ProviderID (cur w') = ProviderID (cur w) \<and>
    todo k (cur w) = Suc (todo k (cur w'))"
proof -
  obtain iid i numIPs where "handleNode c name w = ready_step c k (cur w) iid i numIPs w"
    by (rule good_info [OF coop good assms(4) info])
  moreover obtain l where "go_lookup (Labels (cur w)) LabelAWSInstanceID = Some l" using label by blast
  ultimately have
    run: "handleNode c name w = attach_one c (cur w) iid (interfaces_of (cur w)) (length ps) e w"
    using last(4) by (simp add: ready_step_def)
  obtain att w1 where w1: "AttachNetworkInterface (ec_ec2 c) iid (Index e) (EniID e) w = Some (Ok att, w1)" "cur w1 = cur w"
    using cooperative_calls(5) [OF coop] by blast
  obtain w2 where w2: "ModifyNetworkInterfaceAttribute (ec_ec2 c) (EniID e) att True w1 = Some (Ok (), w2)" "cur w2 = cur w1"
    using cooperative_calls(6) [OF coop] by blast
  let ?nc = "ps @ [Some (e\<lparr>Attached := True\<rparr>)]"
  have wf: "enis_wf (ps @ [Some e])" "list_all usable_eni (ps @ [Some e])" "int (length ps) + 1 < k"
    using good by (simp_all add: node_good_def last(1))
  have "eni_change k (ps @ [Some e]) ((ps @ [Some e])[length ps := Some (e\<lparr>Attached := True\<rparr>)])"
    using last(1,4) by (intro eni_change.attach) simp
  from enis_wf_change [OF this wf(1)] wf(3) have "enis_wf ?nc" by simp
  moreover have "list_all usable_eni ?nc" using wf(2) by (simp add: usable_eni_def sendable_eni_def)
  ultimately obtain t w' where w': "marshal_enis (Some ?nc) = Inr t"
    "UpdateNode (ec_nodes c) name (set_annotation IFSKey t) w2 = Some (Ok (), w')"
    "node_good itype k (cur w')" "node_Name (cur w') = node_Name (cur w)"
    "ProviderID (cur w') = ProviderID (cur w)"
    "interfaces_of (cur w') = map (map_option eni_norm) ?nc"
    "go_lookup (Annotations (cur w')) EC2InfoKey = go_lookup (Annotations (cur w)) EC2InfoKey"
    "go_lookup (Labels (cur w')) LabelAWSInstanceID = go_lookup (Labels (cur w)) LabelAWSInstanceID"
    using store_interfaces [OF coop good, of w2 ?nc] w1(2) w2(2) wf(3) by auto
  have "handleNode c name w = Some (Ok (), w')"
    using run w1(1) w2(1) w'(1,2) last(2) name
    by (simp add: attach_one_def attachENI_def last(1) of_sum_def)
  moreover have "todo k (cur w) = Suc (todo k (cur w'))"
  proof -
    have "length (interfaces_of (cur w')) = length ps + 1"
      "length (filter is_attached (interfaces_of (cur w'))) = length ps + 1"
      "length (interfaces_of (cur w)) = length ps + 1"
      "length (filter is_attached (interfaces_of (cur w))) = length ps"
      using last(2) attached_all [OF last(3)]
      by (simp_all only: w'(6) filter_attached_norm) (simp_all add: last(1) is_attached_def)
    with info label wf(3) show ?thesis unfolding todo_def w'(7,8) by simp
  qed
  ultimately show ?thesis using w'(3-5) name by auto
qed

lemma run_creates:
  assumes coop: "cooperative c name itype cur" and good: "node_good itype k (cur w)" and name: "node_Name (cur w) = name"
    and k: "InstanceENIsAvailable itype = Some k"
    and info: "go_lookup (Annotations (cur w)) EC2InfoKey \<noteq> None"
    and label: "go_lookup (Labels (cur w)) LabelAWSInstanceID \<noteq> None"
    and all: "find_unattached 0 (interfaces_of (cur w)) = Some None" "\<forall>p \<in> set (interfaces_of (cur w)). is_attached p"
    and less: "int (length (interfaces_of (cur w))) < k - 1"
  shows "\<exists>w'. handleNode c name w = Some (Ok (), w') \<and> node_good itype k (cur w') \<and>
    node_Name (cur w') = name \<and> ProviderID (cur w') = ProviderID (cur w) \<and>
    todo k (cur w) = Suc (todo k (cur w'))"
proof -
  obtain l where l: "go_lookup (Labels (cur w)) LabelAWSInstanceID = Some l" using label by blast
  obtain iid i numIPs where i: "usable_info itype i" and "handleNode c name w = ready_step c k (cur w) iid i numIPs w"
    by (rule good_info [OF coop good k info])
  with l all(1) less have
    run: "handleNode c name w = create_one c (cur w) i numIPs (interfaces_of (cur w)) w"
    by (simp add: ready_step_def)
  let ?nc = "interfaces_of (cur w)"
  obtain e w1 ips where w1: "createENI c (node_Name (cur w)) i numIPs w = Some (Ok e, w1)" "cur w1 = cur w"
    "\<not> Attached e" "sendable_ip (InterfaceIP e)" "IPs e = Some ips" "list_all is_v4 ips"
    using cooperative_createENI [OF coop] by blast
  let ?e = "e\<lparr>Index := int (length ?nc) + 1, CIDRBlock := SubnetCIDR i\<rparr>"
  have wf: "enis_wf ?nc" "list_all usable_eni ?nc"
    using good by (simp_all add: node_good_def)
  have "int64 (int (length ?nc) + 1)" using less InstanceENIsAvailable_bounds [OF k] by (simp add: int64_def)
  then have "usable_eni (Some ?e)"
    using w1 i by (auto simp: usable_eni_def sendable_eni_def usable_info_def sendable_info_def sendable_ip_def list_all_iff)
  then have "list_all usable_eni (?nc @ [Some ?e])" using wf(2) by simp
  moreover have "enis_wf (?nc @ [Some ?e])"
  proof -
    have "eni_change (k - 1) ?nc (?nc @ [Some ?e])"
      using all(1) less w1(3) by (intro eni_change.create) simp_all
    from enis_wf_change [OF this wf(1)] less show ?thesis by simp
  qed
  moreover have "int (length (?nc @ [Some ?e])) < k" using less by simp
  ultimately obtain t w' where w': "marshal_enis (Some (?nc @ [Some ?e])) = Inr t"
    "UpdateNode (ec_nodes c) name (set_annotation IFSKey t) w1 = Some (Ok (), w')"
    "node_good itype k (cur w')" "node_Name (cur w') = node_Name (cur w)"
    "ProviderID (cur w') = ProviderID (cur w)"
    "interfaces_of (cur w') = map (map_option eni_norm) (?nc @ [Some ?e])"
    "go_lookup (Annotations (cur w')) EC2InfoKey = go_lookup (Annotations (cur w)) EC2InfoKey"
    "go_lookup (Labels (cur w')) LabelAWSInstanceID = go_lookup (Labels (cur w)) LabelAWSInstanceID"
    using store_interfaces [OF coop good w1(2), of "?nc @ [Some ?e]"] by auto
  have "handleNode c name w = Some (Ok (), w')"
    using run w1(1) w'(1,2) name by (simp add: create_one_def Let_def of_sum_def)
  moreover have "todo k (cur w) = Suc (todo k (cur w'))"
  proof -
    have "length (interfaces_of (cur w')) = length ?nc + 1"
      "length (filter is_attached (interfaces_of (cur w'))) = length ?nc"
      "length (filter is_attached ?nc) = length ?nc"
      using w1(3) attached_all [OF all(2)]
      by (simp_all only: w'(6) filter_attached_norm) (simp_all add: is_attached_def)
    with info label less show ?thesis unfolding todo_def w'(7,8) by simp
  qed
  ultimately show ?thesis using w'(3-5) name by auto
qed

lemma one_run:
  assumes "cooperative c name itype cur" "node_good itype k (cur w)" "node_Name (cur w) = name"
    and k: "InstanceENIsAvailable itype = Some k"
  shows "if todo k (cur w) = 0 then handleNode c name w = Some (Ok (), w)
    else \<exists>w'. handleNode c name w = Some (Ok (), w') \<and> node_good itype k (cur w') \<and>
      node_Name (cur w') = name \<and> ProviderID (cur w') = ProviderID (cur w) \<and>
    todo k (cur w) = Suc (todo k (cur w'))"
proof (cases "go_lookup (Annotations (cur w)) EC2InfoKey = None")
  case True
  then show ?thesis using run_saves_info [OF assms(1-3) True] by (simp add: todo_def)
next
  case info: False
  show ?thesis
  proof (cases "go_lookup (Labels (cur w)) LabelAWSInstanceID = None")
    case True
    then show ?thesis using run_labels [OF assms info True] by (simp add: todo_def)
  next
    case label: False
    have wf: "enis_wf (interfaces_of (cur w))" "int (length (interfaces_of (cur w))) < k"
      using assms(2) by (simp_all add: node_good_def)
    from wf(1) show ?thesis
    proof (cases rule: wf_cases)
      case (last ps e)
      then have "todo k (cur w) \<noteq> 0"
        using wf(2) attached_all [OF last(3)] info label by (simp add: todo_def is_attached_def)
      then show ?thesis using run_attaches [OF assms info label last(1-4)] by simp
    next
      case all
      show ?thesis
      proof (cases "int (length (interfaces_of (cur w))) < k - 1")
        case True
        then have "todo k (cur w) \<noteq> 0" using attached_all [OF all(2)] info label by (simp add: todo_def)
        then show ?thesis using run_creates [OF assms info label all True] by simp
      next
        case False
        then have "todo k (cur w) = 0" using wf(2) attached_all [OF all(2)] info label by (simp add: todo_def)
        moreover have "handleNode c name w = Some (Ok (), w)"
          by (rule good_info [OF assms(1,2) k info]) (use label all(1) False in \<open>auto simp: ready_step_def\<close>)
        ultimately show ?thesis by simp
      qed
    qed
  qed
qed

section \<open>Convergence\<close>

primrec runs :: "nat \<Rightarrow> 'w eni_controller \<Rightarrow> string \<Rightarrow> ('w, unit) io" where
  "runs 0 c name = ret ()"
| "runs (Suc n) c name = andthen (handleNode c name) (\<lambda>_. runs n c name)"

lemma runs_reach_zero:
  assumes coop: "cooperative c name itype cur" and k: "InstanceENIsAvailable itype = Some k"
  shows "node_good itype k (cur w) \<Longrightarrow> node_Name (cur w) = name \<Longrightarrow> todo k (cur w) = n \<Longrightarrow>
    \<exists>w'. runs n c name w = Some (Ok (), w') \<and> node_good itype k (cur w') \<and>
      node_Name (cur w') = name \<and> ProviderID (cur w') = ProviderID (cur w) \<and> todo k (cur w') = 0"
proof (induction n arbitrary: w)
  case (Suc n)
  with one_run [OF coop Suc.prems(1,2) k] obtain w1 where "handleNode c name w = Some (Ok (), w1)"
    "node_good itype k (cur w1)" "node_Name (cur w1) = name" "ProviderID (cur w1) = ProviderID (cur w)"
    "todo k (cur w1) = n" by auto
  with Suc.IH [of w1] show ?case by simp
qed simp

lemma todo_zero:
  assumes "node_good itype k n" "todo k n = 0"
  shows "length (interfaces_of n) = nat (k - 1) \<and> (\<forall>i < nat (k - 1). \<exists>e. interfaces_of n ! i = Some e \<and>
    Attached e \<and> Index e = int i + 1)"
proof -
  let ?nc = "interfaces_of n"
  have "length (filter is_attached ?nc) \<le> length ?nc" by simp
  moreover have "2 * nat (k - 1) - length ?nc - length (filter is_attached ?nc) = 0" "int (length ?nc) < k"
    using assms by (simp_all add: todo_def node_good_def)
  ultimately have len: "length ?nc = nat (k - 1)" "length (filter is_attached ?nc) = length ?nc" by linarith+
  then have "\<forall>p \<in> set ?nc. is_attached p" by (metis filter_id_conv length_filter_less less_irrefl)
  moreover have "\<exists>e. ?nc ! i = Some e \<and> Index e = int i + 1" if "i < length ?nc" for i
    using assms(1) that by (auto simp: node_good_def enis_wf_def)
  ultimately show ?thesis using len(1) by (metis is_attached_def nth_mem option.inject)
qed

text \<open>A node object as the cluster has it before the controller sees it.\<close>

definition new_node :: "string \<Rightarrow> string \<Rightarrow> node \<Rightarrow> bool" where
  "new_node name iid n \<longleftrightarrow>
     node_Name n = name \<and> ProviderID n \<noteq> [] \<and> ProviderIDToAWSInstanceID (ProviderID n) = Inr iid \<and>
     Labels n \<noteq> None \<and> go_lookup (Labels n) LabelAWSInstanceID = None \<and>
     Annotations n \<noteq> None \<and> go_lookup (Annotations n) EC2InfoKey = None \<and> go_lookup (Annotations n) IFSKey = None"

lemma new_node_done:
  assumes "cooperative c name itype cur" "InstanceENIsAvailable itype = Some k" "new_node name iid (cur w)"
  obtains w' where "runs (2 + 2 * nat (k - 1)) c name w = Some (Ok (), w')" "node_good itype k (cur w')"
    "node_Name (cur w') = name" "ProviderID (cur w') = ProviderID (cur w)" "todo k (cur w') = 0"
proof -
  have new: "node_Name (cur w) = name" "ProviderID (cur w) \<noteq> []" "\<exists>i. ProviderIDToAWSInstanceID (ProviderID (cur w)) = Inr i"
    "Labels (cur w) \<noteq> None" "go_lookup (Labels (cur w)) LabelAWSInstanceID = None"
    "Annotations (cur w) \<noteq> None" "go_lookup (Annotations (cur w)) EC2InfoKey = None"
    "go_lookup (Annotations (cur w)) IFSKey = None"
    using assms(3) by (simp_all add: new_node_def)
  have ifs: "interfaces_of (cur w) = []" "ENIConfigFromAnnotations (Annotations (cur w)) = Inr None"
    using new(8) by (simp_all add: interfaces_of_def ENIConfigFromAnnotations_def)
  have good: "node_good itype k (cur w)"
    using new ifs InstanceENIsAvailable_bounds [OF assms(2)] by (simp add: node_good_def enis_wf_def)
  have "todo k (cur w) = 2 + 2 * nat (k - 1)" using new ifs(1) by (simp add: todo_def)
  from runs_reach_zero [OF assms(1,2) good new(1) this] that show thesis by blast
qed


section \<open>A small cloud\<close>

text \<open>One node, whose object is the world, of an instance type that has one spare interface.\<close>

definition cloud_interface :: ec2_interface where
  "cloud_interface = \<lparr>ni_NetworkInterfaceId = Some ''eni-a'', ni_PrivateIpAddress = Some ''10.1.0.8'',
     ni_PrivateIpAddresses = [Some ''10.1.0.8'', Some ''10.1.0.9''], ni_MacAddress = Some ''02:01''\<rparr>"

definition cloud_ec2 :: "'w ec2_client" where
  "cloud_ec2 =
     \<lparr>DescribeInstancesPages = \<lambda>iid. ret [[[Some \<lparr>inst_InstanceType = Some ''t2.nano'',
        inst_SubnetId = Some ''subnet-1'', inst_SecurityGroups = map Some [''sg-1'']\<rparr>]]],
      CreateNetworkInterface = \<lambda>inp. ret (Some cloud_interface),
      ModifyNetworkInterfaceAttribute = \<lambda>eniID att p. ret (),
      AttachNetworkInterface = \<lambda>iid i eniID. ret (Some ''eni-attach-1''),
      DescribeSubnets = \<lambda>subnet. ret [Some ''10.1.0.0/16'']\<rparr>"

definition cloud :: "node eni_controller" where
  "cloud =
     \<lparr>ec_ec2 = cloud_ec2,
      ec_nodes = \<lparr>nodes_get = \<lambda>name n. ret n n,
        nodes_update = \<lambda>n w. ret n (n\<lparr>ResourceVersion := ResourceVersion n @ ''v''\<rparr>)\<rparr>,
      ec_lister = \<lambda>name n. ret n n\<rparr>"

lemma cloud_dotted:
  "dotted 10 1 0 8 = ''10.1.0.8''" "dotted 10 1 0 9 = ''10.1.0.9''"
  "dotted 10 1 0 0 @ ''/'' @ uitoa 16 = ''10.1.0.0/16''"
  by code_simp+

lemma cloud_texts:
  "parse_ip ''10.1.0.8'' = ipv4 10 1 0 8" "parse_ip ''10.1.0.9'' = ipv4 10 1 0 9"
  "parse_cidr ''10.1.0.0/16'' = Some (ipv4 10 1 0 0,
     \<lparr>net_IP = ip_mask (ipv4 10 1 0 0) (cidr_mask 16 32), net_Mask = cidr_mask 16 32\<rparr>)"
  using parse_ip_dotted [of 10 1 0 8] parse_ip_dotted [of 10 1 0 9] parse_cidr_dotted [of 16 10 1 0 0]
  by (simp_all only: cloud_dotted)

lemma cloud_net: "sendable_net \<lparr>net_IP = ip_mask (ipv4 10 1 0 0) (cidr_mask 16 32), net_Mask = cidr_mask 16 32\<rparr>"
proof -
  have "is_v4 (ip_mask (ipv4 10 1 0 0) (cidr_mask 16 32))"
    by (simp add: ip_mask_def ipv4_def cidr_mask_def mask_byte_def upt_rec is_v4_def ip_to4_def v4_in_v6_prefix_def)
  then show ?thesis by (auto simp: sendable_net_def intro!: exI [of _ 16])
qed

lemma cloud_cooperates: "cooperative cloud name ''t2.nano'' (\<lambda>n. n)"
proof -
  have "is_v4 (ipv4 a b c d)" for a b c d by (simp add: is_v4_def)
  then have "good_interface cloud_interface"
    by (simp add: good_interface_def cloud_interface_def cloud_texts)
  then show ?thesis
    using cloud_net by (auto simp: cooperative_def cloud_def cloud_ec2_def cloud_texts intro!: exI [of _ "[''sg-1'']"])
qed

definition cloud_node :: node where
  "cloud_node = \<lparr>node_Name = ''node-1'', ResourceVersion = [], Labels = Some Map.empty, Annotations = Some Map.empty,
     ProviderID = ''i-1'', Taints = None\<rparr>"

lemma cloud_node_id: "ProviderIDToAWSInstanceID ''i-1'' = Inr ''i-1''"
  by code_simp

lemma cloud_node_new: "new_node ''node-1'' ''i-1'' cloud_node"
  by (simp add: new_node_def cloud_node_def cloud_node_id go_lookup_def)


section \<open>When the others do not cooperate\<close>

text \<open>
  After an attachment the error of the node update is assigned and not looked at: the run
  succeeds, and the node goes on saying that the interface is not attached.
\<close>

theorem lost_attachment_is_not_reported:
  assumes "attachENI c (node_Name n) iid e w = Some (Ok (), w1)"
    and "marshal_enis (Some (nc[i := Some (e\<lparr>Attached := True\<rparr>)])) = Inr t"
    and "UpdateNode (ec_nodes c) (node_Name n) (set_annotation IFSKey t) w1 = Some (Fail err, w2)"
  shows "attach_one c n iid nc i e w = Some (Ok (), w2)"
  using assms by (simp add: attach_one_def of_sum_def)

text \<open>
  When the deletion policy cannot be set, an interface that EC2 has already attached is
  reported as an error and stays unattached on the node, so that the retry attaches it again.
\<close>

theorem attached_but_not_recorded:
  assumes "\<not> Attached e"
    and "AttachNetworkInterface (ec_ec2 c) iid (Index e) (EniID e) w = Some (Ok att, w1)"
    and "ModifyNetworkInterfaceAttribute (ec_ec2 c) (EniID e) att True w1 = Some (Fail err, w2)"
  shows "attach_one c n iid nc i e w = Some (Fail err, w2)"
  using assms by (simp add: attach_one_def attachENI_def)

text \<open>
  A node object without annotations makes the controller panic: it assigns to a nil map.
\<close>

theorem nil_annotations_panic:
  assumes "nodes_get nc name w = Some (Ok n, w1)" "Annotations n = None"
  shows "UpdateNode nc name (set_annotation key v) w = Some (Panic ''assignment to entry in nil map'', w1)"
  using assms by (simp add: UpdateNode_def update_loop.simps set_annotation_def go_assign_def)

text \<open>
  A node of an instance type that the tables do not have is an error, and nothing is
  asked of EC2 or written.
\<close>

theorem unknown_instance_type_is_an_error:
  assumes "InstanceENIsAvailable (InstanceType info) = None"
  shows "configure_enis c n iid info w = Some (Fail (Errorf
    ''we have no ENI mapping info for node %s's instance type %s, cannot configure interfaces''
    [node_Name n, InstanceType info]), w)"
  using assms by (simp add: configure_enis_def)

subsection \<open>Instances\<close>

definition cloud_eni :: eni where
  "cloud_eni = zero_eni\<lparr>EniID := ''eni-a'', Index := 1\<rparr>"

lemma zero_marshal: "\<exists>t. marshal_enis (Some [Some (cloud_eni\<lparr>Attached := True\<rparr>)]) = Inr t"
proof -
  have "list_all sendable_eni (elems (Some [Some (cloud_eni\<lparr>Attached := True\<rparr>)]))"
    by (simp add: sendable_eni_def cloud_eni_def zero_eni_def sendable_ip_def int64_def)
  from enis_json.printed.encE [OF this] show ?thesis by (auto simp: marshal_enis_def)
qed

definition broken_cloud :: "node eni_controller" where
  "broken_cloud = cloud\<lparr>ec_nodes := (ec_nodes cloud)\<lparr>nodes_update := \<lambda>n. throw (ExtErr ''timeout'')\<rparr>\<rparr>"

theorem lost_attachment_is_not_reported_witness:
  "attach_one broken_cloud cloud_node ''i-1'' [Some cloud_eni] 0 cloud_eni cloud_node = Some (Ok (), cloud_node)"
proof -
  obtain t where t: "marshal_enis (Some ([Some cloud_eni][0 := Some (cloud_eni\<lparr>Attached := True\<rparr>)])) = Inr t"
    using zero_marshal by auto
  show ?thesis
    by (rule lost_attachment_is_not_reported [OF _ t, where
        err = "Wrapf (ExtErr ''timeout'') ''Error updating node %s'' [''node-1'']" and ?w1.0 = cloud_node])
      (simp_all add: attachENI_def broken_cloud_def cloud_def cloud_ec2_def cloud_eni_def zero_eni_def UpdateNode_def
        update_loop.simps set_annotation_def go_assign_def cloud_node_def)
qed

definition rigid_cloud :: "node eni_controller" where
  "rigid_cloud = cloud\<lparr>ec_ec2 := (ec_ec2 cloud)
     \<lparr>ModifyNetworkInterfaceAttribute := \<lambda>eniID att p. throw (ExtErr ''UnauthorizedOperation'')\<rparr>\<rparr>"

theorem attached_but_not_recorded_witness:
  "attach_one rigid_cloud cloud_node ''i-1'' [Some cloud_eni] 0 cloud_eni cloud_node =
     Some (Fail (ExtErr ''UnauthorizedOperation''), cloud_node)"
  by (rule attached_but_not_recorded [where att = "Some ''eni-attach-1''" and ?w1.0 = cloud_node])
    (simp_all add: rigid_cloud_def cloud_def cloud_ec2_def cloud_eni_def zero_eni_def)

theorem nil_annotations_panic_witness:
  "UpdateNode (ec_nodes cloud) ''node-1'' (set_annotation IFSKey []) (cloud_node\<lparr>Annotations := None\<rparr>) =
     Some (Panic ''assignment to entry in nil map'', cloud_node\<lparr>Annotations := None\<rparr>)"
  by (rule nil_annotations_panic [where n = "cloud_node\<lparr>Annotations := None\<rparr>"]) (simp_all add: cloud_def)

theorem unknown_instance_type_is_an_error_witness:
  "configure_enis cloud cloud_node ''i-1'' (zero_info\<lparr>InstanceType := ''m9.huge''\<rparr>) cloud_node =
     Some (Fail (Errorf
       ''we have no ENI mapping info for node %s's instance type %s, cannot configure interfaces''
       [''node-1'', ''m9.huge'']), cloud_node)"
  using unknown_instance_type_is_an_error [of "zero_info\<lparr>InstanceType := ''m9.huge''\<rparr>" cloud cloud_node "''i-1''" cloud_node]
  by (simp add: InstanceENIsAvailable_def enis_table_def cloud_node_def)

text \<open>A node with all its versions, written by the controller alone.\<close>

definition solo_cloud :: "node list eni_controller" where
  "solo_cloud =
     \<lparr>ec_ec2 = cloud_ec2,
      ec_nodes = \<lparr>nodes_get = \<lambda>name ns. if ns = [] then throw (ApiErr NotFound name) ns else ret (hd ns) ns,
        nodes_update = \<lambda>n ns. ret n (n\<lparr>ResourceVersion := ResourceVersion n @ ''v''\<rparr> # ns)\<rparr>,
      ec_lister = \<lambda>name ns. if ns = [] then throw (ApiErr NotFound name) ns else ret (hd ns) ns\<rparr>"

lemma solo_sole: "sole_writer solo_cloud name (\<lambda>ns. ns)"
  by (auto simp: sole_writer_def solo_cloud_def cloud_ec2_def unchanging_def neq_Nil_conv split: if_splits)

lemma solo_run: "\<exists>n. handleNode solo_cloud ''node-1'' [cloud_node] = Some (Ok (), [n, cloud_node])"
proof -
  let ?info = "\<lparr>InstanceType = ''t2.nano'', SubnetID = ''subnet-1'',
    SubnetCIDR = Some \<lparr>net_IP = ip_mask (ipv4 10 1 0 0) (cidr_mask 16 32), net_Mask = cidr_mask 16 32\<rparr>,
    SecurityGroupIDs = Some [''sg-1'']\<rparr>"
  have "sendable_info ?info" using cloud_net by (simp add: sendable_info_def)
  then obtain t where t: "marshal_info ?info = Inr t"
    using info_json.printed.encE by (metis marshal_info_def)
  have "getInstance solo_cloud ''node-1'' ''i-1'' w = Some (Ok (Some \<lparr>inst_InstanceType = Some ''t2.nano'',
      inst_SubnetId = Some ''subnet-1'', inst_SecurityGroups = [Some ''sg-1'']\<rparr>), w)" for w
    by (simp add: getInstance_def solo_cloud_def cloud_ec2_def)
  moreover have "AWSInstanceInfoFromAnnotations (Some Map.empty) = Inr None"
    by (simp add: AWSInstanceInfoFromAnnotations_def go_lookup_def)
  ultimately show ?thesis
    using t cloud_node_id
    by (simp add: handleNode_def save_instance_info_def solo_cloud_def cloud_node_def of_sum_def deref_def
      cloud_ec2_def cloud_texts append_slice_def UpdateNode_def update_loop.simps set_annotation_def go_assign_def)
qed

theorem one_change_per_run_witness:
  "\<exists>n mutate. handleNode solo_cloud ''node-1'' [cloud_node] = Some (Ok (), [n, cloud_node]) \<and>
     node_change cloud_node mutate \<and> (\<exists>m v. mutate cloud_node = Some m \<and> n = m\<lparr>ResourceVersion := v\<rparr>)"
proof -
  obtain n where n: "handleNode solo_cloud ''node-1'' [cloud_node] = Some (Ok (), [n, cloud_node])"
    using solo_run by blast
  have "ec_lister solo_cloud ''node-1'' [cloud_node] = Some (Ok cloud_node, [cloud_node])"
    by (simp add: solo_cloud_def)
  from one_change_per_run [OF solo_sole this n] n show ?thesis by auto
qed

end
