(* ===== verification/Eni_History.thy ===== *)
theory Eni_History
  imports Eni_Convergence
begin

text \<open>
  The interface list over the whole life of a node: any number of runs of \<open>handleNode\<close>, each with
  any outcome and on a cache of any age, between them whatever else happens, and an EC2 and an
  API server that may fail any call. What is asked of them is that nobody but the controller
  writes its two annotations (\<open>sole_annotator\<close>) and that EC2's answers, when it gives one, are about
  instances of the node's type and IPv4 networks (\<open>ec2_answers\<close>).
\<close>

section \<open>Histories\<close>

text \<open>
  The node objects that exist anywhere: versions on the server and copies in caches. A call
  carries the lists over when every object after it has the controller's annotations of one before.
\<close>

definition same_lists :: "node \<Rightarrow> node \<Rightarrow> bool" where
  "same_lists m n \<longleftrightarrow> node_Name m = node_Name n \<and>
     go_lookup (Annotations m) IFSKey = go_lookup (Annotations n) IFSKey \<and>
     go_lookup (Annotations m) EC2InfoKey = go_lookup (Annotations n) EC2InfoKey"

definition carries :: "node set \<Rightarrow> node set \<Rightarrow> bool" where
  "carries A B \<longleftrightarrow> (\<forall>m \<in> B. \<exists>n \<in> A. same_lists m n)"

text \<open>
  Reads give an object that exists, however old; an update adds at most the object it is given,
  and may do so even if it reports an error.
\<close>

definition sole_annotator :: "'w eni_controller \<Rightarrow> string \<Rightarrow> ('w \<Rightarrow> node set) \<Rightarrow> bool" where
  "sole_annotator c name nodes \<longleftrightarrow>
     (\<forall>w r w'. ec_lister c name w = Some (r, w') \<longrightarrow>
        carries (nodes w) (nodes w') \<and> (\<forall>n. r = Ok n \<longrightarrow> n \<in> nodes w')) \<and>
     (\<forall>w r w'. nodes_get (ec_nodes c) name w = Some (r, w') \<longrightarrow>
        carries (nodes w) (nodes w') \<and> (\<forall>n. r = Ok n \<longrightarrow> n \<in> nodes w')) \<and>
     (\<forall>n w r w'. node_Name n = name \<longrightarrow> nodes_update (ec_nodes c) n w = Some (r, w') \<longrightarrow>
        carries (insert n (nodes w)) (nodes w')) \<and>
     (\<forall>iid. moves nodes carries (DescribeInstancesPages (ec_ec2 c) iid)) \<and>
     (\<forall>inp. moves nodes carries (CreateNetworkInterface (ec_ec2 c) inp)) \<and>
     (\<forall>eniID att p. moves nodes carries (ModifyNetworkInterfaceAttribute (ec_ec2 c) eniID att p)) \<and>
     (\<forall>iid i eniID. moves nodes carries (AttachNetworkInterface (ec_ec2 c) iid i eniID)) \<and>
     (\<forall>subnet. moves nodes carries (DescribeSubnets (ec_ec2 c) subnet))"

definition ec2_answers :: "'w eni_controller \<Rightarrow> string \<Rightarrow> bool" where
  "ec2_answers c ty \<longleftrightarrow>
     (\<forall>iid w pages w' inst t. DescribeInstancesPages (ec_ec2 c) iid w = Some (Ok pages, w') \<longrightarrow>
        Some inst \<in> set (concat (concat pages)) \<longrightarrow> inst_InstanceType inst = Some t \<longrightarrow> t = ty) \<and>
     (\<forall>inp w ni w' a. CreateNetworkInterface (ec_ec2 c) inp w = Some (Ok (Some ni), w') \<longrightarrow>
        Some a \<in> insert (ni_PrivateIpAddress ni) (set (ni_PrivateIpAddresses ni)) \<longrightarrow> sendable_ip (parse_ip a)) \<and>
     (\<forall>subnet w bs w' b ip cb. DescribeSubnets (ec_ec2 c) subnet w = Some (Ok bs, w') \<longrightarrow>
        Some b \<in> set bs \<longrightarrow> parse_cidr b = Some (ip, cb) \<longrightarrow> sendable_net cb)"

inductive node_step :: "'w eni_controller \<Rightarrow> string \<Rightarrow> ('w \<Rightarrow> node set) \<Rightarrow> 'w \<Rightarrow> 'w \<Rightarrow> bool" for c name nodes where
  run: "handleNode c name w = Some (r, w') \<Longrightarrow> node_step c name nodes w w'"
| others: "carries (nodes w) (nodes w') \<Longrightarrow> node_step c name nodes w w'"

text \<open>A node object before the controller has written anything to it.\<close>

definition untouched :: "string \<Rightarrow> node \<Rightarrow> bool" where
  "untouched name n \<longleftrightarrow> node_Name n = name \<and> go_lookup (Annotations n) IFSKey = None \<and>
     go_lookup (Annotations n) EC2InfoKey = None"

lemma carries_refl [simp]: "carries A A"
  by (auto simp: carries_def same_lists_def)

lemma carries_reflp [simp]: "reflp carries"
  by (simp add: reflp_def)

lemma sole_annotatorD:
  assumes "sole_annotator c name nodes"
  shows "ec_lister c name w = Some (r, w') \<Longrightarrow> carries (nodes w) (nodes w') \<and> (\<forall>n. r = Ok n \<longrightarrow> n \<in> nodes w')"
    and "nodes_get (ec_nodes c) name w = Some (r, w') \<Longrightarrow> carries (nodes w) (nodes w') \<and> (\<forall>n. r = Ok n \<longrightarrow> n \<in> nodes w')"
    and "node_Name n = name \<Longrightarrow> nodes_update (ec_nodes c) n w = Some (u, w') \<Longrightarrow> carries (insert n (nodes w)) (nodes w')"
  using assms unfolding sole_annotator_def by blast+

lemma sole_annotator_ec2:
  assumes "sole_annotator c name nodes"
  shows "moves nodes carries (DescribeInstancesPages (ec_ec2 c) iid)"
    "moves nodes carries (CreateNetworkInterface (ec_ec2 c) inp)"
    "moves nodes carries (ModifyNetworkInterfaceAttribute (ec_ec2 c) eniID att p)"
    "moves nodes carries (AttachNetworkInterface (ec_ec2 c) iid i eniID)"
    "moves nodes carries (DescribeSubnets (ec_ec2 c) subnet)"
  using assms unfolding sole_annotator_def by blast+

section \<open>Sound node objects\<close>

definition sound_list :: "int \<Rightarrow> eni option list \<Rightarrow> bool" where
  "sound_list m nc \<longleftrightarrow> list_all sendable_eni nc \<and> enis_wf nc \<and> int (length nc) \<le> m"

definition sound_node :: "string \<Rightarrow> string \<Rightarrow> int \<Rightarrow> node \<Rightarrow> bool" where
  "sound_node name ty m n \<longleftrightarrow> node_Name n = name \<and>
     (\<forall>i. AWSInstanceInfoFromAnnotations (Annotations n) = Inr (Some i) \<longrightarrow> InstanceType i = ty \<and> sendable_info i) \<and>
     (\<exists>cfg. ENIConfigFromAnnotations (Annotations n) = Inr cfg \<and> sound_list m (elems cfg))"

lemma sound_same: "same_lists m n \<Longrightarrow> sound_node name ty k n \<Longrightarrow> sound_node name ty k m"
  by (simp add: sound_node_def same_lists_def AWSInstanceInfoFromAnnotations_def ENIConfigFromAnnotations_def)

lemma sound_carries:
  "carries A B \<Longrightarrow> \<forall>n \<in> A. sound_node name ty m n \<Longrightarrow> \<forall>n \<in> B. sound_node name ty m n"
  unfolding carries_def using sound_same by blast

lemma sound_untouched: "untouched name n \<Longrightarrow> 0 \<le> m \<Longrightarrow> sound_node name ty m n"
  by (auto simp: untouched_def sound_node_def AWSInstanceInfoFromAnnotations_def ENIConfigFromAnnotations_def
      sound_list_def enis_wf_def)

lemma keeps_sound: "moves nodes carries m \<Longrightarrow> keeps (\<lambda>w. \<forall>n \<in> nodes w. sound_node name ty k n) m"
  by (rule keepsI) (metis movesD sound_carries)

subsection \<open>The three changes\<close>

definition keeps_sound_node :: "string \<Rightarrow> string \<Rightarrow> int \<Rightarrow> mutator \<Rightarrow> bool" where
  "keeps_sound_node name ty m mutate \<longleftrightarrow> (\<forall>n n'. sound_node name ty m n \<longrightarrow> mutate n = Some n' \<longrightarrow> sound_node name ty m n')"

lemma set_annotation_lookup:
  assumes "set_annotation key v n = Some n'"
  shows "go_lookup (Annotations n') k = (if k = key then Some v else go_lookup (Annotations n) k)" "node_Name n' = node_Name n"
  using assms by (auto simp: set_annotation_def go_assign_def go_lookup_def split: option.splits)

lemma sound_label: "keeps_sound_node name ty m (set_label key v)"
  by (auto simp: keeps_sound_node_def sound_node_def set_label_def split: option.splits)

lemma sound_info:
  assumes "marshal_info i = Inr t" "InstanceType i = ty" "sendable_info i"
  shows "keeps_sound_node name ty m (set_annotation EC2InfoKey t)"
  unfolding keeps_sound_node_def
proof (intro allI impI)
  fix n n' assume n: "sound_node name ty m n" and n': "set_annotation EC2InfoKey t n = Some n'"
  have "AWSInstanceInfoFromAnnotations (Annotations n') = Inr (Some (info_norm i))"
    by (rule AWSInstanceInfo_of_marshal [OF assms(3,1)]) (simp add: set_annotation_lookup [OF n'])
  moreover have "InstanceType (info_norm i) = ty" by (simp add: info_norm_def assms(2))
  moreover have "ENIConfigFromAnnotations (Annotations n') = ENIConfigFromAnnotations (Annotations n)"
    by (simp add: ENIConfigFromAnnotations_def set_annotation_lookup [OF n'] annotation_keys)
  ultimately show "sound_node name ty m n'"
    using n info_json.ok_norm [OF assms(3)] by (simp add: sound_node_def set_annotation_lookup [OF n'])
qed

lemma sound_interfaces:
  assumes "marshal_enis (Some nc) = Inr t" "sound_list m nc"
  shows "keeps_sound_node name ty m (set_annotation IFSKey t)"
  unfolding keeps_sound_node_def
proof (intro allI impI)
  fix n n' assume n: "sound_node name ty m n" and n': "set_annotation IFSKey t n = Some n'"
  have ok: "list_all sendable_eni (elems (Some nc))" using assms(2) by (simp add: sound_list_def)
  have "ENIConfigFromAnnotations (Annotations n') = Inr (map_option (map (map_option eni_norm)) (Some nc))"
    by (rule ENIConfig_of_marshal [OF ok assms(1)]) (simp add: set_annotation_lookup [OF n'])
  moreover have "sound_list m (map (map_option eni_norm) nc)"
    using assms(2) enis_json.ok_norm [OF ok] by (simp add: sound_list_def)
  moreover have "AWSInstanceInfoFromAnnotations (Annotations n') = AWSInstanceInfoFromAnnotations (Annotations n)"
    by (simp add: AWSInstanceInfoFromAnnotations_def set_annotation_lookup [OF n'] annotation_keys)
  ultimately show "sound_node name ty m n'" using n by (simp add: sound_node_def set_annotation_lookup [OF n'])
qed

lemma sound_attach:
  assumes "sound_list m nc" "find_unattached 0 nc = Some (Some (i, e))"
  shows "sound_list m (nc[i := Some (e\<lparr>Attached := True\<rparr>)])"
proof -
  from find_unattached_Some [OF assms(2)] have i: "i < length nc" "nc ! i = Some e" by auto
  then have "sendable_eni (Some (e\<lparr>Attached := True\<rparr>))"
    using assms(1) nth_mem [OF i(1)] by (auto simp: sound_list_def list_all_iff sendable_eni_def)
  moreover have "enis_wf (nc[i := Some (e\<lparr>Attached := True\<rparr>)])"
    using enis_wf_change [OF eni_change.attach [OF assms(2)], of m] assms(1) by (simp add: sound_list_def)
  ultimately show ?thesis
    using assms(1) set_update_subset_insert [of nc i "Some (e\<lparr>Attached := True\<rparr>)"] by (auto simp: sound_list_def list_all_iff)
qed

lemma sound_create:
  assumes "sound_list m nc" "find_unattached 0 nc = Some None" "int (length nc) < m" "m \<le> 14"
    and e: "\<not> Attached e" "sendable_ip (InterfaceIP e)" "list_all sendable_ip (elems (IPs e))"
    and b: "pred_option sendable_net b"
  shows "sound_list m (nc @ [Some (e\<lparr>Index := int (length nc) + 1, CIDRBlock := b\<rparr>)])"
proof -
  let ?e = "e\<lparr>Index := int (length nc) + 1, CIDRBlock := b\<rparr>"
  have "sendable_eni (Some ?e)" using assms(3,4) e b by (simp add: sendable_eni_def int64_def)
  moreover have "eni_change m nc (nc @ [Some ?e])" using assms(2,3) e(1) by (intro eni_change.create) simp_all
  then have "enis_wf (nc @ [Some ?e])" using enis_wf_change [of m nc] assms(1) by (simp add: sound_list_def)
  ultimately show ?thesis using assms(1,3) by (simp add: sound_list_def)
qed

section \<open>A run of any outcome\<close>

lemma update_loop_sound:
  assumes sole: "sole_annotator c name nodes" and mutate: "keeps_sound_node name ty m mutate"
    and run: "update_loop (ec_nodes c) name mutate node w = Some r"
    and node: "sound_node name ty m node" and w: "\<forall>n \<in> nodes w. sound_node name ty m n"
  shows "\<forall>n \<in> nodes (snd r). sound_node name ty m n"
proof -
  have "ec_nodes c = ec_nodes c \<longrightarrow> name = name \<longrightarrow> mutate = mutate \<longrightarrow> sound_node name ty m node \<longrightarrow>
    (\<forall>n \<in> nodes w. sound_node name ty m n) \<longrightarrow> (\<forall>n \<in> nodes (snd r). sound_node name ty m n)"
  proof (rule update_loop.raw_induct [where P = "\<lambda>nc name' mutate' node w r. nc = ec_nodes c \<longrightarrow> name' = name \<longrightarrow>
      mutate' = mutate \<longrightarrow> sound_node name ty m node \<longrightarrow> (\<forall>n \<in> nodes w. sound_node name ty m n) \<longrightarrow>
      (\<forall>n \<in> nodes (snd r). sound_node name ty m n)", OF _ run], intro impI, goal_cases)
    case (1 f nc name' mutate' node w r)
    let ?sound = "\<lambda>w. \<forall>n \<in> nodes w. sound_node name ty m n"
    show ?case
    proof (cases "mutate node")
      case None
      with 1 show ?thesis by auto
    next
      case (Some node')
      with 1 obtain u w1 where u: "nodes_update (ec_nodes c) node' w = Some (u, w1)"
        by (auto simp: bind_eq_Some_conv)
      have node': "sound_node name ty m node'" using mutate 1(5,6) Some by (auto simp: keeps_sound_node_def)
      then have "node_Name node' = name" by (simp add: sound_node_def)
      from sole_annotatorD(3) [OF sole this u] have w1: "?sound w1"
        by (rule sound_carries) (use node' 1(7) in auto)
      show ?thesis
      proof (cases "\<exists>e. u = Fail e \<and> is_conflict e")
        case True
        with 1 Some u obtain g w2 where g: "nodes_get (ec_nodes c) name w1 = Some (g, w2)"
          by (auto simp: bind_eq_Some_conv)
        from sole_annotatorD(2) [OF sole g] have w2: "?sound w2" "\<And>n. g = Ok n \<Longrightarrow> sound_node name ty m n"
          using sound_carries [OF _ w1] by blast+
        show ?thesis
        proof (cases g)
          case (Ok fresh)
          with 1 Some u True g have "f (ec_nodes c) name mutate fresh w2 = Some r" by auto
          from 1(1) [OF this] w2 Ok show ?thesis by simp
        qed (use 1 Some u True g w2 in auto)
      next
        case False
        with 1 Some u w1 show ?thesis by (cases u) auto
      qed
    qed
  qed
  with node w show ?thesis by simp
qed

lemma UpdateNode_sound:
  assumes "sole_annotator c name nodes" "keeps_sound_node name ty m mutate"
  shows "keeps (\<lambda>w. \<forall>n \<in> nodes w. sound_node name ty m n) (UpdateNode (ec_nodes c) name mutate)"
proof -
  let ?sound = "\<lambda>w. \<forall>n \<in> nodes w. sound_node name ty m n"
  have get: "?sound w' \<and> (\<forall>n. r = Ok n \<longrightarrow> sound_node name ty m n)"
    if "?sound w" "nodes_get (ec_nodes c) name w = Some (r, w')" for w r w'
    using sole_annotatorD(2) [OF assms(1) that(2)] sound_carries [OF _ that(1)] by blast
  then have "keeps ?sound (nodes_get (ec_nodes c) name)" by (intro keepsI) blast
  show ?thesis
  proof (rule keepsI)
    fix w r w'' assume w: "?sound w" and "UpdateNode (ec_nodes c) name mutate w = Some (r, w'')"
    from this(2) [unfolded UpdateNode_def] show "?sound w''"
    proof (cases rule: andthen_cases)
      case (Ok n w')
      from get [OF w] Ok(1) have "?sound w'" "sound_node name ty m n" by auto
      from update_loop_sound [OF assms Ok(2) this(2,1)] show ?thesis by simp
    qed (use keepsD [OF keeps_wrapping [OF \<open>keeps ?sound (nodes_get (ec_nodes c) name)\<close>] w] in blast)+
  qed
qed

lemma secondary_ips_sendable:
  "secondary_ips ps prim ips w = Some (Ok js, w') \<Longrightarrow> \<forall>a. Some a \<in> set ps \<longrightarrow> sendable_ip (parse_ip a) \<Longrightarrow>
     list_all sendable_ip ips \<Longrightarrow> list_all sendable_ip js"
  by (induction ps arbitrary: ips) (auto simp: andthen_eq_Ok deref_Ok split: if_splits)

lemma createENI_sendable:
  assumes "ec2_answers c ty" "createENI c nm i numIPs w = Some (Ok e, w')"
  shows "\<not> Attached e" "sendable_ip (InterfaceIP e)" "list_all sendable_ip (elems (IPs e))"
proof -
  let ?inp = "\<lparr>ci_Description = ''K8S ENI for node '' @ nm, ci_Groups = elems (SecurityGroupIDs i),
    ci_SubnetId = SubnetID i, ci_SecondaryPrivateIpAddressCount = numIPs - 1\<rparr>"
  obtain ni w1 ips addr w2 where ni: "CreateNetworkInterface (ec_ec2 c) ?inp w = Some (Ok (Some ni), w1)"
    and ips: "secondary_ips (ni_PrivateIpAddresses ni) (ni_PrivateIpAddress ni) [] w1 = Some (Ok ips, w2)"
    and e: "ni_PrivateIpAddress ni = Some addr" "\<not> Attached e" "InterfaceIP e = parse_ip addr" "IPs e = Some ips"
    using assms(2) unfolding createENI_def andthen_eq_Ok deref_Ok by (auto simp: ret_def)
  have "sendable_ip (parse_ip a)" if "Some a \<in> insert (ni_PrivateIpAddress ni) (set (ni_PrivateIpAddresses ni))" for a
    using assms(1) ni that unfolding ec2_answers_def by blast
  then show "\<not> Attached e" "sendable_ip (InterfaceIP e)" "list_all sendable_ip (elems (IPs e))"
    using e secondary_ips_sendable [OF ips] by simp_all
qed

lemma calls_keep_sound:
  assumes "sole_annotator c name nodes"
  shows "keeps (\<lambda>w. \<forall>n \<in> nodes w. sound_node name ty m n) (getInstance c nm iid)"
    "keeps (\<lambda>w. \<forall>n \<in> nodes w. sound_node name ty m n) (createENI c nm info numIPs)"
    "keeps (\<lambda>w. \<forall>n \<in> nodes w. sound_node name ty m n) (attachENI c nm iid e)"
    "keeps (\<lambda>w. \<forall>n \<in> nodes w. sound_node name ty m n) (DescribeSubnets (ec_ec2 c) subnet)"
proof -
  have pure: "keeps (\<lambda>w. \<forall>n \<in> nodes w. sound_node name ty m n) (secondary_ips ps primary ips)" for ps primary ips
    by (rule keeps_unchanging) simp
  note ec2 = sole_annotator_ec2 [OF assms, THEN keeps_sound]
  show "keeps (\<lambda>w. \<forall>n \<in> nodes w. sound_node name ty m n) (getInstance c nm iid)"
    "keeps (\<lambda>w. \<forall>n \<in> nodes w. sound_node name ty m n) (createENI c nm info numIPs)"
    "keeps (\<lambda>w. \<forall>n \<in> nodes w. sound_node name ty m n) (attachENI c nm iid e)"
    "keeps (\<lambda>w. \<forall>n \<in> nodes w. sound_node name ty m n) (DescribeSubnets (ec_ec2 c) subnet)"
    by (auto simp: getInstance_def createENI_def attachENI_def Let_def intro!: keeps_intros ec2 pure
        simp del: ret_def throw_def)
qed

lemma getInstance_type:
  assumes "ec2_answers c ty" "getInstance c nm iid w = Some (Ok (Some inst), w')" "inst_InstanceType inst = Some t"
  shows "t = ty"
proof -
  obtain pages where pages: "DescribeInstancesPages (ec_ec2 c) iid w = Some (Ok pages, w')"
    and inst: "length (concat (concat pages)) = 1" "Some inst = concat (concat pages) ! 0"
    using assms(2) by (auto simp: getInstance_def andthen_eq_Ok Let_def split: if_splits)
  have "Some inst \<in> set (concat (concat pages))"
    unfolding inst(2) by (rule nth_mem) (simp only: inst(1) zero_less_one)
  with assms(1,3) pages show ?thesis unfolding ec2_answers_def by blast
qed

lemma save_instance_info_sound:
  assumes "sole_annotator c (node_Name n) nodes" "ec2_answers c ty"
  shows "keeps (\<lambda>w. \<forall>v \<in> nodes w. sound_node (node_Name n) ty m v) (save_instance_info c n iid)"
proof -
  let ?K = "\<lambda>w. \<forall>v \<in> nodes w. sound_node (node_Name n) ty m v"
  note calls = calls_keep_sound [OF assms(1)]
  have stored: "keeps ?K
      (andthen (wrapping g (of_sum (marshal_info i))) (\<lambda>t. wrapping h
        (UpdateNode (ec_nodes c) (node_Name n) (set_annotation EC2InfoKey t))))"
    if "InstanceType i = ty" "sendable_info i" for i g h
    by (intro keeps_andthen_Ok keeps_wrapping keeps_of_sum UpdateNode_sound [OF assms(1)] sound_info [OF _ that])
      (simp add: of_sum_Ok)
  have pure: "keeps ?K (deref_all ps xs)" for ps xs
    by (rule keeps_unchanging) simp
  show ?thesis
    unfolding save_instance_info_def Let_def
  proof (intro keeps_andthen_Ok keeps_wrapping keeps_deref pure calls, goal_cases)
    case (1 w p w1 x inst w2 y t w3 z subnet w4 u sgs w5 v subnets w6)
    then have ty: "t = ty" using getInstance_type [OF assms(2), of "node_Name n" iid w inst w1 t] by (auto simp: deref_Ok)
    show ?case
    proof (cases "length subnets = 1")
      case True
      have "sendable_net cb" if "subnets ! 0 = Some b" "parse_cidr b = Some (ip, cb)" for b ip cb
      proof -
        have "Some b \<in> set subnets" using that(1) True nth_mem [of 0 subnets] by simp
        with that(2) 1(12) assms(2) show ?thesis unfolding ec2_answers_def by (simp, blast)
      qed
      then have "keeps ?K (case parse_cidr b of
          None \<Rightarrow> throw (Wrapf (ExtErr (''invalid CIDR address: '' @ b)) ''Error getting ipnet from %q'' [b])
        | Some (_, cb) \<Rightarrow> andthen (wrapping (\<lambda>e. Wrapf e ''Error marshaling instance info JSON'' [])
              (of_sum (marshal_info \<lparr>InstanceType = t, SubnetID = subnet, SubnetCIDR = Some cb, SecurityGroupIDs = append_slice None sgs\<rparr>)))
            (\<lambda>iiJSON. wrapping (\<lambda>e. Wrapf e ''error writing instance info for node %s'' [node_Name n])
              (UpdateNode (ec_nodes c) (node_Name n) (set_annotation EC2InfoKey iiJSON))))" if "subnets ! 0 = Some b" for b
        using that ty by (auto intro!: stored simp: sendable_info_def simp del: throw_def split: option.splits)
      then show ?thesis using True by (auto intro!: keeps_andthen_Ok keeps_deref simp: deref_Ok simp del: throw_def)
    qed (simp del: throw_def)
  qed
qed

lemma attach_one_sound:
  assumes "sole_annotator c (node_Name n) nodes" "sound_list m nc" "find_unattached 0 nc = Some (Some (i, e))"
  shows "keeps (\<lambda>w. \<forall>v \<in> nodes w. sound_node (node_Name n) ty m v) (attach_one c n iid nc i e)"
  unfolding attach_one_def
  by (intro keeps_andthen_Ok keeps_ignoring keeps_of_sum calls_keep_sound [OF assms(1)] UpdateNode_sound [OF assms(1)]
      sound_interfaces [OF _ sound_attach [OF assms(2,3)]]) (simp add: of_sum_Ok)

lemma create_one_sound:
  assumes "sole_annotator c (node_Name n) nodes" "ec2_answers c ty" "sound_list m nc" "find_unattached 0 nc = Some None"
    and "int (length nc) < m" "m \<le> 14" "sendable_info i"
  shows "keeps (\<lambda>w. \<forall>v \<in> nodes w. sound_node (node_Name n) ty m v) (create_one c n i numIPs nc)"
  unfolding create_one_def Let_def
proof (intro keeps_andthen_Ok keeps_wrapping keeps_of_sum calls_keep_sound [OF assms(1)] UpdateNode_sound [OF assms(1)])
  fix w e w' x t x'
  assume e: "createENI c (node_Name n) i numIPs w = Some (Ok e, w')"
    and t: "of_sum (marshal_enis (Some (nc @ [Some (e\<lparr>Index := int (length nc) + 1, CIDRBlock := SubnetCIDR i\<rparr>)]))) x
      = Some (Ok t, x')"
  have b: "pred_option sendable_net (SubnetCIDR i)" using assms(7) by (simp add: sendable_info_def)
  from sound_create [OF assms(3-6) createENI_sendable [OF assms(2) e] b] t
  show "keeps_sound_node (node_Name n) ty m (set_annotation IFSKey t)" by (intro sound_interfaces) (simp_all add: of_sum_Ok)
qed

lemma configure_enis_sound:
  assumes sole: "sole_annotator c (node_Name n) nodes" and ec2: "ec2_answers c ty"
    and k: "InstanceENIsAvailable ty = Some k"
    and n: "sound_node (node_Name n) ty (k - 1) n" "AWSInstanceInfoFromAnnotations (Annotations n) = Inr (Some i)"
  shows "keeps (\<lambda>w. \<forall>v \<in> nodes w. sound_node (node_Name n) ty (k - 1) v) (configure_enis c n iid i)"
proof -
  obtain cfg where i: "InstanceType i = ty" "sendable_info i"
    and cfg: "ENIConfigFromAnnotations (Annotations n) = Inr cfg" "sound_list (k - 1) (elems cfg)"
    using n by (auto simp: sound_node_def)
  obtain numIPs where ips: "InstanceIPsAvailable ty = Some numIPs" using ips_if_enis [OF k] by blast
  have small: "k - 1 \<le> 14" using InstanceENIsAvailable_bounds [OF k] by simp
  let ?nc = "elems cfg"
  have attach: "keeps (\<lambda>w. \<forall>v \<in> nodes w. sound_node (node_Name n) ty (k - 1) v) (attach_one c n iid ?nc j e)"
    if "find_unattached 0 ?nc = Some (Some (j, e))" for j e
    by (rule attach_one_sound [OF sole cfg(2) that])
  have create: "keeps (\<lambda>w. \<forall>v \<in> nodes w. sound_node (node_Name n) ty (k - 1) v) (create_one c n i numIPs ?nc)"
    if "find_unattached 0 ?nc = Some None" "int (length ?nc) < k - 1"
    by (rule create_one_sound [OF sole ec2 cfg(2) that small i(2)])
  show ?thesis
    unfolding configure_enis_def i(1) k ips option.case Let_def
    by (auto intro!: keeps_andthen_Ok keeps_wrapping keeps_of_sum UpdateNode_sound [OF sole] sound_label attach create
        simp: of_sum_Ok cfg(1) simp del: ret_def go_panic_def split: option.splits prod.splits)
qed

lemma handleNode_sound:
  assumes sole: "sole_annotator c name nodes" and ec2: "ec2_answers c ty" and k: "InstanceENIsAvailable ty = Some k"
  shows "keeps (\<lambda>w. \<forall>v \<in> nodes w. sound_node name ty (k - 1) v) (handleNode c name)"
proof -
  let ?K = "\<lambda>w. \<forall>v \<in> nodes w. sound_node name ty (k - 1) v"
  have seen: "?K w' \<and> (\<forall>n. r = Ok n \<longrightarrow> sound_node name ty (k - 1) n)"
    if "?K w" "ec_lister c name w = Some (r, w')" for w r w'
    using sole_annotatorD(1) [OF sole that(2)] sound_carries [OF _ that(1)] by blast
  then have lister: "keeps ?K (ec_lister c name)" by (intro keepsI) blast
  have rest: "keeps ?K (andthen (of_sum (ProviderIDToAWSInstanceID (ProviderID n))) (\<lambda>iid.
      andthen (wrapping (\<lambda>e. Wrapf e ''Error unpacking instance info from annotations on node %s'' [node_Name n])
        (of_sum (AWSInstanceInfoFromAnnotations (Annotations n)))) (\<lambda>info.
      case info of None \<Rightarrow> save_instance_info c n iid | Some instanceInfo \<Rightarrow> configure_enis c n iid instanceInfo)))"
    if n: "sound_node name ty (k - 1) n" for n
  proof -
    have name: "name = node_Name n" using n by (simp add: sound_node_def)
    show ?thesis
      unfolding name
      by (intro keeps_andthen_Ok keeps_wrapping keeps_of_sum)
        (auto simp: of_sum_Ok intro!: save_instance_info_sound [OF sole [unfolded name] ec2]
          configure_enis_sound [OF sole [unfolded name] ec2 k n [unfolded name]] split: option.splits)
  qed
  show ?thesis
    unfolding handleNode_def
  proof (rule keeps_andthen_Ok [OF keeps_attempt [OF lister]])
    fix w x w1 assume w: "?K w" and x: "attempt (ec_lister c name) w = Some (Ok x, w1)"
    show "keeps ?K (case x of
        Inl err \<Rightarrow> if is_not_found err then cleanupNode name else throw err
      | Inr n \<Rightarrow> if ProviderID n = [] then ret () else
          andthen (of_sum (ProviderIDToAWSInstanceID (ProviderID n))) (\<lambda>iid.
          andthen (wrapping (\<lambda>e. Wrapf e ''Error unpacking instance info from annotations on node %s'' [node_Name n])
            (of_sum (AWSInstanceInfoFromAnnotations (Annotations n)))) (\<lambda>info.
          case info of None \<Rightarrow> save_instance_info c n iid | Some instanceInfo \<Rightarrow> configure_enis c n iid instanceInfo)))"
    proof (cases x)
      case (Inl e)
      then show ?thesis by (simp add: cleanupNode_def del: ret_def throw_def)
    next
      case (Inr n)
      with x have "ec_lister c name w = Some (Ok n, w1)" by (auto elim: attempt_cases)
      with seen [OF w] rest show ?thesis by (simp add: Inr del: ret_def)
    qed
  qed
qed

lemma history_sound:
  assumes sole: "sole_annotator c name nodes" and ec2: "ec2_answers c ty" and k: "InstanceENIsAvailable ty = Some k"
    and start: "\<forall>n \<in> nodes w. untouched name n" and steps: "rtranclp (node_step c name nodes) w w'"
  shows "\<forall>n \<in> nodes w'. sound_node name ty (k - 1) n"
  using steps
proof (induction rule: rtranclp_induct)
  case base
  have "0 \<le> k - 1" using InstanceENIsAvailable_bounds [OF k] by simp
  with start show ?case using sound_untouched by blast
next
  case (step v v')
  from step.hyps(2) show ?case
  proof cases
    case (run r)
    then show ?thesis using keepsD [OF handleNode_sound [OF sole ec2 k] step.IH] by blast
  next
    case others
    then show ?thesis using sound_carries step.IH by blast
  qed
qed

section \<open>The list of a node\<close>

text \<open>
  C31. Whatever EC2 and the API server answer, however old the cached node objects are that the
  runs of the handler see, and however the runs end: every object there is of the node has a list
  that parses, with the interfaces at device indices 1, 2, \<dots> in their order, all attached except
  perhaps the last, and never more than the instance type allows besides the primary one. That
  needs that nobody else writes the controller's annotations, and that EC2 does not change the
  node's instance type and has IPv4 addresses.
\<close>

theorem eni_list_stays_well_formed:
  assumes "sole_annotator c name nodes" "ec2_answers c ty" "InstanceENIsAvailable ty = Some k"
    and "\<forall>n \<in> nodes w. untouched name n" "rtranclp (node_step c name nodes) w w'" "n \<in> nodes w'"
  shows "\<exists>cfg. ENIConfigFromAnnotations (Annotations n) = Inr cfg \<and> int (length (elems cfg)) \<le> k - 1 \<and>
    (\<forall>i < length (elems cfg). \<exists>e. elems cfg ! i = Some e \<and> Index e = int i + 1 \<and>
      (i + 1 < length (elems cfg) \<longrightarrow> Attached e))"
  using history_sound [OF assms(1-5)] assms(6) by (auto simp: sound_node_def sound_list_def enis_wf_def)

subsection \<open>The life of a node\<close>

lemma runs_steps: "runs n c name w = Some (r, w') \<Longrightarrow> rtranclp (node_step c name nodes) w w'"
proof (induction n arbitrary: w)
  case (Suc n)
  from Suc.prems [unfolded runs.simps] show ?case
  proof (cases rule: andthen_cases)
    case (Ok a w1)
    from converse_rtranclp_into_rtranclp [OF node_step.run [OF Ok(1)] Suc.IH [OF Ok(2)]] show ?thesis .
  qed (auto intro!: r_into_rtranclp node_step.run)
qed simp

lemma cloud_sole: "sole_annotator cloud name (\<lambda>n. {n})"
  by (auto simp: sole_annotator_def cloud_def cloud_ec2_def moves_def carries_def same_lists_def)

lemma cloud_answers: "ec2_answers cloud ''t2.nano''"
proof -
  have "is_v4 (ipv4 a b c d)" for a b c d by (simp add: is_v4_def)
  then show ?thesis
    using cloud_net by (auto simp: ec2_answers_def cloud_def cloud_ec2_def cloud_interface_def cloud_texts sendable_ip_def)
qed

lemma cloud_untouched: "\<forall>n \<in> {cloud_node}. untouched ''node-1'' n"
  by (simp add: untouched_def cloud_node_def go_lookup_def)

theorem eni_list_stays_well_formed_witness:
  "\<exists>n cfg. rtranclp (node_step cloud ''node-1'' (\<lambda>n. {n})) cloud_node n \<and> ENIConfigFromAnnotations (Annotations n) = Inr cfg \<and>
     length (elems cfg) = 1 \<and> (\<exists>e. elems cfg ! 0 = Some e \<and> Index e = 1)"
proof -
  have k: "InstanceENIsAvailable ''t2.nano'' = Some 2" by (simp add: InstanceENIsAvailable_def enis_table_def)
  obtain n where n: "runs (2 + 2 * nat (2 - 1)) cloud ''node-1'' cloud_node = Some (Ok (), n)"
    and good: "node_good ''t2.nano'' 2 n" "todo 2 n = 0"
    using new_node_done [OF cloud_cooperates k cloud_node_new] by blast
  note steps = runs_steps [OF n, of "\<lambda>n. {n}"]
  have "length (interfaces_of n) = 1" using todo_zero [OF good] by simp
  with eni_list_stays_well_formed [OF cloud_sole cloud_answers k cloud_untouched steps, of n] steps
  show ?thesis by (fastforce simp: interfaces_of_def)
qed

section \<open>A stale cache\<close>

text \<open>
  \<open>created\<close> has the IDs of the interfaces that EC2 has ever made: each is new, and none is forgotten.
\<close>

definition fresh_ids :: "'w eni_controller \<Rightarrow> ('w \<Rightarrow> string set) \<Rightarrow> bool" where
  "fresh_ids c created \<longleftrightarrow>
     (\<forall>inp w r w'. CreateNetworkInterface (ec_ec2 c) inp w = Some (r, w') \<longrightarrow>
        created w \<subseteq> created w' \<and>
        (\<forall>ni eniID. r = Ok (Some ni) \<longrightarrow> ni_NetworkInterfaceId ni = Some eniID \<longrightarrow>
           eniID \<notin> created w \<and> eniID \<in> created w')) \<and>
     (\<forall>key. moves created (\<subseteq>) (ec_lister c key)) \<and> (\<forall>name. moves created (\<subseteq>) (nodes_get (ec_nodes c) name)) \<and>
     (\<forall>n. moves created (\<subseteq>) (nodes_update (ec_nodes c) n))"

lemma fresh_idsD:
  assumes "fresh_ids c created"
  shows "CreateNetworkInterface (ec_ec2 c) inp w = Some (Ok (Some ni), w') \<Longrightarrow> ni_NetworkInterfaceId ni = Some eniID \<Longrightarrow>
      created w \<subseteq> created w' \<and> eniID \<notin> created w \<and> eniID \<in> created w'"
    and "moves created (\<subseteq>) (ec_lister c key)" "moves created (\<subseteq>) (nodes_get (ec_nodes c) name)"
    "moves created (\<subseteq>) (nodes_update (ec_nodes c) n)"
  using assms unfolding fresh_ids_def by blast+

lemma UpdateNode_created:
  assumes "fresh_ids c created" "UpdateNode (ec_nodes c) name mutate w = Some (r, w')"
  shows "created w \<subseteq> created w'"
proof -
  have grows: "keeps (\<lambda>x. created w \<subseteq> created x) m" if "moves created (\<subseteq>) m" for m :: "('a, 'b) io"
    using that by (auto intro!: keepsI dest: movesD)
  from UpdateNode_keeps [OF grows [OF fresh_idsD(3) [OF assms(1)]] grows [OF fresh_idsD(4) [OF assms(1)]]] assms(2)
  show ?thesis by (auto dest: keepsD)
qed

text \<open>A node object with all its data, all its interfaces attached, and room for one more.\<close>

definition wants_interface :: "string \<Rightarrow> node \<Rightarrow> aws_instance_info \<Rightarrow> eni option list \<Rightarrow> bool" where
  "wants_interface name n i nc \<longleftrightarrow> node_Name n = name \<and>
     ProviderID n \<noteq> [] \<and> (\<exists>iid. ProviderIDToAWSInstanceID (ProviderID n) = Inr iid) \<and>
     AWSInstanceInfoFromAnnotations (Annotations n) = Inr (Some i) \<and> sendable_info i \<and>
     go_lookup (Labels n) LabelAWSInstanceID \<noteq> None \<and>
     (\<exists>cfg. ENIConfigFromAnnotations (Annotations n) = Inr cfg \<and> nc = elems cfg) \<and>
     (\<exists>k. InstanceENIsAvailable (InstanceType i) = Some k \<and> sound_list (k - 1) nc \<and> int (length nc) < k - 1) \<and>
     (\<forall>p \<in> set nc. is_attached p)"

lemma stale_run:
  assumes server: "node_server (ec_nodes c) name versions" and ec2: "ec2_answers c ty" "fresh_ids c created"
    and n: "wants_interface name n i nc" and seen: "ec_lister c name w = Some (Ok n, w0)"
    and run: "handleNode c name w = Some (Ok (), w')"
  obtains e v vs where "versions w' = v # vs" "interfaces_of v = map (map_option eni_norm) (nc @ [Some e])"
    "Index e = int (length nc) + 1" "EniID e \<notin> created w" "EniID e \<in> created w'" "created w \<subseteq> created w'"
proof -
  obtain iid cfg k l where node: "node_Name n = name" "ProviderID n \<noteq> []" "ProviderIDToAWSInstanceID (ProviderID n) = Inr iid"
      "AWSInstanceInfoFromAnnotations (Annotations n) = Inr (Some i)" "sendable_info i"
      "go_lookup (Labels n) LabelAWSInstanceID = Some l" "ENIConfigFromAnnotations (Annotations n) = Inr cfg" "nc = elems cfg"
      "InstanceENIsAvailable (InstanceType i) = Some k" "sound_list (k - 1) nc" "int (length nc) < k - 1"
      "\<forall>p \<in> set nc. is_attached p"
    using n by (auto simp: wants_interface_def)
  obtain numIPs where ips: "InstanceIPsAvailable (InstanceType i) = Some numIPs" using ips_if_enis [OF node(9)] by blast
  have all: "find_unattached 0 nc = Some None" using node(12) by (simp add: find_unattached_None is_attached_def)
  have "handleNode c name w = create_one c n i numIPs nc w0"
    using seen node ips all by (simp add: handleNode_def configure_enis_def of_sum_def Let_def)
  with run obtain e0 t w1 where e0: "createENI c (node_Name n) i numIPs w0 = Some (Ok e0, w1)"
    and t: "marshal_enis (Some (nc @ [Some (e0\<lparr>Index := int (length nc) + 1, CIDRBlock := SubnetCIDR i\<rparr>)])) = Inr t"
    and store: "UpdateNode (ec_nodes c) name (set_annotation IFSKey t) w1 = Some (Ok (), w')"
    using node(1) by (auto simp: create_one_def andthen_eq_Ok Let_def of_sum_Ok)
  let ?e = "e0\<lparr>Index := int (length nc) + 1, CIDRBlock := SubnetCIDR i\<rparr>"
  have small: "k - 1 \<le> 14" and b: "pred_option sendable_net (SubnetCIDR i)"
    using InstanceENIsAvailable_bounds [OF node(9)] node(5) by (simp_all add: sendable_info_def)
  have "sound_list (k - 1) (nc @ [Some ?e])"
    by (rule sound_create [OF node(10) all node(11) small createENI_sendable [OF ec2(1) e0] b])
  then have ok: "list_all sendable_eni (elems (Some (nc @ [Some ?e])))" by (simp add: sound_list_def)
  from UpdateNode_writes [OF server keeps_version_set(1) store] obtain v old vs m where
    w': "versions w' = v # old # vs" "set_annotation IFSKey t old = Some m" "v = m\<lparr>ResourceVersion := ResourceVersion v\<rparr>"
    by blast
  have "Annotations v = Annotations m" by (subst w'(3)) simp
  then have "go_lookup (Annotations v) IFSKey = Some t" using set_annotation_lookup(1) [OF w'(2)] by simp
  from ENIConfig_of_marshal [OF ok t this] have v: "interfaces_of v = map (map_option eni_norm) (nc @ [Some ?e])"
    by (simp add: interfaces_of_def)
  have "created w0 \<subseteq> created w1 \<and> EniID e0 \<notin> created w0 \<and> EniID e0 \<in> created w1"
  proof -
    have pure: "x' = x" if "secondary_ips ps prim ips x = Some (r, x')" for ps prim ips and x x' :: 'a and r
      using unchangingD [OF unchanging_secondary_ips [where v = "\<lambda>w. w"] that] .
    have "\<exists>inp ni. CreateNetworkInterface (ec_ec2 c) inp w0 = Some (Ok (Some ni), w1) \<and> ni_NetworkInterfaceId ni = Some (EniID e0)"
      using e0 unfolding createENI_def andthen_eq_Ok deref_Ok by (fastforce simp: ret_def dest!: pure)
    then show ?thesis using fresh_idsD(1) [OF ec2(2)] by blast
  qed
  moreover have "created w \<subseteq> created w0" by (rule movesD [OF fresh_idsD(2) [OF ec2(2)] seen])
  moreover have "created w1 \<subseteq> created w'" by (rule UpdateNode_created [OF ec2(2) store])
  ultimately show thesis using w'(1) v by (intro that [of v "old # vs" ?e]) auto
qed

text \<open>
  C38. The interface list is written from the cached node over whatever the API server has: when
  two successful runs in a row see the same cached node, one that has room for another interface,
  both create one for the same device index; the first is in the list after the first run, and
  after the second it is in no list, while EC2 still has it.
\<close>

theorem stale_cache_forgets_interface:
  assumes "node_server (ec_nodes c) name versions" "ec2_answers c ty" "fresh_ids c created"
    and "wants_interface name n i nc" "\<forall>e. Some e \<in> set nc \<longrightarrow> EniID e \<in> created w"
    and "ec_lister c name w = Some (Ok n, v)" "handleNode c name w = Some (Ok (), w1)"
    and "ec_lister c name w1 = Some (Ok n, v1)" "handleNode c name w1 = Some (Ok (), w2)"
  shows "\<exists>first second new1 old1 new2 old2.
    versions w1 = new1 # old1 \<and> interfaces_of new1 = map (map_option eni_norm) (nc @ [Some first]) \<and>
    versions w2 = new2 # old2 \<and> interfaces_of new2 = map (map_option eni_norm) (nc @ [Some second]) \<and>
    Index first = Index second \<and> EniID first \<in> created w2 \<and>
    (\<forall>e. Some e \<in> set (interfaces_of new2) \<longrightarrow> EniID e \<noteq> EniID first)"
proof -
  obtain e1 n1 vs1 where one: "versions w1 = n1 # vs1" "interfaces_of n1 = map (map_option eni_norm) (nc @ [Some e1])"
      "Index e1 = int (length nc) + 1" "EniID e1 \<notin> created w" "EniID e1 \<in> created w1" "created w \<subseteq> created w1"
    by (rule stale_run [OF assms(1-4,6,7)])
  obtain e2 n2 vs2 where two: "versions w2 = n2 # vs2" "interfaces_of n2 = map (map_option eni_norm) (nc @ [Some e2])"
      "Index e2 = int (length nc) + 1" "EniID e2 \<notin> created w1" "EniID e2 \<in> created w2" "created w1 \<subseteq> created w2"
    by (rule stale_run [OF assms(1-4,8,9)])
  have same: "EniID (eni_norm e) = EniID e" for e by (simp add: eni_norm_def)
  have "EniID e \<noteq> EniID e1" if "Some e \<in> set (interfaces_of n2)" for e
  proof -
    have "Some e \<in> map_option eni_norm ` set (nc @ [Some e2])" using that unfolding two(2) set_map .
    then obtain x where "x \<in> set (nc @ [Some e2])" "map_option eni_norm x = Some e" by (metis imageE)
    then obtain d where "Some d \<in> set nc \<or> d = e2" "e = eni_norm d" by (auto simp: map_option_eq_Some)
    then show ?thesis using one(4,5) two(4) assms(5) by (auto simp: same)
  qed
  with one two show ?thesis
    by (intro exI [of _ e1] exI [of _ e2] exI [of _ n1] exI [of _ vs1] exI [of _ n2] exI [of _ vs2]) auto
qed

subsection \<open>An interface that is lost\<close>

text \<open>An EC2 that numbers its interfaces, a store of versions, and a cache that never changes.\<close>

definition stale_info :: aws_instance_info where
  "stale_info = zero_info\<lparr>InstanceType := ''t2.nano''\<rparr>"

definition stale_text :: string where
  "stale_text = (case marshal_info stale_info of Inl e \<Rightarrow> [] | Inr t \<Rightarrow> t)"

definition stale_node :: node where
  "stale_node = cloud_node\<lparr>Labels := Some [LabelAWSInstanceID \<mapsto> ''i-1''], Annotations := Some [EC2InfoKey \<mapsto> stale_text]\<rparr>"

definition next_id :: "string list \<Rightarrow> string" where
  "next_id ids = concat ids @ ''x''"

definition stale_cloud :: "(string list \<times> nat \<times> node list) eni_controller" where
  "stale_cloud =
     \<lparr>ec_ec2 = cloud_ec2\<lparr>CreateNetworkInterface := \<lambda>inp w.
        ret (Some (cloud_interface\<lparr>ni_NetworkInterfaceId := Some (next_id (fst w))\<rparr>)) (next_id (fst w) # fst w, snd w)\<rparr>,
      ec_nodes = \<lparr>nodes_get = \<lambda>name. on_snd (nodes_get store_client name), nodes_update = \<lambda>n. on_snd (nodes_update store_client n)\<rparr>,
      ec_lister = \<lambda>name. ret stale_node\<rparr>"

lemma next_id_new: "next_id ids \<notin> set ids"
proof
  have "length x \<le> length (concat ids)" if "x \<in> set ids" for x
    using that by (induction ids) auto
  moreover assume "next_id ids \<in> set ids"
  ultimately have "length (next_id ids) \<le> length (concat ids)" by blast
  then show False by (simp add: next_id_def)
qed

lemma stale_server: "node_server (ec_nodes stale_cloud) name (\<lambda>w. store_versions (snd (snd w)))"
  using store_versions_distinct
  by (auto simp: node_server_def stale_cloud_def store_client_def on_snd_def neq_Nil_conv split: list.splits if_splits)

lemma stale_answers: "ec2_answers stale_cloud ''t2.nano''"
proof -
  have "is_v4 (ipv4 a b c d)" for a b c d by (simp add: is_v4_def)
  then show ?thesis
    using cloud_net by (auto simp: ec2_answers_def stale_cloud_def cloud_ec2_def cloud_interface_def cloud_texts sendable_ip_def)
qed

lemma stale_ids: "fresh_ids stale_cloud (\<lambda>w. set (fst w))"
  using next_id_new by (auto simp: fresh_ids_def stale_cloud_def moves_def on_snd_def)

lemma stale_parsed: "AWSInstanceInfoFromAnnotations (Annotations stale_node) = Inr (Some stale_info)"
proof -
  have ok: "sendable_info stale_info" by (simp add: sendable_info_def stale_info_def zero_info_def)
  then obtain t where "marshal_info stale_info = Inr t" using info_json.printed.encE by (metis marshal_info_def)
  then have "AWSInstanceInfoFromAnnotations (Annotations stale_node) = Inr (Some (info_norm stale_info))"
    by (intro AWSInstanceInfo_of_marshal [OF ok]) (simp_all add: stale_node_def go_lookup_def stale_text_def)
  then show ?thesis by (simp add: info_norm_def stale_info_def zero_info_def)
qed

lemma stale_wants: "wants_interface ''node-1'' stale_node stale_info []"
proof -
  have "InstanceENIsAvailable (InstanceType stale_info) = Some 2"
    by (simp add: stale_info_def InstanceENIsAvailable_def enis_table_def)
  moreover have "ENIConfigFromAnnotations (Annotations stale_node) = Inr None"
    by (simp add: ENIConfigFromAnnotations_def stale_node_def go_lookup_def annotation_keys)
  ultimately show ?thesis
    using stale_parsed cloud_node_id
    by (auto simp: wants_interface_def stale_node_def cloud_node_def go_lookup_def sound_list_def enis_wf_def sendable_info_def
        stale_info_def zero_info_def)
qed

lemma stale_handle:
  assumes "ns \<noteq> []" "Annotations (hd ns) \<noteq> None"
  shows "\<exists>n. handleNode stale_cloud ''node-1'' (ids, (0, ns)) = Some (Ok (), (next_id ids # ids, (0, n # ns))) \<and> Annotations n \<noteq> None"
proof -
  let ?e = "\<lparr>EniID = next_id ids, Attached = False, InterfaceIP = ipv4 10 1 0 8, Index = 1, CIDRBlock = None,
    IPs = Some [ipv4 10 1 0 9], MACAddress = ''02:01''\<rparr>"
  have "is_v4 (ipv4 a b c d)" for a b c d by (simp add: is_v4_def)
  then have "list_all sendable_eni (elems (Some [Some ?e]))"
    by (simp add: sendable_eni_def sendable_ip_def int64_def)
  then obtain t where t: "marshal_enis (Some [Some ?e]) = Inr t"
    using enis_json.printed.encE by (metis marshal_enis_def)
  obtain n0 ns' f where ns: "ns = n0 # ns'" "Annotations n0 = Some f" using assms by (cases ns) auto
  have made: "createENI stale_cloud ''node-1'' stale_info m (ids, v) = Some (Ok (?e\<lparr>Index := 0\<rparr>), (next_id ids # ids, v))" for m v
    by (simp add: createENI_def stale_cloud_def cloud_ec2_def cloud_interface_def deref_def cloud_texts)
  have "\<exists>n. create_one stale_cloud stale_node stale_info m [] (ids, (0, ns)) =
      Some (Ok (), (next_id ids # ids, (0, n # ns))) \<and> Annotations n \<noteq> None" for m
    using t ns made by (simp add: create_one_def Let_def of_sum_def stale_node_def cloud_node_def)
      (simp add: stale_info_def zero_info_def stale_cloud_def store_client_def
      UpdateNode_def update_loop.simps set_annotation_def go_assign_def)
  moreover have "\<exists>m. handleNode stale_cloud ''node-1'' (ids, (0, ns)) = create_one stale_cloud stale_node stale_info m [] (ids, (0, ns))"
  proof -
    have k: "InstanceENIsAvailable (InstanceType stale_info) = Some 2"
      by (simp add: stale_info_def InstanceENIsAvailable_def enis_table_def)
    obtain m where "InstanceIPsAvailable (InstanceType stale_info) = Some m" using ips_if_enis [OF k] by blast
    moreover have "ENIConfigFromAnnotations (Annotations stale_node) = Inr None"
      by (simp add: ENIConfigFromAnnotations_def stale_node_def go_lookup_def annotation_keys)
    moreover have "ec_lister stale_cloud ''node-1'' w = Some (Ok stale_node, w)" for w by (simp add: stale_cloud_def)
    moreover have "ProviderID stale_node = ''i-1''" "go_lookup (Labels stale_node) LabelAWSInstanceID = Some ''i-1''"
      by (simp_all add: stale_node_def cloud_node_def go_lookup_def)
    ultimately show ?thesis
      using k stale_parsed cloud_node_id by (intro exI [of _ m]) (simp add: handleNode_def configure_enis_def of_sum_def Let_def)
  qed
  ultimately show ?thesis by metis
qed

theorem stale_cache_forgets_interface_witness:
  "\<exists>w1 w2 new old second. handleNode stale_cloud ''node-1'' ([], (0, [stale_node])) = Some (Ok (), w1) \<and>
     handleNode stale_cloud ''node-1'' w1 = Some (Ok (), w2) \<and> fst w2 = [''xx'', ''x''] \<and>
     store_versions (snd (snd w2)) = new # old \<and> interfaces_of new = [Some second] \<and>
     (\<exists>lost \<in> set (fst w2). lost \<noteq> EniID second)"
proof -
  have ids: "next_id [] = ''x''" "next_id [''x''] = ''xx''" by (simp_all add: next_id_def)
  have "Annotations (hd [stale_node]) \<noteq> None" by (simp add: stale_node_def)
  then obtain n1 where one: "handleNode stale_cloud ''node-1'' ([], (0, [stale_node])) = Some (Ok (), ([''x''], (0, [n1, stale_node])))"
      "Annotations n1 \<noteq> None"
    using stale_handle [of "[stale_node]" "[]"] by (auto simp: ids)
  then obtain n2 where two: "handleNode stale_cloud ''node-1'' ([''x''], (0, [n1, stale_node])) =
      Some (Ok (), ([''xx'', ''x''], (0, [n2, n1, stale_node])))"
    using stale_handle [of "[n1, stale_node]" "[''x'']"] by (auto simp: ids)
  have seen: "ec_lister stale_cloud ''node-1'' w = Some (Ok stale_node, w)" for w by (simp add: stale_cloud_def)
  have none: "\<forall>e. Some e \<in> set [] \<longrightarrow> EniID e \<in> set (fst ([] :: string list, (0 :: nat, [stale_node])))" by simp
  from stale_cache_forgets_interface [OF stale_server stale_answers stale_ids stale_wants none seen one(1) seen two]
  obtain lost second :: eni and new old where r: "store_versions (snd (snd ([''xx'', ''x''], (0 :: nat, [n2, n1, stale_node])))) = new # old"
      "interfaces_of new = map (map_option eni_norm) ([] @ [Some second])" "EniID lost \<in> set (fst ([''xx'', ''x''], (0 :: nat, [n2, n1, stale_node])))"
      "\<forall>e. Some e \<in> set (interfaces_of new) \<longrightarrow> EniID e \<noteq> EniID lost" by (elim exE conjE) (rule that)
  have new: "interfaces_of new = [Some (eni_norm second)]" using r(2) by simp
  have "EniID lost \<noteq> EniID (eni_norm second)" "EniID lost \<in> set [''xx'', ''x'']" using r(3,4) by (auto simp: new)
  with one(1) two r(1) new show ?thesis
    by (intro exI [of _ "([''x''], (0, [n1, stale_node]))"] exI [of _ "([''xx'', ''x''], (0, [n2, n1, stale_node]))"]
      exI [of _ new] exI [of _ old] exI [of _ "eni_norm second"]) auto
qed

end
