(* ===== verification/If_Controller.thy ===== *)
theory If_Controller
  imports Provider_ID
begin

text \<open>
  cmd/vpcnet-daemon/ifcontroller: the handler that brings up the ENIs of the daemon's own node
  and hands them to the allocator. Its three interfaces (\<open>IFMgr\<close>, \<open>Allocator\<close> and
  \<open>CNIInstaller\<close>) are records of operations over the world; the locale \<open>interface_manager\<close>
  states what the handler relies on for the first.
\<close>

section \<open>The handler\<close>

record 'w if_mgr_if =
  ifm_InterfaceExists :: "string \<Rightarrow> ('w, bool) io"
  ifm_ConfigureInterface :: "string \<Rightarrow> string \<Rightarrow> ip_net \<Rightarrow> ip_net option \<Rightarrow> ('w, unit) io"
  ifm_ConfigureRoutes :: "string \<Rightarrow> int \<Rightarrow> ip_net option \<Rightarrow> net_ip list \<Rightarrow> ('w, unit) io"
  ifm_ConfigureIPMasq :: "net_ip \<Rightarrow> net_ip list \<Rightarrow> ('w, unit) io"

record 'w cni_installer =
  ci_Configured :: "('w, bool) io"
  ci_Install :: "('w, unit) io"

record 'w if_controller =
  ic_instanceID :: string
  ic_hostIP :: net_ip
  ic_ifMgr :: "'w if_mgr_if"
  ic_SetENIs :: "enis \<Rightarrow> ('w, unit) io"
  ic_cniInstaller :: "'w cni_installer"
  ic_lister :: "string \<Rightarrow> ('w, node) io"

text \<open>One attached ENI: configured when the host has no interface of its name.\<close>

definition configure_eni :: "'w if_mgr_if \<Rightarrow> net_ip \<Rightarrow> string \<Rightarrow> eni \<Rightarrow> ('w, unit) io" where
  "configure_eni m hostIP nodeName e =
     andthen (ifm_InterfaceExists m (interface_name e)) (\<lambda>exists.
       if \<not> exists then
         andthen (deref (CIDRBlock e)) (\<lambda>block.
         andthen (ifm_ConfigureInterface m (interface_name e) (MACAddress e)
           \<lparr>net_IP = InterfaceIP e, net_Mask = net_Mask block\<rparr> (as_net_ipnet (CIDRBlock e))) (\<lambda>_.
         andthen (wrapping (\<lambda>err. Wrapf err ''Error configuring routes for interface %s on node %s''
             [interface_name e, nodeName])
           (ifm_ConfigureRoutes m (interface_name e) (Index e) (as_net_ipnet (CIDRBlock e)) (elems (IPs e)))) (\<lambda>_.
         wrapping (\<lambda>err. Wrapf err ''Error configuring ipmasq for interface %s on node %s''
             [interface_name e, nodeName])
           (ifm_ConfigureIPMasq m hostIP (elems (IPs e))))))
       else ret ())"

text \<open>The loop over the node's ENIs; the result are those that the allocator may use.\<close>

fun configure_all ::
  "'w if_mgr_if \<Rightarrow> net_ip \<Rightarrow> string \<Rightarrow> eni option list \<Rightarrow> eni option list \<Rightarrow> ('w, eni option list) io"
where
  "configure_all m hostIP nodeName [] configed = ret configed"
| "configure_all m hostIP nodeName (None # ps) configed = go_panic ''nil pointer dereference''"
| "configure_all m hostIP nodeName (Some e # ps) configed =
     (if Attached e then
        andthen (configure_eni m hostIP nodeName e) (\<lambda>_.
        configure_all m hostIP nodeName ps (configed @ [Some e]))
      else configure_all m hostIP nodeName ps configed)"

definition offer_enis :: "'w if_controller \<Rightarrow> node \<Rightarrow> eni option list \<Rightarrow> ('w, unit) io" where
  "offer_enis c n nc =
     andthen (configure_all (ic_ifMgr c) (ic_hostIP c) (node_Name n) nc []) (\<lambda>configed.
     andthen (ic_SetENIs c (Some configed)) (\<lambda>_.
     andthen (wrapping (\<lambda>err. Wrapf err ''Error checking if CNI configured'' []) (ci_Configured (ic_cniInstaller c)))
       (\<lambda>cc.
     if \<not> cc then wrapping (\<lambda>err. Wrapf err ''Error installing CNI deps'' []) (ci_Install (ic_cniInstaller c))
     else ret ())))"

definition if_handleNode :: "'w if_controller \<Rightarrow> string \<Rightarrow> ('w, unit) io" where
  "if_handleNode c key =
     andthen (attempt (ic_lister c key)) (\<lambda>r.
       case r of
         Inl err \<Rightarrow> if is_not_found err then ret () else throw err
       | Inr n \<Rightarrow>
           if ProviderID n = [] then ret ()
           else andthen (of_sum (ProviderIDToAWSInstanceID (ProviderID n))) (\<lambda>iid.
             if iid \<noteq> ic_instanceID c then ret ()
             else andthen (of_sum (ENIConfigFromAnnotations (Annotations n))) (\<lambda>nc.
               case nc of
                 None \<Rightarrow> ret ()
               | Some ps \<Rightarrow> offer_enis c n ps)))"

section \<open>What the handler relies on\<close>

text \<open>The ENIs of a node's list that are attached.\<close>

fun attached_enis :: "eni option list \<Rightarrow> eni list" where
  "attached_enis [] = []"
| "attached_enis (None # ps) = attached_enis ps"
| "attached_enis (Some e # ps) = (if Attached e then e # attached_enis ps else attached_enis ps)"

lemma set_attached_enis: "e \<in> set (attached_enis ps) \<longleftrightarrow> Some e \<in> set ps \<and> Attached e"
  by (induction ps rule: attached_enis.induct) auto

text \<open>
  \<open>ifs\<close>: the names of the host's interfaces. \<open>routed\<close> and \<open>natted\<close>: the routing and the
  NAT rules for some pod addresses are in place. A call may only add to these, fail or not.
\<close>

locale interface_manager =
  fixes m :: "'w if_mgr_if"
    and inv :: "'w \<Rightarrow> bool"
    and ifs :: "'w \<Rightarrow> string set"
    and routed :: "'w \<Rightarrow> int \<Rightarrow> net_ip list \<Rightarrow> bool"
    and natted :: "'w \<Rightarrow> net_ip list \<Rightarrow> bool"
  assumes exists_law: "inv w \<Longrightarrow> ifm_InterfaceExists m name w = Some (r, w') \<Longrightarrow>
      inv w' \<and> ifs w' = ifs w \<and> (routed w i ips \<longrightarrow> routed w' i ips) \<and> (natted w ips \<longrightarrow> natted w' ips) \<and>
      (\<forall>b. r = Ok b \<longrightarrow> b = (name \<in> ifs w))"
    and interface_law: "inv w \<Longrightarrow> ifm_ConfigureInterface m name mac ip sn w = Some (rc, w') \<Longrightarrow>
      inv w' \<and> ifs w' \<subseteq> insert name (ifs w) \<and> (routed w i ips \<longrightarrow> routed w' i ips) \<and>
      (natted w ips \<longrightarrow> natted w' ips) \<and> (rc = Ok () \<longrightarrow> name \<in> ifs w')"
    and routes_law: "inv w \<Longrightarrow> ifm_ConfigureRoutes m name idx sn pods w = Some (rc, w') \<Longrightarrow>
      inv w' \<and> ifs w' \<subseteq> ifs w \<and> (routed w i ips \<longrightarrow> routed w' i ips) \<and> (natted w ips \<longrightarrow> natted w' ips) \<and>
      (rc = Ok () \<longrightarrow> routed w' idx pods)"
    and masq_law: "inv w \<Longrightarrow> ifm_ConfigureIPMasq m hostIP pods w = Some (rc, w') \<Longrightarrow>
      inv w' \<and> ifs w' \<subseteq> ifs w \<and> (routed w i ips \<longrightarrow> routed w' i ips) \<and> (natted w ips \<longrightarrow> natted w' ips) \<and>
      (rc = Ok () \<longrightarrow> natted w' pods)"
begin

definition wired :: "'w \<Rightarrow> eni \<Rightarrow> bool" where
  "wired w e \<longleftrightarrow> routed w (Index e) (elems (IPs e)) \<and> natted w (elems (IPs e))"

lemma configure_eni_Ok:
  assumes "inv w" "interface_name e \<in> ifs w \<longrightarrow> wired w e"
    and run: "configure_eni m hostIP nodeName e w = Some (Ok (), w')"
  shows "inv w' \<and> ifs w' \<subseteq> insert (interface_name e) (ifs w) \<and> wired w' e \<and> (\<forall>d. wired w d \<longrightarrow> wired w' d)"
proof -
  obtain b v where ex: "ifm_InterfaceExists m (interface_name e) w = Some (Ok b, v)"
    and rest: "(if \<not> b then
         andthen (deref (CIDRBlock e)) (\<lambda>block.
         andthen (ifm_ConfigureInterface m (interface_name e) (MACAddress e)
           \<lparr>net_IP = InterfaceIP e, net_Mask = net_Mask block\<rparr> (as_net_ipnet (CIDRBlock e))) (\<lambda>_.
         andthen (wrapping (\<lambda>err. Wrapf err ''Error configuring routes for interface %s on node %s''
             [interface_name e, nodeName])
           (ifm_ConfigureRoutes m (interface_name e) (Index e) (as_net_ipnet (CIDRBlock e)) (elems (IPs e)))) (\<lambda>_.
         wrapping (\<lambda>err. Wrapf err ''Error configuring ipmasq for interface %s on node %s''
             [interface_name e, nodeName])
           (ifm_ConfigureIPMasq m hostIP (elems (IPs e))))))
       else ret ()) v = Some (Ok (), w')"
    using run unfolding configure_eni_def andthen_eq_Ok [of "ifm_InterfaceExists _ _"] by blast
  have v: "inv v" "ifs v = ifs w" "b = (interface_name e \<in> ifs w)" "wired w d \<Longrightarrow> wired v d" for d
    using exists_law [OF assms(1) ex] by (auto simp: wired_def)
  show ?thesis
  proof (cases b)
    case True
    then show ?thesis using rest v assms(2) by auto
  next
    case False
    then obtain mac ip u1 u2 where
      1: "ifm_ConfigureInterface m (interface_name e) mac ip (as_net_ipnet (CIDRBlock e)) v = Some (Ok (), u1)"
      and 2: "ifm_ConfigureRoutes m (interface_name e) (Index e) (as_net_ipnet (CIDRBlock e)) (elems (IPs e)) u1 = Some (Ok (), u2)"
      and 3: "ifm_ConfigureIPMasq m hostIP (elems (IPs e)) u2 = Some (Ok (), w')"
      using rest by (auto simp: andthen_eq_Ok deref_def split: option.splits)
    have u1: "inv u1" "ifs u1 \<subseteq> insert (interface_name e) (ifs v)" "wired v d \<Longrightarrow> wired u1 d" for d
      using interface_law [OF v(1) 1] by (auto simp: wired_def)
    have u2: "inv u2" "ifs u2 \<subseteq> ifs u1" "routed u2 (Index e) (elems (IPs e))" "wired u1 d \<Longrightarrow> wired u2 d" for d
      using routes_law [OF u1(1) 2] by (auto simp: wired_def)
    have "inv w'" "ifs w' \<subseteq> ifs u2" "wired w' e" "wired u2 d \<Longrightarrow> wired w' d" for d
      using masq_law [OF u2(1) 3] u2(3) by (auto simp: wired_def)
    with u1 u2 v show ?thesis by auto
  qed
qed

text \<open>ENIs with different names, of which those that are there already are wired.\<close>

definition sane :: "'w \<Rightarrow> eni option list \<Rightarrow> bool" where
  "sane w ps \<longleftrightarrow> distinct (map interface_name (attached_enis ps)) \<and>
     (\<forall>e \<in> set (attached_enis ps). interface_name e \<in> ifs w \<longrightarrow> wired w e)"

lemma configure_all_Ok:
  assumes "inv w" "sane w ps" "configure_all m hostIP nodeName ps acc w = Some (Ok es, w')"
  shows "inv w' \<and> es = acc @ map Some (attached_enis ps) \<and>
    (\<forall>e \<in> set (attached_enis ps). wired w' e) \<and> (\<forall>d. wired w d \<longrightarrow> wired w' d)"
  using assms
proof (induction ps arbitrary: w acc)
  case (Cons p ps)
  then obtain e where p: "p = Some e" by (cases p) auto
  show ?case
  proof (cases "Attached e")
    case False
    then have "sane w ps" using Cons.prems(2) p by (auto simp: sane_def)
    with Cons.IH [OF Cons.prems(1) this] Cons.prems(3) p False show ?thesis by auto
  next
    case True
    then obtain v where one: "configure_eni m hostIP nodeName e w = Some (Ok (), v)"
      and rest: "configure_all m hostIP nodeName ps (acc @ [Some e]) v = Some (Ok es, w')"
      using Cons.prems(3) p by (auto simp: andthen_eq_Ok)
    have v: "inv v" "ifs v \<subseteq> insert (interface_name e) (ifs w)" "wired v e" "\<forall>d. wired w d \<longrightarrow> wired v d"
      using configure_eni_Ok [OF Cons.prems(1) _ one] Cons.prems(2) p True by (auto simp: sane_def)
    have "sane v ps"
      unfolding sane_def
    proof (intro conjI ballI impI)
      show "distinct (map interface_name (attached_enis ps))" using Cons.prems(2) p True by (simp add: sane_def)
      fix d assume d: "d \<in> set (attached_enis ps)" "interface_name d \<in> ifs v"
      have "interface_name e \<notin> interface_name ` set (attached_enis ps)"
        using Cons.prems(2) p True by (simp add: sane_def)
      then have "interface_name d \<noteq> interface_name e" using d(1) by (metis imageI)
      with d v(2) have "interface_name d \<in> ifs w" by auto
      then have "wired w d" using Cons.prems(2) p True d(1) by (simp add: sane_def)
      then show "wired v d" using v(4) by blast
    qed
    with Cons.IH [OF v(1) this rest] v p True show ?thesis by auto
  qed
qed simp

end

end
