(* ===== verification/If_Mgr.thy ===== *)
theory If_Mgr
  imports App_Config Json_Struct
begin

text \<open>
  pkg/ifmgr: the network of the host. The netlink library, iptables and the file of routing
  table names are parameters over the world, gathered in a \<open>host\<close>; the second section states
  what they do to the kernel's tables, and \<open>tables_host\<close> is a host that does exactly that.
\<close>

section \<open>The host's interfaces\<close>

record link =
  link_Name :: string
  link_HardwareAddr :: string
  link_Index :: int

datatype scope = SCOPE_UNIVERSE | SCOPE_LINK

record route =
  rt_Table :: int
  rt_LinkIndex :: int
  rt_Dst :: "ip_net option"
  rt_Scope :: scope
  rt_Gw :: net_ip

text \<open>The fields of \<open>netlink.Rule\<close> that the code sets; \<open>NewRule\<close> leaves the others unused.\<close>

record rule =
  ru_Priority :: int
  ru_Table :: int
  ru_Src :: "ip_net option"
  ru_Dst :: "ip_net option"

text \<open>
  \<open>EnsureRule\<close> takes the position, the table, the chain and the arguments of the rule.
  \<open>OpenAppend\<close> and \<open>Fprintln\<close> are the two steps that append a line to a file.
\<close>

record 'w host =
  LinkList :: "('w, link list) io"
  LinkByName :: "string \<Rightarrow> ('w, link) io"
  LinkSetName :: "link \<Rightarrow> string \<Rightarrow> ('w, unit) io"
  AddrAdd :: "link \<Rightarrow> ip_net \<Rightarrow> ('w, unit) io"
  LinkSetUp :: "link \<Rightarrow> ('w, unit) io"
  RouteAdd :: "route \<Rightarrow> ('w, unit) io"
  RuleAdd :: "rule \<Rightarrow> ('w, unit) io"
  Interfaces :: "('w, string list) io"
  EnsureChain :: "string \<Rightarrow> string \<Rightarrow> ('w, bool) io"
  EnsureRule :: "string \<Rightarrow> string \<Rightarrow> string \<Rightarrow> string list \<Rightarrow> ('w, bool) io"
  host_ReadFile :: "string \<Rightarrow> ('w, string) io"
  OpenAppend :: "string \<Rightarrow> ('w, unit) io"
  Fprintln :: "string \<Rightarrow> string \<Rightarrow> ('w, unit) io"

section \<open>The operations\<close>

definition dstPrio :: int where "dstPrio = 5000"
definition srcPrio :: int where "srcPrio = 6000"
definition mainTable :: int where "mainTable = 254"

definition rt_tables :: string where
  "rt_tables = ''/etc/iproute2/rt_tables''"

text \<open>The interface manager: its host (with iptables) and its network configuration.\<close>

record 'w if_mgr =
  mgr_Network :: "network option"
  mgr_host :: "'w host"

definition NewIFMgr :: "network option \<Rightarrow> 'w host \<Rightarrow> 'w if_mgr" where
  "NewIFMgr netConf host = \<lparr>mgr_Network = netConf, mgr_host = host\<rparr>"

definition ConfigureInterface ::
  "'w if_mgr \<Rightarrow> string \<Rightarrow> string \<Rightarrow> ip_net \<Rightarrow> ip_net option \<Rightarrow> ('w, unit) io" where
  "ConfigureInterface i ifname mac ip subnet =
     andthen (LinkList (mgr_host i)) (\<lambda>ifs.
       case last_such (\<lambda>l. link_HardwareAddr l = mac) ifs of
         None \<Rightarrow> throw (Errorf ''No interface found on system with MAC %q'' [mac])
       | Some hostIf \<Rightarrow>
           andthen (wrapping (\<lambda>e. Wrapf e ''Error renaming interface %s to %s'' [link_Name hostIf, ifname])
             (LinkSetName (mgr_host i) hostIf ifname)) (\<lambda>_.
           andthen (wrapping (\<lambda>e. Wrapf e ''Could not add %s to %s'' [ipnet_string ip, link_Name hostIf])
             (AddrAdd (mgr_host i) hostIf ip)) (\<lambda>_.
           wrapping (\<lambda>e. Wrapf e ''Error bringing host interface %q up'' [link_Name hostIf])
             (LinkSetUp (mgr_host i) hostIf))))"

text \<open>The name of the ENI's routing table, written for \<open>ip rule\<close>; \<open>Fprintln\<close> adds a second newline.\<close>

definition table_line :: "string \<Rightarrow> int \<Rightarrow> string" where
  "table_line ifName eniAttachIndex = itoa (FromPodRTBase + eniAttachIndex) @ '' frompod-'' @ ifName"

definition newline :: string where "newline = [CHR 0x0A]"

fun contains :: "string \<Rightarrow> string \<Rightarrow> bool" where
  "contains [] sub \<longleftrightarrow> sub = []"
| "contains (c # s) sub \<longleftrightarrow> take (length sub) (c # s) = sub \<or> contains s sub"

definition ensureTables :: "'w host \<Rightarrow> string \<Rightarrow> int \<Rightarrow> ('w, unit) io" where
  "ensureTables host ifName eniAttachIndex =
     andthen (wrapping (\<lambda>e. Wrapf e ''Error reading route table file'' []) (host_ReadFile host rt_tables)) (\<lambda>curr.
       each (\<lambda>l.
         if \<not> contains curr (l @ newline) then
           andthen (wrapping (\<lambda>e. Wrapf e ''error opening rt file for append'' []) (OpenAppend host rt_tables)) (\<lambda>_.
           wrapping (\<lambda>e. Wrapf e ''error writing %q to rt file'' [l]) (Fprintln host rt_tables (l @ newline)))
         else ret ())
       [table_line ifName eniAttachIndex])"

text \<open>\<open>gw := net.ParseIP(eniSubnet.IP.String()).To4(); gw[3]++\<close>\<close>

definition gateway :: "ip_net option \<Rightarrow> ('w, net_ip) io" where
  "gateway eniSubnet =
     andthen (deref eniSubnet) (\<lambda>sn.
       let gw = ip_bytes (ip_to4 (parse_ip (ip_string (net_IP sn)))) in
       if length gw \<le> 3 then go_panic ''index out of range'' else ret (IP (gw[3 := gw ! 3 + 1])))"

definition all_v4 :: ip_net where
  "all_v4 = \<lparr>net_IP = ipv4 0 0 0 0, net_Mask = cidr_mask 0 32\<rparr>"

definition host_net_of :: "net_ip \<Rightarrow> ip_net" where
  "host_net_of ip = \<lparr>net_IP = ip, net_Mask = cidr_mask 32 32\<rparr>"

text \<open>The routes of an ENI's table; \<open>eth0\<close> is the primary link, when pods are masqueraded.\<close>

definition via :: "int \<Rightarrow> int \<Rightarrow> net_ip \<Rightarrow> ip_net option \<Rightarrow> route" where
  "via table index gw dst =
     \<lparr>rt_Table = table, rt_LinkIndex = index, rt_Dst = dst, rt_Scope = SCOPE_UNIVERSE, rt_Gw = gw\<rparr>"

definition eni_routes ::
  "network \<Rightarrow> int \<Rightarrow> link \<Rightarrow> link option \<Rightarrow> net_ip \<Rightarrow> ip_net option \<Rightarrow> route list" where
  "eni_routes n index link eth0 gw eniSubnet =
     (let table = FromPodRTBase + index in
      [via table (link_Index link) gw (as_net_ipnet (ServiceCIDR n)),
       via table (link_Index link) gw (as_net_ipnet (ClusterCIDR n))] @
      (case eth0 of
         Some e \<Rightarrow>
           [\<lparr>rt_Table = table, rt_LinkIndex = link_Index link, rt_Dst = eniSubnet, rt_Scope = SCOPE_LINK,
             rt_Gw = nil_ip\<rparr>] @
           map (\<lambda>an. via table (link_Index link) gw (as_net_ipnet an)) (VPCRouted n) @
           [via table (link_Index e) gw (Some all_v4)]
       | None \<Rightarrow> [via table (link_Index link) gw (Some all_v4)]))"

text \<open>For each pod address the rule for traffic to it, and after it the one for traffic from it.\<close>

definition pod_rules :: "int \<Rightarrow> net_ip list \<Rightarrow> rule list" where
  "pod_rules index podIPs = concat (map (\<lambda>ip.
     [\<lparr>ru_Priority = dstPrio, ru_Table = mainTable, ru_Src = None, ru_Dst = Some (host_net_of ip)\<rparr>,
      \<lparr>ru_Priority = srcPrio, ru_Table = FromPodRTBase + index, ru_Src = Some (host_net_of ip), ru_Dst = None\<rparr>])
     podIPs)"

text \<open>The kernel's \<open>EEXIST\<close>, whose text is \<open>file exists\<close>.\<close>

definition file_exists :: "error \<Rightarrow> bool" where
  "file_exists err = (case err of ExtErr s \<Rightarrow> take 11 (rev s) = rev ''file exists'' | _ \<Rightarrow> False)"

definition add_route :: "'w host \<Rightarrow> int \<Rightarrow> route \<Rightarrow> ('w, unit) io" where
  "add_route host index r =
     andthen (attempt (RouteAdd host r)) (\<lambda>res.
       case res of
         Inl err \<Rightarrow> if \<not> file_exists err
           then throw (Wrapf err ''Error ensuring outbound route %v for ENI %d'' [itoa index]) else ret ()
       | Inr _ \<Rightarrow> ret ())"

definition ConfigureRoutes ::
  "'w if_mgr \<Rightarrow> string \<Rightarrow> int \<Rightarrow> ip_net option \<Rightarrow> net_ip list \<Rightarrow> ('w, unit) io" where
  "ConfigureRoutes i ifName awsEniAttachIndex eniSubnet podIPs =
     andthen (wrapping (\<lambda>e. Wrapf e ''failed to lookup %q'' [ifName]) (LinkByName (mgr_host i) ifName)) (\<lambda>link.
     andthen (wrapping (\<lambda>e. Wrapf e ''Error writing rt_tables'' [])
       (ensureTables (mgr_host i) ifName awsEniAttachIndex)) (\<lambda>_.
     andthen (gateway eniSubnet) (\<lambda>gw.
     andthen (deref (mgr_Network i)) (\<lambda>n.
     andthen
       (if PodIPMasq n then
          andthen (wrapping (\<lambda>e. Wrapf e ''failed to lookup %q'' [HostPrimaryInterface n])
            (LinkByName (mgr_host i) (HostPrimaryInterface n))) (\<lambda>l. ret (Some l))
        else ret None) (\<lambda>eth0.
     andthen (each (add_route (mgr_host i) awsEniAttachIndex)
       (eni_routes n awsEniAttachIndex link eth0 gw eniSubnet)) (\<lambda>_.
     each (\<lambda>r. wrapping (\<lambda>e. Wrapf e ''failed to add rule %v'' []) (RuleAdd (mgr_host i) r))
       (pod_rules awsEniAttachIndex podIPs)))))))"

subsection \<open>Masquerading\<close>

definition masq_chain :: string where "masq_chain = ''K8S-VPCNET''"

definition masq_comment :: "string list" where
  "masq_comment = [''-m'', ''comment'', ''--comment'',
     ''k8s-vpcnet generated rules for masquerading outbound pod traffic'']"

definition append_nat :: "'w host \<Rightarrow> string \<Rightarrow> string list \<Rightarrow> ('w, bool) io" where
  "append_nat host chain args = EnsureRule host ''-A'' ''nat'' chain (args @ masq_comment)"

definition multicastNet :: ip_net where
  "multicastNet = \<lparr>net_IP = parse_ip ''224.0.0.0'', net_Mask = cidr_mask 4 32\<rparr>"

definition nonmasqNets :: "network \<Rightarrow> ip_net option list" where
  "nonmasqNets n =
     [as_net_ipnet (ClusterCIDR n), as_net_ipnet (ServiceCIDR n), Some multicastNet] @
     map as_net_ipnet (VPCRouted n)"

definition accept_args :: "ip_net \<Rightarrow> string list" where
  "accept_args sn = [''-d'', ipnet_string sn, ''-j'', ''ACCEPT'']"

definition jump_args :: "net_ip \<Rightarrow> string list" where
  "jump_args ip = [''-s'', ip_string ip @ ''/32'', ''-j'', masq_chain]"

definition metadata_args :: "net_ip \<Rightarrow> int \<Rightarrow> net_ip \<Rightarrow> string list" where
  "metadata_args hostIP port ip =
     [''-s'', ip_string ip @ ''/32'', ''-d'', ''169.254.169.254'', ''-p'', ''tcp'', ''--dport'', ''80'',
      ''-j'', ''DNAT'', ''--to-destination'', ip_string hostIP @ '':'' @ itoa port]"

definition ConfigureIPMasq :: "'w if_mgr \<Rightarrow> net_ip \<Rightarrow> net_ip list \<Rightarrow> ('w, unit) io" where
  "ConfigureIPMasq i hostIP podIPs =
     andthen (wrapping (\<lambda>e. Wrapf e ''failed to ensure chain %q'' [masq_chain])
       (EnsureChain (mgr_host i) ''nat'' masq_chain)) (\<lambda>_.
     andthen (deref (mgr_Network i)) (\<lambda>n.
     andthen (each (\<lambda>p. andthen (deref p) (\<lambda>sn.
         andthen (wrapping (\<lambda>e. Wrapf e ''Error adding skip rule'' [])
           (append_nat (mgr_host i) masq_chain (accept_args sn))) (\<lambda>_. ret ())))
       (nonmasqNets n)) (\<lambda>_.
     andthen (wrapping (\<lambda>e. Wrapf e ''Error adding masquerade rull'' [])
       (append_nat (mgr_host i) masq_chain [''-j'', ''MASQUERADE''])) (\<lambda>_.
     each (\<lambda>ip.
       andthen (wrapping (\<lambda>e. Wrapf e ''Error inserting jump for pod IP %v'' [ip_string ip])
         (append_nat (mgr_host i) ''POSTROUTING'' (jump_args ip))) (\<lambda>_.
       if InstanceMetadataRedirectPort n \<noteq> 0 then
         andthen (wrapping (\<lambda>e. Wrapf e ''Error inserting jump for pod IP %v'' [ip_string ip])
           (append_nat (mgr_host i) ''PREROUTING'' (metadata_args hostIP (InstanceMetadataRedirectPort n) ip)))
           (\<lambda>_. ret ())
       else ret ())) podIPs))))"

definition InterfaceExists :: "'w if_mgr \<Rightarrow> string \<Rightarrow> ('w, bool) io" where
  "InterfaceExists i name =
     andthen (wrapping (\<lambda>e. Wrapf e ''Error checking for %q existence'' [name]) (Interfaces (mgr_host i)))
       (\<lambda>ifs. ret (\<exists>n \<in> set ifs. n = name))"

end
