(* ===== verification/Host_Files.thy ===== *)
theory Host_Files
  imports Go_Prelude
begin

text \<open>
  The host's files. The operations of packages os and io/ioutil that the repository calls
  are parameters over the world, gathered in a \<open>file_ops\<close>; \<open>file_system\<close> states what a
  POSIX file system does to the contents of its files, and the operations on a map
  (\<open>map_files\<close>) do that. Of path/filepath the model has \<open>Clean\<close>, \<open>Dir\<close> and \<open>Join\<close>.
\<close>

section \<open>Paths\<close>

text \<open>\<open>filepath.Clean\<close>: the elements kept so far, and one more.\<close>

definition clean_step :: "bool \<Rightarrow> string list \<Rightarrow> string \<Rightarrow> string list" where
  "clean_step rooted out e =
     (if e = [] \<or> e = ''.'' then out
      else if e = ''..'' then
        (if out \<noteq> [] \<and> last out \<noteq> ''..'' then butlast out else if rooted then out else out @ [''..''])
      else out @ [e])"

definition filepath_clean :: "string \<Rightarrow> string" where
  "filepath_clean p =
     (let rooted = (take 1 p = ''/'');
          out = strings_join ''/'' (foldl (clean_step rooted) [] (strings_split (CHR ''/'') p))
      in if rooted then ''/'' @ out else if out = [] then ''.'' else out)"

text \<open>\<open>filepath.Dir\<close>: the text up to the last slash, cleaned.\<close>

definition filepath_dir :: "string \<Rightarrow> string" where
  "filepath_dir p = filepath_clean (rev (dropWhile (\<lambda>c. c \<noteq> CHR ''/'') (rev p)))"

text \<open>\<open>filepath.Join\<close>: the elements that are not empty, joined and cleaned.\<close>

definition filepath_join :: "string list \<Rightarrow> string" where
  "filepath_join es =
     (let es' = dropWhile (\<lambda>e. e = []) es in if es' = [] then [] else filepath_clean (strings_join ''/'' es'))"

section \<open>File operations\<close>

text \<open>
  An open file is named by its path. \<open>os_Copy tmp src\<close> is \<open>io.Copy\<close> into the new file
  \<open>tmp\<close> from the open \<open>src\<close>.
\<close>

record 'o file_ops =
  os_Stat :: "string \<Rightarrow> ('o, unit) io"
  os_ReadFile :: "string \<Rightarrow> ('o, string) io"
  os_MkdirAll :: "string \<Rightarrow> ('o, unit) io"
  os_WriteFile :: "string \<Rightarrow> string \<Rightarrow> ('o, unit) io"
  os_Open :: "string \<Rightarrow> ('o, unit) io"
  os_TempFile :: "string \<Rightarrow> ('o, string) io"
  os_Copy :: "string \<Rightarrow> string \<Rightarrow> ('o, unit) io"
  os_Close :: "string \<Rightarrow> ('o, unit) io"
  os_Chmod :: "string \<Rightarrow> ('o, unit) io"
  os_Remove :: "string \<Rightarrow> ('o, unit) io"
  os_Rename :: "string \<Rightarrow> string \<Rightarrow> ('o, unit) io"

text \<open>Calls that return, and return a value or an error.\<close>

definition plain_call :: "('o, 'a) io \<Rightarrow> bool" where
  "plain_call m \<longleftrightarrow> (\<forall>w. \<exists>r w'. m w = Some (r, w') \<and> ((\<exists>a. r = Ok a) \<or> (\<exists>e. r = Fail e)))"

text \<open>
  \<open>file_system fs files\<close>: \<open>files\<close> gives the contents of the regular files by path. Every
  call returns. A failed write may leave anything in its file, and no other file is touched;
  a rename happens or does not. \<open>Stat\<close> and \<open>Open\<close> may also succeed on a directory, but nothing can
  be copied from one; of renaming only what it does to files is described.
\<close>

definition file_system :: "'o file_ops \<Rightarrow> ('o \<Rightarrow> string \<rightharpoonup> string) \<Rightarrow> bool" where
  "file_system fs files \<longleftrightarrow>
     (\<forall>p d. plain_call (os_Stat fs p) \<and> plain_call (os_ReadFile fs p) \<and> plain_call (os_MkdirAll fs p) \<and>
        plain_call (os_WriteFile fs p d)) \<and>
     (\<forall>p. unchanging files (os_Stat fs p) \<and> unchanging files (os_ReadFile fs p) \<and>
        unchanging files (os_MkdirAll fs p)) \<and>
     (\<forall>p w e w'. os_Stat fs p w = Some (Fail e, w') \<longrightarrow> is_not_exist e \<longrightarrow> files w p = None) \<and>
     (\<forall>p w d w'. os_ReadFile fs p w = Some (Ok d, w') \<longrightarrow> files w p = Some d) \<and>
     (\<forall>p d w r w'. os_WriteFile fs p d w = Some (r, w') \<longrightarrow>
        (if r = Ok () then files w' = (files w)(p \<mapsto> d) else \<exists>c. files w' = (files w)(p := c)))"

text \<open>A path that \<open>TempFile\<close> makes in a directory, if that is given in its clean form.\<close>

definition in_dir :: "string \<Rightarrow> string \<Rightarrow> bool" where
  "in_dir d p \<longleftrightarrow> (filepath_clean d = d \<longrightarrow> take (length d) p = d)"

definition no_copy_of :: "'o file_ops \<Rightarrow> string \<Rightarrow> bool" where
  "no_copy_of fs src \<longleftrightarrow> (\<forall>tmp w r w'. os_Copy fs tmp src w = Some (r, w') \<longrightarrow> r \<noteq> Ok ())"

definition file_copies :: "'o file_ops \<Rightarrow> ('o \<Rightarrow> string \<rightharpoonup> string) \<Rightarrow> bool" where
  "file_copies fs files \<longleftrightarrow>
     (\<forall>p q. plain_call (os_Open fs p) \<and> plain_call (os_TempFile fs p) \<and> plain_call (os_Copy fs p q) \<and>
        plain_call (os_Close fs p) \<and> plain_call (os_Chmod fs p) \<and> plain_call (os_Remove fs p) \<and>
        plain_call (os_Rename fs p q)) \<and>
     (\<forall>p. unchanging files (os_Open fs p) \<and> unchanging files (os_Close fs p) \<and>
        unchanging files (os_Chmod fs p)) \<and>
     (\<forall>p w w'. os_Open fs p w = Some (Ok (), w') \<longrightarrow> files w p \<noteq> None \<or> no_copy_of fs p) \<and>
     (\<forall>d w r w'. os_TempFile fs d w = Some (r, w') \<longrightarrow>
        (case r of
           Ok tmp \<Rightarrow> files w tmp = None \<and> in_dir d tmp \<and> files w' = (files w)(tmp \<mapsto> [])
         | _ \<Rightarrow> files w' = files w)) \<and>
     (\<forall>tmp src w r w'. os_Copy fs tmp src w = Some (r, w') \<longrightarrow>
        (if r = Ok () then files w' = (files w)(tmp := files w src) else \<exists>c. files w' = (files w)(tmp := c))) \<and>
     (\<forall>p w r w'. os_Remove fs p w = Some (r, w') \<longrightarrow>
        files w' = (if r = Ok () then (files w)(p := None) else files w)) \<and>
     (\<forall>p q w r w'. os_Rename fs p q w = Some (r, w') \<longrightarrow> files w p \<noteq> None \<longrightarrow>
        files w' = (if r = Ok () then (files w)(p := None, q := files w p) else files w))"

text \<open>Files that are a map from paths to contents, and never fail to be written.\<close>

type_synonym files = "string \<rightharpoonup> string"

definition no_such_file :: "string \<Rightarrow> error" where
  "no_such_file p = NotExist (p @ '': no such file or directory'')"

definition fresh_path :: "files \<Rightarrow> string \<Rightarrow> string" where
  "fresh_path f d = d @ ''/tmp''"

definition map_files :: "files file_ops" where
  "map_files =
     \<lparr>os_Stat = (\<lambda>p f. if f p = None then throw (no_such_file p) f else ret () f),
      os_ReadFile = (\<lambda>p f. case f p of None \<Rightarrow> throw (no_such_file p) f | Some d \<Rightarrow> ret d f),
      os_MkdirAll = (\<lambda>p. ret ()),
      os_WriteFile = (\<lambda>p d f. ret () (f(p \<mapsto> d))),
      os_Open = (\<lambda>p f. if f p = None then throw (no_such_file p) f else ret () f),
      os_TempFile = (\<lambda>d f. let p = fresh_path f d in
        if f p = None then ret p (f(p \<mapsto> [])) else throw (ExtErr ''file exists'') f),
      os_Copy = (\<lambda>tmp src f. ret () (f(tmp := f src))),
      os_Close = (\<lambda>p. ret ()),
      os_Chmod = (\<lambda>p. ret ()),
      os_Remove = (\<lambda>p f. if f p = None then throw (no_such_file p) f else ret () (f(p := None))),
      os_Rename = (\<lambda>p q f. if f p = None then throw (no_such_file p) f else ret () (f(p := None, q := f p)))\<rparr>"

lemma map_files_system: "file_system map_files (\<lambda>f. f)"
  by (auto simp: file_system_def map_files_def plain_call_def unchanging_def no_such_file_def
      split: option.splits if_splits)

lemma map_files_copies: "file_copies map_files (\<lambda>f. f)"
  by (auto simp: file_copies_def map_files_def plain_call_def unchanging_def no_such_file_def Let_def
      fresh_path_def in_dir_def split: option.splits if_splits)

subsection \<open>Consequences\<close>

lemma plain_callE:
  assumes "plain_call m"
  obtains (Ok) a w' where "m w = Some (Ok a, w')" | (Fail) e w' where "m w = Some (Fail e, w')"
  using assms unfolding plain_call_def by metis

lemma file_system_stat:
  "file_system fs files \<Longrightarrow> os_Stat fs p w = Some (Fail e, w') \<Longrightarrow> is_not_exist e \<Longrightarrow> files w p = None"
  unfolding file_system_def by blast

end
