(* ===== verification/Host_Tables.thy ===== *)
theory Host_Tables
  imports If_Mgr Host_Files
begin

text \<open>
  What netlink, iptables and the file of table names do to the kernel's tables, as their
  documentation has it: a call takes effect when it returns no error, and else changes
  nothing. \<open>tables_host\<close> runs them on a \<open>tables\<close> value.
\<close>

record tables =
  t_links :: "link list"
  t_addrs :: "(int \<times> ip_net) list"
  t_up :: "int list"
  t_routes :: "route list"
  t_rules :: "rule list"
  t_chains :: "string \<times> string \<Rightarrow> string list list option"
  t_names :: string

section \<open>Effects\<close>

definition rename_link :: "link \<Rightarrow> string \<Rightarrow> tables \<Rightarrow> tables" where
  "rename_link l n t =
     t\<lparr>t_links := map (\<lambda>k. if link_Index k = link_Index l then k\<lparr>link_Name := n\<rparr> else k) (t_links t)\<rparr>"

definition add_addr :: "link \<Rightarrow> ip_net \<Rightarrow> tables \<Rightarrow> tables" where
  "add_addr l a t = t\<lparr>t_addrs := t_addrs t @ [(link_Index l, a)]\<rparr>"

definition link_up :: "link \<Rightarrow> tables \<Rightarrow> tables" where
  "link_up l t = t\<lparr>t_up := List.insert (link_Index l) (t_up t)\<rparr>"

definition put_route :: "route \<Rightarrow> tables \<Rightarrow> tables" where
  "put_route r t = t\<lparr>t_routes := t_routes t @ [r]\<rparr>"

definition put_rule :: "rule \<Rightarrow> tables \<Rightarrow> tables" where
  "put_rule r t = t\<lparr>t_rules := t_rules t @ [r]\<rparr>"

definition ensure_chain :: "string \<Rightarrow> string \<Rightarrow> tables \<Rightarrow> tables" where
  "ensure_chain tb c t =
     t\<lparr>t_chains := (t_chains t)((tb, c) \<mapsto> (case t_chains t (tb, c) of None \<Rightarrow> [] | Some rs \<Rightarrow> rs))\<rparr>"

definition ensure_rule :: "string \<Rightarrow> string \<Rightarrow> string list \<Rightarrow> tables \<Rightarrow> tables" where
  "ensure_rule tb c args t =
     (case t_chains t (tb, c) of
        None \<Rightarrow> t
      | Some rs \<Rightarrow> if args \<in> set rs then t else t\<lparr>t_chains := (t_chains t)((tb, c) \<mapsto> rs @ [args])\<rparr>)"

definition put_name :: "string \<Rightarrow> tables \<Rightarrow> tables" where
  "put_name s t = t\<lparr>t_names := t_names t @ s @ newline\<rparr>"

definition does :: "('w \<Rightarrow> tables) \<Rightarrow> ('w, 'a) io \<Rightarrow> (tables \<Rightarrow> tables) \<Rightarrow> bool" where
  "does net m f \<longleftrightarrow> plain_call m \<and>
     (\<forall>w r w'. m w = Some (r, w') \<longrightarrow> net w' = (case r of Ok _ \<Rightarrow> f (net w) | _ \<Rightarrow> net w))"

text \<open>What the value of a successful call, or the error of a failed one, says about the tables.\<close>

definition tells :: "('w \<Rightarrow> tables) \<Rightarrow> ('w, 'a) io \<Rightarrow> ('a \<Rightarrow> tables \<Rightarrow> bool) \<Rightarrow> (error \<Rightarrow> tables \<Rightarrow> bool) \<Rightarrow> bool" where
  "tells net m p q \<longleftrightarrow> (\<forall>w a w'. m w = Some (Ok a, w') \<longrightarrow> p a (net w)) \<and>
     (\<forall>w e w'. m w = Some (Fail e, w') \<longrightarrow> q e (net w))"

text \<open>Two routes for one destination in one table: what the kernel answers \<open>file exists\<close> to.\<close>

definition same_dst :: "route \<Rightarrow> route \<Rightarrow> bool" where
  "same_dst r s \<longleftrightarrow> rt_Table r = rt_Table s \<and> rt_Dst r = rt_Dst s"

definition host_tables :: "'w host \<Rightarrow> ('w \<Rightarrow> tables) \<Rightarrow> bool" where
  "host_tables h net \<longleftrightarrow>
     does net (LinkList h) (\<lambda>t. t) \<and>
     tells net (LinkList h) (\<lambda>ls t. ls = t_links t) (\<lambda>_ _. True) \<and>
     (\<forall>n. does net (LinkByName h n) (\<lambda>t. t)) \<and>
     (\<forall>n. tells net (LinkByName h n) (\<lambda>l t. l \<in> set (t_links t) \<and> link_Name l = n) (\<lambda>_ _. True)) \<and>
     (\<forall>l n. does net (LinkSetName h l n) (rename_link l n)) \<and>
     (\<forall>l a. does net (AddrAdd h l a) (add_addr l a)) \<and>
     (\<forall>l. does net (LinkSetUp h l) (link_up l)) \<and>
     (\<forall>r. does net (RouteAdd h r) (put_route r)) \<and>
     (\<forall>r. tells net (RouteAdd h r) (\<lambda>_ _. True)
        (\<lambda>e t. file_exists e \<longrightarrow> (\<exists>s \<in> set (t_routes t). same_dst r s))) \<and>
     (\<forall>r. does net (RuleAdd h r) (put_rule r)) \<and>
     does net (Interfaces h) (\<lambda>t. t) \<and>
     tells net (Interfaces h) (\<lambda>ns t. ns = map link_Name (t_links t)) (\<lambda>_ _. True) \<and>
     (\<forall>tb c. does net (EnsureChain h tb c) (ensure_chain tb c)) \<and>
     (\<forall>tb c args. does net (EnsureRule h ''-A'' tb c args) (ensure_rule tb c args)) \<and>
     (\<forall>tb c args. tells net (EnsureRule h ''-A'' tb c args) (\<lambda>_ t. t_chains t (tb, c) \<noteq> None) (\<lambda>_ _. True)) \<and>
     does net (host_ReadFile h rt_tables) (\<lambda>t. t) \<and>
     tells net (host_ReadFile h rt_tables) (\<lambda>d t. d = t_names t) (\<lambda>_ _. True) \<and>
     does net (OpenAppend h rt_tables) (\<lambda>t. t) \<and>
     (\<forall>s. does net (Fprintln h rt_tables s) (put_name s))"

lemma host_tables_does:
  assumes "host_tables h net"
  shows "does net (LinkList h) (\<lambda>t. t)" "does net (LinkByName h n) (\<lambda>t. t)"
    "does net (LinkSetName h l n) (rename_link l n)" "does net (AddrAdd h l a) (add_addr l a)"
    "does net (LinkSetUp h l) (link_up l)" "does net (RouteAdd h r) (put_route r)"
    "does net (RuleAdd h ru) (put_rule ru)" "does net (Interfaces h) (\<lambda>t. t)"
    "does net (EnsureChain h tb c) (ensure_chain tb c)"
    "does net (EnsureRule h ''-A'' tb c args) (ensure_rule tb c args)"
    "does net (host_ReadFile h rt_tables) (\<lambda>t. t)" "does net (OpenAppend h rt_tables) (\<lambda>t. t)"
    "does net (Fprintln h rt_tables s) (put_name s)"
  using assms by (simp_all add: host_tables_def)

lemma host_tables_tells:
  assumes "host_tables h net"
  shows "tells net (LinkList h) (\<lambda>ls t. ls = t_links t) (\<lambda>_ _. True)"
    "tells net (LinkByName h n) (\<lambda>l t. l \<in> set (t_links t) \<and> link_Name l = n) (\<lambda>_ _. True)"
    "tells net (RouteAdd h r) (\<lambda>_ _. True)
      (\<lambda>e t. file_exists e \<longrightarrow> (\<exists>s \<in> set (t_routes t). same_dst r s))"
    "tells net (Interfaces h) (\<lambda>ns t. ns = map link_Name (t_links t)) (\<lambda>_ _. True)"
    "tells net (EnsureRule h ''-A'' tb c args) (\<lambda>_ t. t_chains t (tb, c) \<noteq> None) (\<lambda>_ _. True)"
    "tells net (host_ReadFile h rt_tables) (\<lambda>d t. d = t_names t) (\<lambda>_ _. True)"
  using assms by (simp_all add: host_tables_def)

lemma tells_Ok: "tells net m p q \<Longrightarrow> m w = Some (Ok a, w') \<Longrightarrow> p a (net w)"
  by (auto simp: tells_def)

lemma tells_Fail: "tells net m p q \<Longrightarrow> m w = Some (Fail e, w') \<Longrightarrow> q e (net w)"
  by (auto simp: tells_def)

lemma does_Ok: "does net m f \<Longrightarrow> m w = Some (Ok a, w') \<Longrightarrow> net w' = f (net w)"
  by (fastforce simp: does_def)

lemma does_Fail: "does net m f \<Longrightarrow> m w = Some (Fail e, w') \<Longrightarrow> net w' = net w"
  by (fastforce simp: does_def)

lemma does_unchanging: "does net m (\<lambda>t. t) \<Longrightarrow> unchanging net m"
  by (fastforce simp: does_def unchanging_def split: outcome.splits)

lemma does_returns: "does net m f \<Longrightarrow> returns m"
  by (fastforce simp: does_def plain_call_def returns_def)

section \<open>A host that is its tables\<close>

text \<open>A change of the tables that never fails.\<close>

definition change :: "(tables \<Rightarrow> tables) \<Rightarrow> 'a \<Rightarrow> (tables, 'a) io" where
  "change f a t = Some (Ok a, f t)"

definition tables_host :: "tables host" where
  "tables_host =
     \<lparr>LinkList = \<lambda>t. Some (Ok (t_links t), t),
      LinkByName = \<lambda>n t. (case find (\<lambda>l. link_Name l = n) (t_links t) of
        None \<Rightarrow> Some (Fail (ExtErr ''Link not found''), t) | Some l \<Rightarrow> Some (Ok l, t)),
      LinkSetName = \<lambda>l n. change (rename_link l n) (),
      AddrAdd = \<lambda>l a. change (add_addr l a) (),
      LinkSetUp = \<lambda>l. change (link_up l) (),
      RouteAdd = \<lambda>r t. (if list_ex (same_dst r) (t_routes t) then Some (Fail (ExtErr ''file exists''), t)
        else Some (Ok (), put_route r t)),
      RuleAdd = \<lambda>r t. (if r \<in> set (t_rules t) then Some (Fail (ExtErr ''file exists''), t)
        else Some (Ok (), put_rule r t)),
      Interfaces = \<lambda>t. Some (Ok (map link_Name (t_links t)), t),
      EnsureChain = \<lambda>tb c t. Some (Ok (t_chains t (tb, c) \<noteq> None), ensure_chain tb c t),
      EnsureRule = \<lambda>pos tb c args t. (case t_chains t (tb, c) of
        None \<Rightarrow> Some (Fail (ExtErr ''No chain/target/match by that name.''), t)
      | Some rs \<Rightarrow> Some (Ok (args \<in> set rs), ensure_rule tb c args t)),
      host_ReadFile = \<lambda>p t. Some (Ok (t_names t), t),
      OpenAppend = \<lambda>p t. Some (Ok (), t),
      Fprintln = \<lambda>p s. change (put_name s) ()\<rparr>"

lemma tables_host_tables: "host_tables tables_host (\<lambda>t. t)"
  by (auto simp: host_tables_def does_def tells_def plain_call_def tables_host_def change_def find_Some_iff list_ex_iff
      find_None_iff split: option.splits if_splits)

end
