(* ===== verification/If_Mgr_Theorems.thy ===== *)
theory If_Mgr_Theorems
  imports Host_Tables
begin

unbundle bit_operations_syntax

text \<open>
  What the interface manager's calls leave in the kernel's tables: the interface under its
  ENI name, the routes and policy rules that make a pod's traffic leave by the ENI its
  address belongs to, and the gateway of that ENI's subnet.
\<close>

section \<open>Loops over the tables\<close>

lemma each_fold:
  assumes "\<And>x w w'. x \<in> set xs \<Longrightarrow> f x w = Some (Ok (), w') \<Longrightarrow> net w' = g x (net w)"
    and "each f xs w = Some (Ok (), w')"
  shows "net w' = fold g xs (net w)"
  using assms
proof (induction xs arbitrary: w)
  case (Cons x xs)
  obtain v where "f x w = Some (Ok (), v)" "each f xs v = Some (Ok (), w')"
    using Cons.prems(2) by (auto simp: andthen_eq_Ok)
  then show ?case using Cons.IH [of v] Cons.prems(1) [of x w v] Cons.prems(1) by simp
qed simp

lemma fold_put_rule: "fold put_rule rs t = t\<lparr>t_rules := t_rules t @ rs\<rparr>"
  by (induction rs arbitrary: t) (simp_all add: put_rule_def)

lemma add_route_Ok:
  assumes "host_tables h net" "add_route h i r w = Some (Ok (), w')"
  obtains new where "net w' = (net w)\<lparr>t_routes := t_routes (net w) @ new\<rparr>" "set new \<subseteq> {r}"
    "\<exists>s \<in> set (t_routes (net w')). same_dst r s"
proof -
  note run = assms(2) [unfolded add_route_def andthen_eq_Ok]
  from run obtain a v where a: "attempt (RouteAdd h r) w = Some (Ok a, v)"
    and rest: "(case a of Inl err \<Rightarrow> if \<not> file_exists err
        then throw (Wrapf err ''Error ensuring outbound route %v for ENI %d'' [itoa i]) else ret ()
      | Inr _ \<Rightarrow> ret ()) v = Some (Ok (), w')" by blast
  from a show thesis
  proof (cases rule: attempt_cases)
    case (Ok u)
    then have "w' = v" "net v = put_route r (net w)"
      using rest does_Ok [OF host_tables_does(6) [OF assms(1)] Ok(1)] by auto
    then show thesis by (intro that [of "[r]"]) (auto simp: put_route_def same_dst_def)
  next
    case (Fail e)
    then have v: "w' = v" "file_exists e" using rest by (auto split: if_splits)
    have "net v = net w" by (rule does_Fail [OF host_tables_does(6) [OF assms(1)] Fail(1)])
    moreover have "\<exists>s \<in> set (t_routes (net w)). same_dst r s"
      using tells_Fail [OF host_tables_tells(3) [OF assms(1)] Fail(1)] v by blast
    ultimately show thesis using v by (intro that [of "[]"]) auto
  qed auto
qed

lemma add_routes_Ok:
  assumes "host_tables h net" "each (add_route h i) rs w = Some (Ok (), w')"
  shows "\<exists>new. net w' = (net w)\<lparr>t_routes := t_routes (net w) @ new\<rparr> \<and> set new \<subseteq> set rs \<and>
    (\<forall>r \<in> set rs. \<exists>s \<in> set (t_routes (net w')). same_dst r s)"
  using assms(2)
proof (induction rs arbitrary: w)
  case (Cons r rs)
  obtain v where one: "add_route h i r w = Some (Ok (), v)" and "each (add_route h i) rs v = Some (Ok (), w')"
    using Cons.prems by (auto simp: andthen_eq_Ok)
  then obtain new where new: "net w' = (net v)\<lparr>t_routes := t_routes (net v) @ new\<rparr>" "set new \<subseteq> set rs"
    "\<forall>r \<in> set rs. \<exists>s \<in> set (t_routes (net w')). same_dst r s" using Cons.IH by blast
  obtain new1 where new1: "net v = (net w)\<lparr>t_routes := t_routes (net w) @ new1\<rparr>" "set new1 \<subseteq> {r}"
    "\<exists>s \<in> set (t_routes (net v)). same_dst r s" by (rule add_route_Ok [OF assms(1) one])
  show ?case
    using new new1 by (intro exI [of _ "new1 @ new"]) auto
qed (auto intro: exI [of _ "[]"])

section \<open>The file of table names\<close>

lemma contains_append: "contains (s @ sub @ t) sub"
proof (induction s)
  case Nil
  then show ?case by (cases sub; cases t) simp_all
qed simp

lemma ensureTables_Ok:
  assumes "host_tables h net" "ensureTables h ifName i w = Some (Ok (), w')"
  shows "\<exists>s. net w' = (net w)\<lparr>t_names := s\<rparr> \<and> contains s (table_line ifName i @ newline)"
proof -
  let ?l = "table_line ifName i @ newline"
  obtain curr v where read: "host_ReadFile h rt_tables w = Some (Ok curr, v)"
    and rest: "(if \<not> contains curr ?l then
        andthen (wrapping (\<lambda>e. Wrapf e ''error opening rt file for append'' []) (OpenAppend h rt_tables))
          (\<lambda>_. wrapping (\<lambda>e. Wrapf e ''error writing %q to rt file'' [table_line ifName i])
             (Fprintln h rt_tables ?l)) else ret ()) v = Some (Ok (), w')"
    using assms(2) by (auto simp: ensureTables_def andthen_eq_Ok)
  have v: "net v = net w" by (rule does_Ok [OF host_tables_does(11) [OF assms(1)] read])
  have curr: "curr = t_names (net w)" by (rule tells_Ok [OF host_tables_tells(6) [OF assms(1)] read])
  show ?thesis
  proof (cases "contains curr ?l")
    case True
    with rest v curr show ?thesis by (intro exI [of _ curr]) simp
  next
    case False
    then obtain u where opened: "OpenAppend h rt_tables v = Some (Ok (), u)"
      and written: "Fprintln h rt_tables ?l u = Some (Ok (), w')" using rest by (auto simp: andthen_eq_Ok)
    have "net w' = put_name ?l (net w)"
      using does_Ok [OF host_tables_does(13) [OF assms(1)] written] v
        does_Ok [OF host_tables_does(12) [OF assms(1)] opened] by simp
    then show ?thesis using contains_append [of "t_names (net w)" ?l newline]
      by (intro exI [of _ "t_names (net w) @ ?l @ newline"]) (simp add: put_name_def)
  qed
qed

section \<open>ConfigureInterface\<close>

lemma ConfigureInterface_Ok:
  assumes "host_tables (mgr_host i) net" "ConfigureInterface i ifname mac ip subnet w = Some (Ok (), w')"
  obtains l where "l \<in> set (t_links (net w))" "link_HardwareAddr l = mac"
    "net w' = link_up l (add_addr l ip (rename_link l ifname (net w)))"
proof -
  obtain ifs v where ls: "LinkList (mgr_host i) w = Some (Ok ifs, v)"
    and rest: "(case last_such (\<lambda>l. link_HardwareAddr l = mac) ifs of
         None \<Rightarrow> throw (Errorf ''No interface found on system with MAC %q'' [mac])
       | Some hostIf \<Rightarrow>
           andthen (wrapping (\<lambda>e. Wrapf e ''Error renaming interface %s to %s'' [link_Name hostIf, ifname])
             (LinkSetName (mgr_host i) hostIf ifname)) (\<lambda>_.
           andthen (wrapping (\<lambda>e. Wrapf e ''Could not add %s to %s'' [ipnet_string ip, link_Name hostIf])
             (AddrAdd (mgr_host i) hostIf ip)) (\<lambda>_.
           wrapping (\<lambda>e. Wrapf e ''Error bringing host interface %q up'' [link_Name hostIf])
             (LinkSetUp (mgr_host i) hostIf)))) v = Some (Ok (), w')"
    using assms(2) by (auto simp: ConfigureInterface_def andthen_eq_Ok)
  obtain l where l: "last_such (\<lambda>l. link_HardwareAddr l = mac) ifs = Some l"
    using rest by (cases "last_such (\<lambda>l. link_HardwareAddr l = mac) ifs") auto
  obtain u1 u2 where u: "LinkSetName (mgr_host i) l ifname v = Some (Ok (), u1)"
    "AddrAdd (mgr_host i) l ip u1 = Some (Ok (), u2)" "LinkSetUp (mgr_host i) l u2 = Some (Ok (), w')"
    using rest l by (auto simp: andthen_eq_Ok)
  have ifs: "ifs = t_links (net w)" "net v = net w"
    using tells_Ok [OF host_tables_tells(1) [OF assms(1)] ls] does_Ok [OF host_tables_does(1) [OF assms(1)] ls]
    by simp_all
  show thesis
  proof (rule that)
    show "l \<in> set (t_links (net w))" "link_HardwareAddr l = mac"
      using last_such_Some [OF l] ifs by auto
    show "net w' = link_up l (add_addr l ip (rename_link l ifname (net w)))"
      using does_Ok [OF host_tables_does(3) [OF assms(1)] u(1)] does_Ok [OF host_tables_does(4) [OF assms(1)] u(2)]
        does_Ok [OF host_tables_does(5) [OF assms(1)] u(3)] ifs by simp
  qed
qed

section \<open>ConfigureRoutes\<close>

lemma gateway_Some:
  "ip_to4 (net_IP sn) = IP [a, b, c, d] \<Longrightarrow> gateway (Some sn) = ret (IP [a, b, c, d + 1])"
  by (rule ext) (simp add: gateway_def parse_ip_string deref_def)

lemma gateway_Ok: "gateway sn w = Some (Ok gw, w') \<Longrightarrow> w' = w \<and> length (ip_bytes gw) = 4"
  by (cases sn) (auto simp: gateway_def deref_def Let_def ip_to4_def andthen_def split: if_splits)

lemma ConfigureRoutes_Ok:
  assumes tabs: "host_tables (mgr_host i) net"
    and run: "ConfigureRoutes i ifName idx eniSubnet podIPs w = Some (Ok (), w')"
  obtains n link eth0 gw new names where
    "mgr_Network i = Some n" "link \<in> set (t_links (net w))" "link_Name link = ifName"
    "gateway eniSubnet w = Some (Ok gw, w)" "eth0 = None \<longleftrightarrow> \<not> PodIPMasq n"
    "\<And>e. eth0 = Some e \<Longrightarrow> e \<in> set (t_links (net w)) \<and> link_Name e = HostPrimaryInterface n"
    "net w' = (net w)\<lparr>t_names := names, t_routes := t_routes (net w) @ new,
       t_rules := t_rules (net w) @ pod_rules idx podIPs\<rparr>"
    "set new \<subseteq> set (eni_routes n idx link eth0 gw eniSubnet)"
    "\<forall>r \<in> set (eni_routes n idx link eth0 gw eniSubnet). \<exists>s \<in> set (t_routes (net w')). same_dst r s"
proof -
  obtain link u1 x2 u2 gw u3 n u4 eth0 u5 x6 u6 where
    1: "LinkByName (mgr_host i) ifName w = Some (Ok link, u1)"
    and 2: "ensureTables (mgr_host i) ifName idx u1 = Some (Ok x2, u2)"
    and 3: "gateway eniSubnet u2 = Some (Ok gw, u3)"
    and 4: "deref (mgr_Network i) u3 = Some (Ok n, u4)"
    and 5: "(if PodIPMasq n then
          andthen (wrapping (\<lambda>e. Wrapf e ''failed to lookup %q'' [HostPrimaryInterface n])
            (LinkByName (mgr_host i) (HostPrimaryInterface n))) (\<lambda>l. ret (Some l))
        else ret None) u4 = Some (Ok eth0, u5)"
    and 6: "each (add_route (mgr_host i) idx) (eni_routes n idx link eth0 gw eniSubnet) u5 = Some (Ok x6, u6)"
    and 7: "each (\<lambda>r. wrapping (\<lambda>e. Wrapf e ''failed to add rule %v'' []) (RuleAdd (mgr_host i) r))
       (pod_rules idx podIPs) u6 = Some (Ok (), w')"
    using run unfolding ConfigureRoutes_def andthen_eq_Ok [of "wrapping _ (LinkByName _ ifName)"]
      andthen_eq_Ok [of "wrapping _ (ensureTables _ _ _)"] andthen_eq_Ok [of "gateway _"] andthen_eq_Ok [of "deref _"]
      andthen_eq_Ok [of "if _ then _ else _"] andthen_eq_Ok [of "each _ _"] wrapping_eq_Ok
    by (elim exE conjE) (rule that)
  have unit: "x2 = ()" "x6 = ()" by simp_all
  have v1: "net u1 = net w" "link \<in> set (t_links (net w))" "link_Name link = ifName"
    using does_Ok [OF host_tables_does(2) [OF tabs] 1] tells_Ok [OF host_tables_tells(2) [OF tabs] 1] by simp_all
  obtain names where v2: "net u2 = (net u1)\<lparr>t_names := names\<rparr>"
    using ensureTables_Ok [OF tabs 2 [unfolded unit]] by blast
  have v3: "u3 = u2" using gateway_Ok [OF 3] by simp
  have gw: "gateway eniSubnet w = Some (Ok gw, w)"
    using 3 by (cases eniSubnet) (auto simp: gateway_def deref_def Let_def andthen_def split: if_splits)
  have n: "mgr_Network i = Some n" "u4 = u3"
    using 4 by (auto simp: deref_def split: option.splits)
  have v5: "net u5 = net u4 \<and> (eth0 = None \<longleftrightarrow> \<not> PodIPMasq n) \<and>
    (\<forall>e. eth0 = Some e \<longrightarrow> e \<in> set (t_links (net u4)) \<and> link_Name e = HostPrimaryInterface n)"
    using 5 does_Ok [OF host_tables_does(2) [OF tabs]] tells_Ok [OF host_tables_tells(2) [OF tabs]]
    by (auto simp: andthen_eq_Ok split: if_splits)
  obtain new where v6: "net u6 = (net u5)\<lparr>t_routes := t_routes (net u5) @ new\<rparr>"
    "set new \<subseteq> set (eni_routes n idx link eth0 gw eniSubnet)"
    "\<forall>r \<in> set (eni_routes n idx link eth0 gw eniSubnet). \<exists>s \<in> set (t_routes (net u6)). same_dst r s"
    using add_routes_Ok [OF tabs 6 [unfolded unit]] by blast
  have "net w' = fold put_rule (pod_rules idx podIPs) (net u6)"
    by (rule each_fold [OF _ 7]) (simp add: does_Ok [OF host_tables_does(7) [OF tabs]])
  then have v7: "net w' = (net u6)\<lparr>t_rules := t_rules (net u6) @ pod_rules idx podIPs\<rparr>"
    by (simp add: fold_put_rule)
  show thesis
    by (rule that [OF n(1) v1(2,3) gw, of eth0 new names]) (use v1 v2 v3 n v5 v6 v7 in auto)
qed

subsection \<open>Which table a packet is routed by\<close>

text \<open>
  The kernel's choice: of the rules that match a packet's source and destination the one with
  the lowest priority number decides. Rule 0, the table of local addresses, is left out.
\<close>

definition in_net :: "net_ip \<Rightarrow> ip_net \<Rightarrow> bool" where
  "in_net ip n \<longleftrightarrow> ip_mask (ip_to4 ip) (net_Mask n) = ip_mask (ip_to4 (net_IP n)) (net_Mask n)"

definition rule_matches :: "net_ip \<Rightarrow> net_ip \<Rightarrow> rule \<Rightarrow> bool" where
  "rule_matches src dst r \<longleftrightarrow>
     (case ru_Src r of None \<Rightarrow> True | Some n \<Rightarrow> in_net src n) \<and>
     (case ru_Dst r of None \<Rightarrow> True | Some n \<Rightarrow> in_net dst n)"

definition chosen_table :: "rule list \<Rightarrow> net_ip \<Rightarrow> net_ip \<Rightarrow> int option" where
  "chosen_table rs src dst =
     (case sort_key ru_Priority (filter (\<lambda>r. ru_Priority r \<noteq> 0 \<and> rule_matches src dst r) rs) of
        [] \<Rightarrow> None | r # _ \<Rightarrow> Some (ru_Table r))"

lemma chosen_table_least:
  assumes "r \<in> set rs" "ru_Priority r \<noteq> 0" "rule_matches src dst r"
    and least: "\<And>s. s \<in> set rs \<Longrightarrow> ru_Priority s \<noteq> 0 \<Longrightarrow> rule_matches src dst s \<Longrightarrow>
      ru_Priority r \<le> ru_Priority s \<and> (ru_Priority s = ru_Priority r \<longrightarrow> ru_Table s = ru_Table r)"
  shows "chosen_table rs src dst = Some (ru_Table r)"
proof -
  let ?m = "filter (\<lambda>r. ru_Priority r \<noteq> 0 \<and> rule_matches src dst r) rs"
  have r: "r \<in> set ?m" using assms(1-3) by simp
  obtain h t where ht: "sort_key ru_Priority ?m = h # t"
    using r by (metis list.exhaust set_sort empty_iff list.set(1))
  then have h: "h \<in> set ?m" by (metis list.set_intros(1) set_sort)
  have "sorted (map ru_Priority (h # t))" by (metis ht sorted_sort_key)
  moreover have "r \<in> set (h # t)" using r by (metis ht set_sort)
  ultimately have "ru_Priority h \<le> ru_Priority r" by auto
  with least [of h] h have "ru_Table h = ru_Table r" by simp
  with ht show ?thesis by (simp add: chosen_table_def)
qed

lemma in_host_net: "is_v4 a \<Longrightarrow> is_v4 b \<Longrightarrow> in_net a (host_net_of b) \<longleftrightarrow> ip_equal a b"
proof -
  assume v4: "is_v4 a" "is_v4 b"
  have mask: "cidr_mask 32 32 = [255, 255, 255, 255]"
    by (simp add: cidr_mask_def mask_byte_def upt_rec)
  have bytes: "ip_mask (ip_to4 x) [255, 255, 255, 255] = ip_to4 x" if x: "is_v4 x" for x
  proof -
    obtain p q r s where xs: "ip_to4 x = IP [p, q, r, s]"
      using x length4E unfolding is_v4_def by (metis net_ip.collapse)
    have "(255 :: 8 word) = - 1" by simp
    then have "y AND 255 = y" for y :: "8 word" by (simp only: and.right_neutral)
    then show ?thesis by (simp add: xs ip_mask_def)
  qed
  show ?thesis by (simp add: in_net_def host_net_of_def mask bytes v4 ip_equal_to4)
qed

lemma pod_rule_from:
  "ip \<in> set podIPs \<Longrightarrow>
    \<lparr>ru_Priority = srcPrio, ru_Table = FromPodRTBase + idx, ru_Src = Some (host_net_of ip), ru_Dst = None\<rparr>
      \<in> set (pod_rules idx podIPs)"
  by (auto simp: pod_rules_def)

lemma pod_rule_to:
  "ip \<in> set podIPs \<Longrightarrow>
    \<lparr>ru_Priority = dstPrio, ru_Table = mainTable, ru_Src = None, ru_Dst = Some (host_net_of ip)\<rparr>
      \<in> set (pod_rules idx podIPs)"
  by (auto simp: pod_rules_def)

lemma pod_rules_cases:
  assumes "r \<in> set (pod_rules idx podIPs)"
  obtains (To) ip where "ip \<in> set podIPs" "ru_Priority r = dstPrio" "ru_Table r = mainTable"
      "ru_Src r = None" "ru_Dst r = Some (host_net_of ip)"
    | (From) "ru_Priority r = srcPrio" "ru_Table r = FromPodRTBase + idx"
  using assms by (auto simp: pod_rules_def)

lemma chosen_after_pod_rules:
  assumes "src \<in> set podIPs" "\<forall>ip \<in> set (dst # podIPs). is_v4 ip"
    and others: "\<forall>r \<in> set rs. ru_Priority r \<noteq> 0 \<longrightarrow> rule_matches src dst r \<longrightarrow> srcPrio < ru_Priority r"
  shows "chosen_table (rs @ pod_rules idx podIPs) src dst =
    Some (if \<exists>q \<in> set podIPs. ip_equal dst q then mainTable else FromPodRTBase + idx)"
proof (cases "\<exists>q \<in> set podIPs. ip_equal dst q")
  case True
  then obtain q where q: "q \<in> set podIPs" "ip_equal dst q" by blast
  let ?r = "\<lparr>ru_Priority = dstPrio, ru_Table = mainTable, ru_Src = None, ru_Dst = Some (host_net_of q)\<rparr>"
  have "chosen_table (rs @ pod_rules idx podIPs) src dst = Some (ru_Table ?r)"
  proof (rule chosen_table_least)
    show "?r \<in> set (rs @ pod_rules idx podIPs)" using pod_rule_to [OF q(1)] by simp
    show "rule_matches src dst ?r" using q assms(2) by (simp add: rule_matches_def in_host_net)
    fix t assume t: "t \<in> set (rs @ pod_rules idx podIPs)" "ru_Priority t \<noteq> 0" "rule_matches src dst t"
    have "srcPrio < ru_Priority t" if "t \<in> set rs" using others t that by blast
    then show "ru_Priority ?r \<le> ru_Priority t \<and> (ru_Priority t = ru_Priority ?r \<longrightarrow> ru_Table t = ru_Table ?r)"
      using t(1) by (auto simp: dstPrio_def srcPrio_def elim!: pod_rules_cases)
  qed (simp add: dstPrio_def)
  with True show ?thesis by simp
next
  case False
  let ?r = "\<lparr>ru_Priority = srcPrio, ru_Table = FromPodRTBase + idx, ru_Src = Some (host_net_of src), ru_Dst = None\<rparr>"
  have "chosen_table (rs @ pod_rules idx podIPs) src dst = Some (ru_Table ?r)"
  proof (rule chosen_table_least)
    show "?r \<in> set (rs @ pod_rules idx podIPs)" using pod_rule_from [OF assms(1)] by simp
    show "rule_matches src dst ?r" using assms(1,2) by (simp add: rule_matches_def in_host_net)
    fix t assume t: "t \<in> set (rs @ pod_rules idx podIPs)" "ru_Priority t \<noteq> 0" "rule_matches src dst t"
    show "ru_Priority ?r \<le> ru_Priority t \<and> (ru_Priority t = ru_Priority ?r \<longrightarrow> ru_Table t = ru_Table ?r)"
    proof (cases "t \<in> set rs")
      case True
      then have "srcPrio < ru_Priority t" using others t by blast
      then show ?thesis by simp
    next
      case False
      with t(1) have "t \<in> set (pod_rules idx podIPs)" by simp
      then show ?thesis
      proof (cases rule: pod_rules_cases)
        case (To ip)
        then have "in_net dst (host_net_of ip)" using t(3) by (simp add: rule_matches_def)
        then have False using To(1) \<open>\<not> (\<exists>q \<in> set podIPs. ip_equal dst q)\<close> assms(2) by (simp add: in_host_net)
        then show ?thesis ..
      qed simp
    qed
  qed (simp add: srcPrio_def)
  with False show ?thesis by simp
qed

lemma eni_routes_default: "\<exists>r \<in> set (eni_routes n idx link eth0 gw sn). rt_Dst r = Some all_v4"
  by (auto simp: eni_routes_def Let_def via_def split: option.splits)

lemma eni_routes_links:
  assumes "r \<in> set (eni_routes n idx link eth0 gw sn)"
  shows "rt_Table r = FromPodRTBase + idx \<and>
    (rt_LinkIndex r = link_Index link \<or> (\<exists>e. eth0 = Some e \<and> rt_LinkIndex r = link_Index e \<and> rt_Dst r = Some all_v4))"
  using assms by (auto simp: eni_routes_def Let_def via_def split: option.splits)

text \<open>
  C15. After \<open>ConfigureRoutes\<close> a packet from a pod's address is routed by the table of the ENI
  the address belongs to, or, when it goes to a pod of this host, by the main table. The
  ENI's table has a default route, and nothing in it leaves by another link than the ENI,
  but for that default route when pods are masqueraded.
\<close>

theorem pods_leave_by_their_eni:
  assumes "host_tables (mgr_host i) net" "mgr_Network i = Some n"
    and "ConfigureRoutes i ifName idx eniSubnet podIPs w = Some (Ok (), w')"
    and "src \<in> set podIPs" "\<forall>ip \<in> set (dst # podIPs). is_v4 ip"
    and "\<forall>r \<in> set (t_rules (net w)). ru_Priority r \<noteq> 0 \<longrightarrow> rule_matches src dst r \<longrightarrow> srcPrio < ru_Priority r"
    and "\<forall>r \<in> set (t_routes (net w)). rt_Table r \<noteq> FromPodRTBase + idx"
  shows "chosen_table (t_rules (net w')) src dst =
      Some (if \<exists>q \<in> set podIPs. ip_equal dst q then mainTable else FromPodRTBase + idx) \<and>
    (\<exists>r \<in> set (t_routes (net w')). rt_Table r = FromPodRTBase + idx \<and> rt_Dst r = Some all_v4) \<and>
    (\<forall>r \<in> set (t_routes (net w')). rt_Table r = FromPodRTBase + idx \<longrightarrow>
       (\<exists>l \<in> set (t_links (net w)). rt_LinkIndex r = link_Index l \<and>
          (link_Name l = ifName \<or>
           PodIPMasq n \<and> link_Name l = HostPrimaryInterface n \<and> rt_Dst r = Some all_v4)))"
proof (rule ConfigureRoutes_Ok [OF assms(1,3)])
  fix n' link eth0 gw new names
  assume n': "mgr_Network i = Some n'" and link: "link \<in> set (t_links (net w))" "link_Name link = ifName"
    and eth0: "eth0 = None \<longleftrightarrow> \<not> PodIPMasq n'"
      "\<And>e. eth0 = Some e \<Longrightarrow> e \<in> set (t_links (net w)) \<and> link_Name e = HostPrimaryInterface n'"
    and tabs: "net w' = (net w)\<lparr>t_names := names, t_routes := t_routes (net w) @ new,
       t_rules := t_rules (net w) @ pod_rules idx podIPs\<rparr>"
    and new: "set new \<subseteq> set (eni_routes n' idx link eth0 gw eniSubnet)"
    and all: "\<forall>r \<in> set (eni_routes n' idx link eth0 gw eniSubnet). \<exists>s \<in> set (t_routes (net w')). same_dst r s"
  have n: "n' = n" using n' assms(2) by simp
  have "chosen_table (t_rules (net w')) src dst =
      Some (if \<exists>q \<in> set podIPs. ip_equal dst q then mainTable else FromPodRTBase + idx)"
    using chosen_after_pod_rules [OF assms(4-6)] tabs by simp
  moreover obtain r where r: "r \<in> set (eni_routes n' idx link eth0 gw eniSubnet)" "rt_Dst r = Some all_v4"
    using eni_routes_default by blast
  obtain s where s: "s \<in> set (t_routes (net w'))" "same_dst r s" using all r(1) by blast
  then have "rt_Table s = FromPodRTBase + idx" "rt_Dst s = Some all_v4"
    using eni_routes_links [OF r(1)] r(2) by (simp_all add: same_dst_def)
  moreover have "\<exists>l \<in> set (t_links (net w)). rt_LinkIndex r = link_Index l \<and>
          (link_Name l = ifName \<or> PodIPMasq n \<and> link_Name l = HostPrimaryInterface n \<and> rt_Dst r = Some all_v4)"
    if "r \<in> set (t_routes (net w'))" "rt_Table r = FromPodRTBase + idx" for r
  proof -
    have "r \<in> set new" using that assms(7) tabs by auto
    then have "r \<in> set (eni_routes n' idx link eth0 gw eniSubnet)" using new by blast
    from eni_routes_links [OF this] show ?thesis using link eth0 n by auto
  qed
  ultimately show ?thesis using s(1) by blast
qed

section \<open>The VPC gateway\<close>

lemma even_succ:
  fixes d n :: "8 word"
  assumes "n AND 1 = 0" "d AND n = d"
  shows "(d + 1) AND n = d" "unat (d + 1) = unat d + 1"
proof -
  have "d AND 1 = (d AND n) AND 1" by (simp only: assms)
  also have "\<dots> = d AND (n AND 1)" by (simp only: and.assoc)
  finally have d: "d AND 1 = 0" by (simp only: assms) simp
  then have d1: "d + 1 = d OR 1" by (rule disjunctive_add_eq_or)
  have "1 AND n = 0" using assms(1) by (simp add: and.commute)
  then show "(d + 1) AND n = d" using assms by (simp only: d1 bit.conj_disj_distrib2) simp
  have "d + 1 \<noteq> 0"
  proof
    assume "d + 1 = 0"
    then have "d = - 1" by (simp add: eq_neg_iff_add_eq_0)
    with d show False by simp
  qed
  then show "unat (d + 1) = unat d + 1" by (metis Suc_eq_plus1 unatSuc add.commute)
qed

lemma mask_even:
  assumes "p < 8"
  shows "mask_byte p AND 1 = 0"
proof -
  have "\<forall>k \<in> set [0..<8]. mask_byte k AND 1 = 0" by code_simp
  then show ?thesis using assms by simp
qed

text \<open>
  The gateway is the address after the subnet's first one, and it is in the subnet, for
  every subnet of more than one address.
\<close>

theorem gateway_is_in_subnet:
  assumes "net_IP sn = ip_mask (ip_to4 ip) (net_Mask sn)" "is_v4 ip" "net_Mask sn = cidr_mask p 32" "p \<le> 31"
  shows "\<exists>a b c d. net_IP sn = IP [a, b, c, d] \<and> unat (d + 1) = unat d + 1 \<and>
    gateway (Some sn) = ret (IP [a, b, c, d + 1]) \<and> in_net (IP [a, b, c, d + 1]) sn"
proof -
  obtain x y z u where x: "ip_to4 ip = IP [x, y, z, u]"
    using assms(2) length4E unfolding is_v4_def by (metis net_ip.collapse)
  define k l m n where "k = mask_byte p" and "l = mask_byte (p - 8)" and "m = mask_byte (p - 16)"
    and n: "n = mask_byte (p - 24)"
  have mask: "cidr_mask p 32 = [k, l, m, n]"
    by (simp add: cidr_mask_def upt_rec k_def l_def m_def n)
  have sn: "net_IP sn = IP [x AND k, y AND l, z AND m, u AND n]"
    by (simp add: assms(1,3) mask x ip_mask_def)
  have "p - 24 < 8" using assms(4) by simp
  then have even: "n AND 1 = 0" unfolding n by (rule mask_even)
  let ?d = "u AND n"
  have "?d AND n = ?d" by (simp add: and.assoc)
  note d = even_succ [OF even this]
  have "in_net (IP [x AND k, y AND l, z AND m, ?d + 1]) sn"
    by (simp add: in_net_def assms(3) mask sn ip_mask_def d(1) and.assoc)
  with d(2) show ?thesis
    by (intro exI [of _ "x AND k"] exI [of _ "y AND l"] exI [of _ "z AND m"] exI [of _ ?d])
      (simp add: sn gateway_Some)
qed

end
