(* ===== verification/Nat_Chains.thy ===== *)
theory Nat_Chains
  imports If_Mgr_Theorems
begin

text \<open>
  What \<open>ConfigureIPMasq\<close> leaves in the NAT table of iptables: the chain that accepts the
  traffic to the configured networks and masquerades the rest, and the jumps to it.
\<close>

section \<open>ConfigureIPMasq\<close>

text \<open>A chain after its missing rules were appended, and the NAT chains after the call.\<close>

definition add_missing :: "string list list \<Rightarrow> string list list \<Rightarrow> string list list" where
  "add_missing rs new = fold (\<lambda>r rs. if r \<in> set rs then rs else rs @ [r]) new rs"

lemma add_missing_simps [simp]:
  "add_missing rs [] = rs"
  "add_missing rs (r # new) = add_missing (if r \<in> set rs then rs else rs @ [r]) new"
  by (simp_all add: add_missing_def)

lemma add_missing_append: "add_missing rs (new @ new2) = add_missing (add_missing rs new) new2"
  by (simp add: add_missing_def)

lemma add_missing_set [simp]: "set (add_missing rs new) = set rs \<union> set new"
  by (induction new arbitrary: rs) auto

lemma add_missing_prefix: "\<exists>late. add_missing rs new = rs @ late \<and> set late = set new - set rs"
proof (induction new arbitrary: rs)
  case (Cons r new)
  show ?case
  proof (cases "r \<in> set rs")
    case True
    then show ?thesis using Cons [of rs] by auto
  next
    case False
    then show ?thesis using Cons [of "rs @ [r]"] by auto
  qed
qed simp

definition nat_rules :: "tables \<Rightarrow> string \<Rightarrow> string list list option" where
  "nat_rules t c = t_chains t (''nat'', c)"

definition masq_rule :: "string list" where
  "masq_rule = [''-j'', ''MASQUERADE''] @ masq_comment"

definition accept_rules :: "network \<Rightarrow> string list list" where
  "accept_rules n = map (\<lambda>p. accept_args (the p) @ masq_comment) (nonmasqNets n)"

definition pod_nat :: "network \<Rightarrow> net_ip \<Rightarrow> net_ip \<Rightarrow> tables \<Rightarrow> tables" where
  "pod_nat n hostIP ip t =
     (let t' = ensure_rule ''nat'' ''POSTROUTING'' (jump_args ip @ masq_comment) t in
      if InstanceMetadataRedirectPort n \<noteq> 0
      then ensure_rule ''nat'' ''PREROUTING''
        (metadata_args hostIP (InstanceMetadataRedirectPort n) ip @ masq_comment) t'
      else t')"

lemma ensure_rule_chain:
  "nat_rules (ensure_rule ''nat'' c r t) d =
     (if c = d then map_option (\<lambda>rs. add_missing rs [r]) (nat_rules t d) else nat_rules t d)"
  by (auto simp: ensure_rule_def nat_rules_def split: option.splits)

lemma append_nat_Ok:
  assumes "host_tables h net" "append_nat h c args w = Some (Ok b, w')"
  shows "net w' = ensure_rule ''nat'' c (args @ masq_comment) (net w)" "nat_rules (net w) c \<noteq> None"
  using does_Ok [OF host_tables_does(10) [OF assms(1)] assms(2) [unfolded append_nat_def]]
    tells_Ok [OF host_tables_tells(5) [OF assms(1)] assms(2) [unfolded append_nat_def]]
  by (simp_all add: nat_rules_def)

lemma accept_loop:
  assumes "host_tables h net"
    and "each (\<lambda>p. andthen (deref p) (\<lambda>sn.
         andthen (wrapping g (append_nat h c (accept_args sn))) (\<lambda>_. ret ()))) ps w = Some (Ok (), w')"
  shows "net w' = fold (\<lambda>p. ensure_rule ''nat'' c (accept_args (the p) @ masq_comment)) ps (net w)"
  by (rule each_fold [OF _ assms(2)])
    (auto simp: andthen_eq_Ok deref_def append_nat_Ok(1) [OF assms(1)] split: option.splits)

lemma fold_ensure_rule:
  "nat_rules t c = Some rs \<Longrightarrow>
     nat_rules (fold (\<lambda>p. ensure_rule ''nat'' c (f p)) ps t) d =
       (if c = d then Some (add_missing rs (map f ps)) else nat_rules t d)"
  by (induction ps arbitrary: t rs) (auto simp: ensure_rule_chain)

lemma pod_nat_rules:
  "nat_rules (pod_nat n hostIP ip t) c =
     (if c = ''POSTROUTING'' then map_option (\<lambda>rs. add_missing rs [jump_args ip @ masq_comment]) (nat_rules t c)
      else if c = ''PREROUTING'' \<and> InstanceMetadataRedirectPort n \<noteq> 0 then
        map_option (\<lambda>rs. add_missing rs [metadata_args hostIP (InstanceMetadataRedirectPort n) ip @ masq_comment])
          (nat_rules t c)
      else nat_rules t c)"
  by (auto simp: pod_nat_def Let_def ensure_rule_chain)

lemma fold_pod_nat:
  "nat_rules (fold (pod_nat n hostIP) ips t) c =
     (if c = ''POSTROUTING''
      then map_option (\<lambda>rs. add_missing rs (map (\<lambda>ip. jump_args ip @ masq_comment) ips)) (nat_rules t c)
      else if c = ''PREROUTING'' \<and> InstanceMetadataRedirectPort n \<noteq> 0 then
        map_option (\<lambda>rs. add_missing rs
          (map (\<lambda>ip. metadata_args hostIP (InstanceMetadataRedirectPort n) ip @ masq_comment) ips)) (nat_rules t c)
      else nat_rules t c)"
proof (induction ips arbitrary: t)
  case (Cons ip ips)
  then show ?case by (simp add: pod_nat_rules option.map_comp o_def)
qed (simp add: option.map_ident)

text \<open>The tables after a successful call.\<close>

definition masqueraded :: "network \<Rightarrow> net_ip \<Rightarrow> net_ip list \<Rightarrow> tables \<Rightarrow> tables" where
  "masqueraded n hostIP podIPs t =
     fold (pod_nat n hostIP) podIPs
       (ensure_rule ''nat'' masq_chain masq_rule
         (fold (\<lambda>p. ensure_rule ''nat'' masq_chain (accept_args (the p) @ masq_comment)) (nonmasqNets n)
           (ensure_chain ''nat'' masq_chain t)))"

lemma ensured_chain:
  "nat_rules (ensure_chain ''nat'' masq_chain t) masq_chain =
     Some (case nat_rules t masq_chain of None \<Rightarrow> [] | Some rs \<Rightarrow> rs)"
  by (simp add: ensure_chain_def nat_rules_def)

lemma masqueraded_others:
  "nat_rules (ensure_rule ''nat'' masq_chain masq_rule
         (fold (\<lambda>p. ensure_rule ''nat'' masq_chain (accept_args (the p) @ masq_comment)) (nonmasqNets n)
           (ensure_chain ''nat'' masq_chain t))) ''POSTROUTING'' = nat_rules t ''POSTROUTING''"
proof -
  have other: "masq_chain \<noteq> ''POSTROUTING''" by (simp add: masq_chain_def)
  have "nat_rules (ensure_chain ''nat'' masq_chain t) ''POSTROUTING'' = nat_rules t ''POSTROUTING''"
    by (simp add: ensure_chain_def nat_rules_def masq_chain_def)
  then show ?thesis by (simp add: other ensure_rule_chain fold_ensure_rule [OF ensured_chain])
qed

lemma ConfigureIPMasq_run:
  assumes tabs: "host_tables (mgr_host i) net"
    and run: "ConfigureIPMasq i hostIP podIPs w = Some (Ok (), w')"
  shows "\<exists>n. mgr_Network i = Some n \<and> net w' = masqueraded n hostIP podIPs (net w) \<and>
    (podIPs \<noteq> [] \<longrightarrow> nat_rules (net w) ''POSTROUTING'' \<noteq> None)"
proof -
  obtain b u1 n' u2 x3 u3 b4 u4 where
    1: "EnsureChain (mgr_host i) ''nat'' masq_chain w = Some (Ok b, u1)"
    and 2: "deref (mgr_Network i) u1 = Some (Ok n', u2)"
    and 3: "each (\<lambda>p. andthen (deref p) (\<lambda>sn.
         andthen (wrapping (\<lambda>e. Wrapf e ''Error adding skip rule'' [])
           (append_nat (mgr_host i) masq_chain (accept_args sn))) (\<lambda>_. ret ())))
       (nonmasqNets n') u2 = Some (Ok x3, u3)"
    and 4: "append_nat (mgr_host i) masq_chain [''-j'', ''MASQUERADE''] u3 = Some (Ok b4, u4)"
    and 5: "each (\<lambda>ip.
       andthen (wrapping (\<lambda>e. Wrapf e ''Error inserting jump for pod IP %v'' [ip_string ip])
         (append_nat (mgr_host i) ''POSTROUTING'' (jump_args ip))) (\<lambda>_.
       if InstanceMetadataRedirectPort n' \<noteq> 0 then
         andthen (wrapping (\<lambda>e. Wrapf e ''Error inserting jump for pod IP %v'' [ip_string ip])
           (append_nat (mgr_host i) ''PREROUTING'' (metadata_args hostIP (InstanceMetadataRedirectPort n') ip)))
           (\<lambda>_. ret ())
       else ret ())) podIPs u4 = Some (Ok (), w')"
    using run unfolding ConfigureIPMasq_def andthen_eq_Ok [of "wrapping _ (EnsureChain _ _ _)"]
      andthen_eq_Ok [of "deref (mgr_Network i)"] andthen_eq_Ok [of "each _ _"]
      andthen_eq_Ok [of "wrapping _ (append_nat _ masq_chain [''-j'', ''MASQUERADE''])"] wrapping_eq_Ok
    by (elim exE conjE) (rule that)
  have 2: "mgr_Network i = Some n'" "u2 = u1" using 2 by (auto simp: deref_def split: option.splits)
  have v: "net u1 = ensure_chain ''nat'' masq_chain (net w)" "net u4 = ensure_rule ''nat'' masq_chain masq_rule (net u3)"
    using does_Ok [OF host_tables_does(9) [OF tabs] 1] append_nat_Ok(1) [OF tabs 4] by (simp_all add: masq_rule_def)
  have "x3 = ()" by simp
  from accept_loop [OF tabs 3 [unfolded this]] 2 have v3:
    "net u3 = fold (\<lambda>p. ensure_rule ''nat'' masq_chain (accept_args (the p) @ masq_comment)) (nonmasqNets n') (net u1)"
    by simp
  have "net w' = fold (pod_nat n' hostIP) podIPs (net u4)"
    by (rule each_fold [OF _ 5])
      (auto simp: andthen_eq_Ok pod_nat_def Let_def 2 append_nat_Ok(1) [OF tabs] split: if_splits)
  then have w': "net w' = masqueraded n' hostIP podIPs (net w)" by (simp add: masqueraded_def v v3)
  have "nat_rules (net w) ''POSTROUTING'' \<noteq> None" if "podIPs \<noteq> []"
  proof -
    obtain ip ips where "podIPs = ip # ips" using \<open>podIPs \<noteq> []\<close> by (cases podIPs) auto
    then obtain b v where "append_nat (mgr_host i) ''POSTROUTING'' (jump_args ip) u4 = Some (Ok b, v)"
      using 5 by (auto simp: andthen_eq_Ok)
    then have "nat_rules (net u4) ''POSTROUTING'' \<noteq> None" by (rule append_nat_Ok(2) [OF tabs])
    moreover have "nat_rules (net u4) ''POSTROUTING'' = nat_rules (net w) ''POSTROUTING''"
      using masqueraded_others [of n' "net w"] by (simp add: v v3)
    ultimately show ?thesis by simp
  qed
  with w' 2(1) show ?thesis by blast
qed

lemma ConfigureIPMasq_Ok:
  assumes "host_tables (mgr_host i) net" "mgr_Network i = Some n"
    and "ConfigureIPMasq i hostIP podIPs w = Some (Ok (), w')"
  shows "net w' = masqueraded n hostIP podIPs (net w)"
  using ConfigureIPMasq_run [OF assms(1,3)] assms(2) by simp

lemma masqueraded_chain:
  "nat_rules (masqueraded n hostIP podIPs t) masq_chain =
     Some (add_missing (case nat_rules t masq_chain of None \<Rightarrow> [] | Some rs \<Rightarrow> rs) (accept_rules n @ [masq_rule]))"
proof -
  have "masq_chain \<noteq> ''POSTROUTING''" "masq_chain \<noteq> ''PREROUTING''" by (simp_all add: masq_chain_def)
  then show ?thesis
    by (simp add: masqueraded_def fold_pod_nat ensure_rule_chain fold_ensure_rule [OF ensured_chain]
        accept_rules_def add_missing_append)
qed

lemma masqueraded_jumps:
  "nat_rules (masqueraded n hostIP podIPs t) ''POSTROUTING'' =
     map_option (\<lambda>rs. add_missing rs (map (\<lambda>ip. jump_args ip @ masq_comment) podIPs)) (nat_rules t ''POSTROUTING'')"
  by (simp add: masqueraded_def fold_pod_nat masqueraded_others)

text \<open>
  C16. \<open>ConfigureIPMasq\<close> on a host without the chain leaves a chain that accepts traffic to every
  configured network first and masquerades last, and the jumps to it for all pod addresses.
\<close>

theorem masquerading_comes_last:
  assumes "host_tables (mgr_host i) net" "mgr_Network i = Some n" "nat_rules (net w) masq_chain = None"
    and "ConfigureIPMasq i hostIP podIPs w = Some (Ok (), w')" "nat_rules (net w) ''POSTROUTING'' = Some posts"
  shows "\<exists>accepts. nat_rules (net w') masq_chain = Some (accepts @ [masq_rule]) \<and>
      set accepts = set (accept_rules n) \<and>
    (\<exists>rs. nat_rules (net w') ''POSTROUTING'' = Some (posts @ rs) \<and>
       (\<forall>ip \<in> set podIPs. jump_args ip @ masq_comment \<in> set (posts @ rs)))"
proof -
  have w': "net w' = masqueraded n hostIP podIPs (net w)" by (rule ConfigureIPMasq_Ok [OF assms(1,2,4)])
  have "masq_rule \<noteq> accept_args sn @ masq_comment" for sn by (simp add: masq_rule_def accept_args_def)
  then have "masq_rule \<notin> set (add_missing [] (accept_rules n))" by (auto simp: accept_rules_def)
  then have chain: "nat_rules (net w') masq_chain = Some (add_missing [] (accept_rules n) @ [masq_rule])"
    using masqueraded_chain [of n hostIP podIPs "net w"] by (simp add: assms(3) w' add_missing_append)
  let ?j = "map (\<lambda>ip. jump_args ip @ masq_comment) podIPs"
  obtain rs where rs: "add_missing posts ?j = posts @ rs" using add_missing_prefix [of posts ?j] by blast
  have "nat_rules (net w') ''POSTROUTING'' = Some (posts @ rs)"
    using masqueraded_jumps [of n hostIP podIPs "net w"] by (simp add: assms(5) w' rs)
  moreover have "\<forall>ip \<in> set podIPs. jump_args ip @ masq_comment \<in> set (posts @ rs)"
    using add_missing_set [of posts ?j] unfolding rs by auto
  ultimately show ?thesis
    using chain by (intro exI [of _ "add_missing [] (accept_rules n)"]) auto
qed

text \<open>
  C40. A network added to the configuration later gets its rule behind the one that masquerades
  everything, where no packet reaches it: rules are only appended, and the chain is not
  flushed when the daemon starts with another configuration.
\<close>

theorem late_network_is_masqueraded:
  assumes "host_tables (mgr_host i) net" "mgr_Network i = Some n"
    and "nat_rules (net w) masq_chain = Some (olds @ [masq_rule])"
    and "Some sn \<in> set (VPCRouted n)" "accept_args sn @ masq_comment \<notin> set olds"
    and "ConfigureIPMasq i hostIP podIPs w = Some (Ok (), w')"
  shows "\<exists>lates. nat_rules (net w') masq_chain = Some (olds @ [masq_rule] @ lates) \<and>
    accept_args sn @ masq_comment \<in> set lates"
proof -
  let ?new = "accept_rules n @ [masq_rule]"
  obtain late where late: "add_missing (olds @ [masq_rule]) ?new = (olds @ [masq_rule]) @ late"
    "set late = set ?new - set (olds @ [masq_rule])" using add_missing_prefix by blast
  have "nat_rules (net w') masq_chain = Some ((olds @ [masq_rule]) @ late)"
    using masqueraded_chain [of n hostIP podIPs "net w"] ConfigureIPMasq_Ok [OF assms(1,2,6)]
    by (simp add: assms(3) late(1))
  moreover have "accept_args sn @ masq_comment \<in> set (accept_rules n)"
    using assms(4) by (force simp: accept_rules_def nonmasqNets_def)
  then have "accept_args sn @ masq_comment \<in> set late"
    using assms(5) by (auto simp: late(2) masq_rule_def accept_args_def)
  ultimately show ?thesis by (intro exI [of _ late]) simp
qed

text \<open>Whether pods are to be masqueraded makes no difference to the NAT chains.\<close>

lemma masquerading_ignores_config:
  "ConfigureIPMasq \<lparr>mgr_Network = Some (n\<lparr>PodIPMasq := b\<rparr>), mgr_host = h\<rparr> =
   ConfigureIPMasq \<lparr>mgr_Network = Some n, mgr_host = h\<rparr>"
  by (intro ext) (simp add: ConfigureIPMasq_def nonmasqNets_def deref_def cong: if_cong)

section \<open>A second run\<close>

text \<open>The call as one list of rules, and rules for which nothing is left to do.\<close>

definition ensure_nat :: "string \<times> string list \<Rightarrow> tables \<Rightarrow> tables" where
  "ensure_nat p = ensure_rule ''nat'' (fst p) (snd p)"

definition settled :: "tables \<Rightarrow> string \<times> string list \<Rightarrow> bool" where
  "settled t p \<longleftrightarrow> (\<forall>rs. nat_rules t (fst p) = Some rs \<longrightarrow> snd p \<in> set rs)"

lemma ensure_settled: "settled t p \<Longrightarrow> ensure_nat p t = t"
  by (auto simp: settled_def ensure_nat_def ensure_rule_def nat_rules_def split: option.splits)

lemma settled_ensure: "settled t q \<or> p = q \<Longrightarrow> settled (ensure_nat p t) q"
  by (auto simp: settled_def ensure_nat_def ensure_rule_chain split: if_splits)

lemma settled_fold: "settled t q \<or> q \<in> set ps \<Longrightarrow> settled (fold ensure_nat ps t) q"
  by (induction ps arbitrary: t) (auto simp: settled_ensure)

lemma fold_settled: "\<forall>q \<in> set ps. settled t q \<Longrightarrow> fold ensure_nat ps t = t"
  by (induction ps) (simp_all add: ensure_settled)

definition pod_rules_nat :: "network \<Rightarrow> net_ip \<Rightarrow> net_ip \<Rightarrow> (string \<times> string list) list" where
  "pod_rules_nat n hostIP ip = [(''POSTROUTING'', jump_args ip @ masq_comment)] @
     (if InstanceMetadataRedirectPort n \<noteq> 0
      then [(''PREROUTING'', metadata_args hostIP (InstanceMetadataRedirectPort n) ip @ masq_comment)] else [])"

definition masq_rules :: "network \<Rightarrow> net_ip \<Rightarrow> net_ip list \<Rightarrow> (string \<times> string list) list" where
  "masq_rules n hostIP podIPs = map (\<lambda>r. (masq_chain, r)) (accept_rules n @ [masq_rule]) @
     concat (map (pod_rules_nat n hostIP) podIPs)"

lemma masqueraded_rules:
  "masqueraded n hostIP podIPs t = fold ensure_nat (masq_rules n hostIP podIPs) (ensure_chain ''nat'' masq_chain t)"
proof -
  have pods: "fold (pod_nat n hostIP) podIPs u = fold ensure_nat (concat (map (pod_rules_nat n hostIP) podIPs)) u" for u
    by (induction podIPs arbitrary: u) (simp_all add: pod_nat_def pod_rules_nat_def ensure_nat_def Let_def)
  have accepts: "fold (\<lambda>p. ensure_rule ''nat'' masq_chain (accept_args (the p) @ masq_comment)) ps u =
      fold ensure_nat (map (\<lambda>p. (masq_chain, accept_args (the p) @ masq_comment)) ps) u" for ps u
    by (induction ps arbitrary: u) (simp_all add: ensure_nat_def)
  show ?thesis
    by (simp add: masqueraded_def masq_rules_def accept_rules_def pods accepts comp_def ensure_nat_def)
qed

lemma ensure_chain_there: "t_chains t (tb, c) = Some rs \<Longrightarrow> ensure_chain tb c t = t"
  by (simp add: ensure_chain_def fun_upd_idem)

lemma masqueraded_twice:
  "masqueraded n hostIP podIPs (masqueraded n hostIP podIPs t) = masqueraded n hostIP podIPs t"
proof -
  let ?t = "masqueraded n hostIP podIPs t"
  have "ensure_chain ''nat'' masq_chain ?t = ?t"
    using masqueraded_chain [of n hostIP podIPs t] by (intro ensure_chain_there) (simp add: nat_rules_def)
  moreover have "\<forall>q \<in> set (masq_rules n hostIP podIPs). settled ?t q"
    by (simp add: masqueraded_rules settled_fold)
  ultimately show ?thesis by (simp add: masqueraded_rules [of n hostIP podIPs ?t] fold_settled)
qed

text \<open>
  C17. Masquerading is idempotent: a second run for the same addresses, as after a restart of the
  daemon, leaves all tables of the host exactly as the first has left them.
\<close>

theorem masquerading_again_changes_nothing:
  assumes "host_tables (mgr_host i) net"
    and "ConfigureIPMasq i hostIP podIPs w = Some (Ok (), w1)" "ConfigureIPMasq i hostIP podIPs w1 = Some (Ok (), w2)"
  shows "net w2 = net w1"
proof -
  obtain n where "mgr_Network i = Some n" "net w1 = masqueraded n hostIP podIPs (net w)"
    using ConfigureIPMasq_run [OF assms(1,2)] by blast
  then show ?thesis using ConfigureIPMasq_Ok [OF assms(1) _ assms(3)] by (simp add: masqueraded_twice)
qed

end
