(* ===== verification/Working_Host.thy ===== *)
theory Working_Host
  imports Nat_Chains
begin

text \<open>
  The interface manager on \<open>tables_host\<close>: when its links and chains are there, every call
  succeeds. So the theorems about successful calls are about something; the witnesses are a
  host with one ENI.
\<close>

section \<open>A host on which everything works\<close>

lemma tables_host_ConfigureInterface:
  assumes "last_such (\<lambda>l. link_HardwareAddr l = mac) (t_links t) = Some l" "mgr_host i = tables_host"
  shows "ConfigureInterface i n mac ip sn t = Some (Ok (), link_up l (add_addr l ip (rename_link l n t)))"
  using assms
  by (simp add: ConfigureInterface_def tables_host_def change_def andthen_def wrapping_def attempt_def)

lemma tables_host_names:
  "\<exists>s. ensureTables tables_host ifName i t = Some (Ok (), t\<lparr>t_names := s\<rparr>)"
proof (cases "contains (t_names t) (table_line ifName i @ newline)")
  case True
  then show ?thesis
    by (intro exI [of _ "t_names t"]) (simp add: ensureTables_def tables_host_def andthen_def wrapping_def attempt_def)
next
  case False
  then show ?thesis
    by (intro exI [of _ "t_names t @ (table_line ifName i @ newline) @ newline"])
      (simp add: ensureTables_def tables_host_def andthen_def wrapping_def attempt_def change_def put_name_def)
qed

lemma tables_host_routes:
  "\<exists>new. each (add_route tables_host i) rs t = Some (Ok (), t\<lparr>t_routes := t_routes t @ new\<rparr>)"
proof (induction rs arbitrary: t)
  case Nil
  then show ?case by (intro exI [of _ "[]"]) simp
next
  case (Cons r rs)
  have "add_route tables_host i r t = Some (Ok (), if list_ex (same_dst r) (t_routes t) then t else put_route r t)"
    by (simp add: add_route_def attempt_def andthen_def tables_host_def file_exists_def)
  then have "add_route tables_host i r t =
      Some (Ok (), t\<lparr>t_routes := t_routes t @ (if list_ex (same_dst r) (t_routes t) then [] else [r])\<rparr>)"
    by (simp add: put_route_def)
  from andthen_Ok [of "add_route tables_host i r", OF this, of "\<lambda>_. each (add_route tables_host i) rs"]
    Cons [of "t\<lparr>t_routes := t_routes t @ (if list_ex (same_dst r) (t_routes t) then [] else [r])\<rparr>"]
  show ?case by auto
qed

lemma tables_host_rules:
  assumes "distinct rs" "set rs \<inter> set (t_rules t) = {}"
  shows "each (\<lambda>r. wrapping g (RuleAdd tables_host r)) rs t = Some (Ok (), t\<lparr>t_rules := t_rules t @ rs\<rparr>)"
  using assms
proof (induction rs arbitrary: t)
  case (Cons r rs)
  then have "RuleAdd tables_host r t = Some (Ok (), put_rule r t)" by (simp add: tables_host_def)
  moreover have "each (\<lambda>r. wrapping g (RuleAdd tables_host r)) rs (put_rule r t) =
      Some (Ok (), t\<lparr>t_rules := t_rules t @ r # rs\<rparr>)"
    using Cons.IH [of "put_rule r t"] Cons.prems by (auto simp: put_rule_def)
  ultimately show ?case by simp
qed simp

lemma tables_host_ConfigureRoutes:
  assumes "find (\<lambda>l. link_Name l = ifName) (t_links t) = Some link"
    and "mgr_host i = tables_host" "mgr_Network i = Some n" "\<not> PodIPMasq n"
    and "gateway eniSubnet = (ret gw :: (tables, net_ip) io)"
    and "distinct (pod_rules idx podIPs)" "set (pod_rules idx podIPs) \<inter> set (t_rules t) = {}"
  shows "\<exists>names new. ConfigureRoutes i ifName idx eniSubnet podIPs t = Some (Ok (),
    t\<lparr>t_names := names, t_routes := t_routes t @ new, t_rules := t_rules t @ pod_rules idx podIPs\<rparr>)"
proof -
  have link: "LinkByName tables_host ifName t = Some (Ok link, t)" using assms(1) by (simp add: tables_host_def)
  obtain names where names: "ensureTables tables_host ifName idx t = Some (Ok (), t\<lparr>t_names := names\<rparr>)"
    using tables_host_names by blast
  obtain new where new: "each (add_route tables_host idx) (eni_routes n idx link None gw eniSubnet) (t\<lparr>t_names := names\<rparr>) =
      Some (Ok (), t\<lparr>t_names := names, t_routes := t_routes t @ new\<rparr>)"
    using tables_host_routes [of idx _ "t\<lparr>t_names := names\<rparr>"] by auto
  have "each (\<lambda>r. wrapping (\<lambda>e. Wrapf e ''failed to add rule %v'' []) (RuleAdd tables_host r)) (pod_rules idx podIPs)
      (t\<lparr>t_names := names, t_routes := t_routes t @ new\<rparr>) =
    Some (Ok (), t\<lparr>t_names := names, t_routes := t_routes t @ new, t_rules := t_rules t @ pod_rules idx podIPs\<rparr>)"
    using tables_host_rules [OF assms(6), of "t\<lparr>t_names := names, t_routes := t_routes t @ new\<rparr>"] assms(7) by simp
  then show ?thesis
    by (intro exI [of _ names] exI [of _ new])
      (simp add: ConfigureRoutes_def assms(2-5) link names new deref_def)
qed

lemma deref_Some: "deref (Some a) = ret a"
  by (simp add: deref_def)

lemma each_total:
  assumes "\<And>x w. x \<in> set xs \<Longrightarrow> P w \<Longrightarrow> \<exists>w'. f x w = Some (Ok (), w') \<and> P w'" "P w"
  shows "\<exists>w'. each f xs w = Some (Ok (), w') \<and> P w'"
  using assms
proof (induction xs arbitrary: w)
  case (Cons x xs)
  obtain v where "f x w = Some (Ok (), v)" "P v" using Cons.prems(1) [of x w] Cons.prems(2) by auto
  then show ?case using Cons.IH [of v] Cons.prems(1) by simp
qed simp

definition chains_exist :: "network \<Rightarrow> tables \<Rightarrow> bool" where
  "chains_exist n t \<longleftrightarrow> nat_rules t masq_chain \<noteq> None \<and> nat_rules t ''POSTROUTING'' \<noteq> None \<and>
     (InstanceMetadataRedirectPort n \<noteq> 0 \<longrightarrow> nat_rules t ''PREROUTING'' \<noteq> None)"

lemma chains_existD:
  assumes "chains_exist n t"
  shows "nat_rules t masq_chain \<noteq> None" "nat_rules t ''POSTROUTING'' \<noteq> None"
    "InstanceMetadataRedirectPort n \<noteq> 0 \<Longrightarrow> nat_rules t ''PREROUTING'' \<noteq> None"
  using assms unfolding chains_exist_def by blast+

lemma tables_host_append:
  assumes "nat_rules t c \<noteq> None" "chains_exist n t"
  shows "\<exists>b t'. append_nat tables_host c args t = Some (Ok b, t') \<and> chains_exist n t'"
proof -
  let ?t = "ensure_rule ''nat'' c (args @ masq_comment) t"
  obtain rs where "t_chains t (''nat'', c) = Some rs" using assms(1) by (auto simp: nat_rules_def)
  then have "append_nat tables_host c args t = Some (Ok (args @ masq_comment \<in> set rs), ?t)"
    by (simp add: append_nat_def tables_host_def)
  moreover have "chains_exist n ?t"
    using assms(2) by (simp add: chains_exist_def ensure_rule_chain)
  ultimately show ?thesis by blast
qed

lemma tables_host_ConfigureIPMasq:
  assumes host: "mgr_host i = tables_host" "mgr_Network i = Some n"
    and nets: "\<forall>p \<in> set (nonmasqNets n). p \<noteq> None"
    and chains: "nat_rules t ''POSTROUTING'' \<noteq> None"
      "InstanceMetadataRedirectPort n \<noteq> 0 \<longrightarrow> nat_rules t ''PREROUTING'' \<noteq> None"
  shows "ConfigureIPMasq i hostIP podIPs t = Some (Ok (), masqueraded n hostIP podIPs t)"
proof -
  let ?t1 = "ensure_chain ''nat'' masq_chain t"
  have 1: "EnsureChain tables_host ''nat'' masq_chain t = Some (Ok (t_chains t (''nat'', masq_chain) \<noteq> None), ?t1)"
    by (simp add: tables_host_def)
  have c1: "chains_exist n ?t1"
    using chains by (simp add: chains_exist_def ensure_chain_def nat_rules_def masq_chain_def)
  obtain t2 where 2: "each (\<lambda>p. andthen (deref p) (\<lambda>sn.
         andthen (wrapping (\<lambda>e. Wrapf e ''Error adding skip rule'' [])
           (append_nat tables_host masq_chain (accept_args sn))) (\<lambda>_. ret ())))
       (nonmasqNets n) ?t1 = Some (Ok (), t2)" and c2: "chains_exist n t2"
  proof (rule exE [OF each_total [where P = "chains_exist n" and w = ?t1]])
    fix p t assume p: "p \<in> set (nonmasqNets n)" and c: "chains_exist n t"
    obtain sn where sn: "p = Some sn" using nets p by auto
    obtain b t' where "append_nat tables_host masq_chain (accept_args sn) t = Some (Ok b, t')" "chains_exist n t'"
      using tables_host_append [OF chains_existD(1) [OF c] c] by blast
    then show "\<exists>t'. andthen (deref p) (\<lambda>sn.
         andthen (wrapping (\<lambda>e. Wrapf e ''Error adding skip rule'' [])
           (append_nat tables_host masq_chain (accept_args sn))) (\<lambda>_. ret ())) t = Some (Ok (), t') \<and> chains_exist n t'"
      by (simp add: sn deref_def)
  qed (use c1 in auto)
  obtain b t3 where 3: "append_nat tables_host masq_chain [''-j'', ''MASQUERADE''] t2 = Some (Ok b, t3)"
    and c3: "chains_exist n t3"
    using tables_host_append [OF chains_existD(1) [OF c2] c2] by blast
  obtain t4 where 4: "each (\<lambda>ip.
       andthen (wrapping (\<lambda>e. Wrapf e ''Error inserting jump for pod IP %v'' [ip_string ip])
         (append_nat tables_host ''POSTROUTING'' (jump_args ip))) (\<lambda>_.
       if InstanceMetadataRedirectPort n \<noteq> 0 then
         andthen (wrapping (\<lambda>e. Wrapf e ''Error inserting jump for pod IP %v'' [ip_string ip])
           (append_nat tables_host ''PREROUTING'' (metadata_args hostIP (InstanceMetadataRedirectPort n) ip)))
           (\<lambda>_. ret ())
       else ret ())) podIPs t3 = Some (Ok (), t4)"
  proof (rule exE [OF each_total [where P = "chains_exist n" and w = t3]])
    fix ip t assume c: "chains_exist n t"
    obtain b t' where a: "append_nat tables_host ''POSTROUTING'' (jump_args ip) t = Some (Ok b, t')" "chains_exist n t'"
      using tables_host_append [OF chains_existD(2) [OF c] c] by blast
    obtain b2 t'' where "InstanceMetadataRedirectPort n \<noteq> 0 \<longrightarrow>
        append_nat tables_host ''PREROUTING'' (metadata_args hostIP (InstanceMetadataRedirectPort n) ip) t' = Some (Ok b2, t'') \<and>
        chains_exist n t''"
      using tables_host_append [OF chains_existD(3) [OF a(2)] a(2)] by blast
    with a show "\<exists>t'. andthen (wrapping (\<lambda>e. Wrapf e ''Error inserting jump for pod IP %v'' [ip_string ip])
         (append_nat tables_host ''POSTROUTING'' (jump_args ip))) (\<lambda>_.
       if InstanceMetadataRedirectPort n \<noteq> 0 then
         andthen (wrapping (\<lambda>e. Wrapf e ''Error inserting jump for pod IP %v'' [ip_string ip])
           (append_nat tables_host ''PREROUTING'' (metadata_args hostIP (InstanceMetadataRedirectPort n) ip)))
           (\<lambda>_. ret ())
       else ret ()) t = Some (Ok (), t') \<and> chains_exist n t'" by auto
  qed (use c3 in auto)
  have "ConfigureIPMasq i hostIP podIPs t = Some (Ok (), t4)"
    using host by (simp add: ConfigureIPMasq_def 1 2 3 4 deref_Some cong: if_cong)
  moreover from this have "t4 = masqueraded n hostIP podIPs t"
    using ConfigureIPMasq_Ok [of i "\<lambda>t. t"] host tables_host_tables by simp
  ultimately show ?thesis by simp
qed

section \<open>A host with one ENI\<close>

definition demo_cidr :: ip_net where
  "demo_cidr = \<lparr>net_IP = IP [10, 1, 0, 0], net_Mask = cidr_mask 16 32\<rparr>"

definition demo_routed :: ip_net where
  "demo_routed = \<lparr>net_IP = IP [10, 2, 0, 0], net_Mask = cidr_mask 16 32\<rparr>"

definition demo_network :: network where
  "demo_network = \<lparr>ClusterCIDR = Some demo_cidr, ServiceCIDR = Some demo_cidr, PodIPMasq = False,
     VPCRouted = [Some demo_routed], InstanceMetadataRedirectPort = 0, HostPrimaryInterface = ''eth0''\<rparr>"

definition demo_links :: "link list" where
  "demo_links = [\<lparr>link_Name = ''eth0'', link_HardwareAddr = ''02:00'', link_Index = 2\<rparr>,
     \<lparr>link_Name = ''eni1'', link_HardwareAddr = ''02:01'', link_Index = 3\<rparr>]"

definition demo_tables :: tables where
  "demo_tables = \<lparr>t_links = demo_links, t_addrs = [], t_up = [], t_routes = [], t_rules = [],
     t_chains = (\<lambda>k. if k = (''nat'', ''POSTROUTING'') then Some [] else None), t_names = []\<rparr>"

definition demo_mgr :: "tables if_mgr" where
  "demo_mgr = NewIFMgr (Some demo_network) tables_host"

lemma demo_mgr_simps [simp]: "mgr_host demo_mgr = tables_host" "mgr_Network demo_mgr = Some demo_network"
  by (simp_all add: demo_mgr_def NewIFMgr_def)

lemma demo_mgr_tables: "host_tables (mgr_host demo_mgr) (\<lambda>t. t)"
  by (simp add: tables_host_tables)

lemma demo_gateway: "gateway (Some demo_cidr) = ret (IP [10, 1, 0, 1])"
  using gateway_Some [of demo_cidr 10 1 0 0] by (simp add: demo_cidr_def)

theorem pods_leave_by_their_eni_witness:
  "\<exists>t. ConfigureRoutes demo_mgr ''eni1'' 1 (Some demo_cidr) [IP [10, 1, 0, 9]] demo_tables = Some (Ok (), t) \<and>
     chosen_table (t_rules t) (IP [10, 1, 0, 9]) (IP [8, 8, 8, 8]) = Some (FromPodRTBase + 1) \<and>
     chosen_table (t_rules t) (IP [10, 1, 0, 9]) (IP [10, 1, 0, 9]) = Some mainTable"
proof -
  have find: "find (\<lambda>l. link_Name l = ''eni1'') (t_links demo_tables) =
      Some \<lparr>link_Name = ''eni1'', link_HardwareAddr = ''02:01'', link_Index = 3\<rparr>"
    by (simp add: demo_tables_def demo_links_def)
  have rules: "distinct (pod_rules 1 [IP [10, 1, 0, 9]])" "set (pod_rules 1 [IP [10, 1, 0, 9]]) \<inter> set (t_rules demo_tables) = {}"
    by (simp_all add: pod_rules_def demo_tables_def)
  have "\<exists>t. ConfigureRoutes demo_mgr ''eni1'' 1 (Some demo_cidr) [IP [10, 1, 0, 9]] demo_tables = Some (Ok (), t)"
    using tables_host_ConfigureRoutes [OF find demo_mgr_simps _ demo_gateway rules]
    by (fastforce simp: demo_network_def)
  then obtain t where t: "ConfigureRoutes demo_mgr ''eni1'' 1 (Some demo_cidr) [IP [10, 1, 0, 9]] demo_tables = Some (Ok (), t)"
    by blast
  note leave = pods_leave_by_their_eni [OF demo_mgr_tables demo_mgr_simps(2) t, of "IP [10, 1, 0, 9]"]
  have "chosen_table (t_rules t) (IP [10, 1, 0, 9]) (IP [8, 8, 8, 8]) = Some (FromPodRTBase + 1)"
    using leave [of "IP [8, 8, 8, 8]"] by (simp add: demo_tables_def ip_equal_def)
  moreover have "chosen_table (t_rules t) (IP [10, 1, 0, 9]) (IP [10, 1, 0, 9]) = Some mainTable"
    using leave [of "IP [10, 1, 0, 9]"] by (simp add: demo_tables_def)
  ultimately show ?thesis using t by blast
qed

lemma demo_masquerades:
  "nat_rules t ''POSTROUTING'' \<noteq> None \<Longrightarrow>
     ConfigureIPMasq demo_mgr nil_ip [IP [10, 1, 0, 9]] t = Some (Ok (), masqueraded demo_network nil_ip [IP [10, 1, 0, 9]] t)"
  by (rule tables_host_ConfigureIPMasq) (auto simp: demo_network_def nonmasqNets_def)

theorem masquerading_comes_last_witness:
  "\<exists>t accepts. ConfigureIPMasq demo_mgr nil_ip [IP [10, 1, 0, 9]] demo_tables = Some (Ok (), t) \<and>
     nat_rules t masq_chain = Some (accepts @ [masq_rule]) \<and> set accepts = set (accept_rules demo_network)"
proof -
  let ?t = "masqueraded demo_network nil_ip [IP [10, 1, 0, 9]] demo_tables"
  have posts: "nat_rules demo_tables ''POSTROUTING'' = Some []" "nat_rules demo_tables masq_chain = None"
    by (simp_all add: nat_rules_def demo_tables_def masq_chain_def)
  then have run: "ConfigureIPMasq demo_mgr nil_ip [IP [10, 1, 0, 9]] demo_tables = Some (Ok (), ?t)"
    by (simp add: demo_masquerades)
  then show ?thesis
    using masquerading_comes_last [OF demo_mgr_tables demo_mgr_simps(2) posts(2) run posts(1)] by blast
qed

theorem masquerading_again_changes_nothing_witness:
  "\<exists>t. ConfigureIPMasq demo_mgr nil_ip [IP [10, 1, 0, 9]] demo_tables = Some (Ok (), t) \<and>
     ConfigureIPMasq demo_mgr nil_ip [IP [10, 1, 0, 9]] t = Some (Ok (), t)"
proof -
  let ?m = "masqueraded demo_network nil_ip [IP [10, 1, 0, 9]]"
  have posts: "nat_rules demo_tables ''POSTROUTING'' \<noteq> None" by (simp add: nat_rules_def demo_tables_def)
  then have "nat_rules (?m demo_tables) ''POSTROUTING'' \<noteq> None" by (simp add: masqueraded_jumps)
  note runs = demo_masquerades [OF posts] demo_masquerades [OF this]
  from masquerading_again_changes_nothing [OF demo_mgr_tables runs] runs show ?thesis by auto
qed

text \<open>A host that was configured without the routed network.\<close>

definition old_tables :: tables where
  "old_tables = demo_tables\<lparr>t_chains := (t_chains demo_tables)((''nat'', masq_chain) \<mapsto> [masq_rule])\<rparr>"

theorem late_network_is_masqueraded_witness:
  "\<exists>t lates. ConfigureIPMasq demo_mgr nil_ip [IP [10, 1, 0, 9]] old_tables = Some (Ok (), t) \<and>
     nat_rules t masq_chain = Some ([masq_rule] @ lates) \<and> accept_args demo_routed @ masq_comment \<in> set lates"
proof -
  let ?t = "masqueraded demo_network nil_ip [IP [10, 1, 0, 9]] old_tables"
  have olds: "nat_rules old_tables masq_chain = Some ([] @ [masq_rule])"
    and posts: "nat_rules old_tables ''POSTROUTING'' = Some []"
    by (simp_all add: nat_rules_def old_tables_def demo_tables_def masq_chain_def)
  have run: "ConfigureIPMasq demo_mgr nil_ip [IP [10, 1, 0, 9]] old_tables = Some (Ok (), ?t)"
    using posts by (simp add: demo_masquerades)
  have "Some demo_routed \<in> set (VPCRouted demo_network)" by (simp add: demo_network_def)
  from late_network_is_masqueraded [OF demo_mgr_tables demo_mgr_simps(2) olds this _ run] run show ?thesis by auto
qed

theorem gateway_is_in_subnet_witness:
  "\<exists>a b c d. net_IP demo_cidr = IP [a, b, c, d] \<and> unat (d + 1) = unat d + 1 \<and>
     gateway (Some demo_cidr) = (ret (IP [a, b, c, d + 1]) :: (unit, net_ip) io) \<and> in_net (IP [a, b, c, d + 1]) demo_cidr"
proof (rule gateway_is_in_subnet)
  show "net_IP demo_cidr = ip_mask (ip_to4 (IP [10, 1, 0, 0])) (net_Mask demo_cidr)"
    by (simp add: demo_cidr_def ip_mask_def) code_simp
  show "net_Mask demo_cidr = cidr_mask 16 32" by (simp add: demo_cidr_def)
qed (simp_all add: is_v4_def)

end
