(* ===== verification/Base64.thy ===== *)
theory Base64
  imports Net_IP
begin

text \<open>
  encoding/base64's standard encoding, in which encoding/json writes a \<open>[]byte\<close>: the
  repository's state file has the masks of the allocated subnets in it. Decoding skips line
  breaks and does not look at the bits beyond the last byte, as \<open>base64.StdEncoding\<close>.
\<close>

definition b64_char :: "nat \<Rightarrow> char" where
  "b64_char n =
     (if n < 26 then char_of (65 + n) else if n < 52 then char_of (71 + n)
      else if n < 62 then char_of (n - 4) else if n = 62 then CHR ''+'' else CHR ''/'')"

definition b64_val :: "char \<Rightarrow> nat option" where
  "b64_val c =
     (let n = of_char c :: nat in
      if 65 \<le> n \<and> n \<le> 90 then Some (n - 65)
      else if 97 \<le> n \<and> n \<le> 122 then Some (n - 71)
      else if 48 \<le> n \<and> n \<le> 57 then Some (n + 4)
      else if c = CHR ''+'' then Some 62 else if c = CHR ''/'' then Some 63 else None)"

fun b64_encode :: "bytes \<Rightarrow> string" where
  "b64_encode [] = []"
| "b64_encode [a] =
     [b64_char (unat a div 4), b64_char (unat a mod 4 * 16), CHR ''='', CHR ''='']"
| "b64_encode [a, b] =
     [b64_char (unat a div 4), b64_char (unat a mod 4 * 16 + unat b div 16),
      b64_char (unat b mod 16 * 4), CHR ''='']"
| "b64_encode (a # b # c # rest) =
     b64_char (unat a div 4) # b64_char (unat a mod 4 * 16 + unat b div 16) #
     b64_char (unat b mod 16 * 4 + unat c div 64) # b64_char (unat c mod 64) # b64_encode rest"

fun b64_groups :: "string \<Rightarrow> bytes option" where
  "b64_groups [] = Some []"
| "b64_groups (w # x # y # z # rest) =
     (case (b64_val w, b64_val x) of
        (Some i, Some j) \<Rightarrow>
          if y = CHR ''='' then
            (if z = CHR ''='' \<and> rest = [] then Some [word_of_nat (i * 4 + j div 16)] else None)
          else (case b64_val y of
             None \<Rightarrow> None
           | Some k \<Rightarrow>
               if z = CHR ''='' then
                 (if rest = []
                  then Some [word_of_nat (i * 4 + j div 16), word_of_nat (j mod 16 * 16 + k div 4)] else None)
               else (case (b64_val z, b64_groups rest) of
                  (Some l, Some bs) \<Rightarrow>
                    Some (word_of_nat (i * 4 + j div 16) # word_of_nat (j mod 16 * 16 + k div 4) #
                      word_of_nat (k mod 4 * 64 + l) # bs)
                | _ \<Rightarrow> None))
      | _ \<Rightarrow> None)"
| "b64_groups _ = None"

definition b64_decode :: "string \<Rightarrow> bytes option" where
  "b64_decode s = b64_groups (filter (\<lambda>c. (of_char c :: nat) \<notin> {10, 13}) s)"

lemma b64_val_char [simp]: "n < 64 \<Longrightarrow> b64_val (b64_char n) = Some n"
  by (auto simp: b64_val_def b64_char_def Let_def)

lemma b64_char_visible: "n < 64 \<Longrightarrow> b64_char n \<noteq> CHR ''='' \<and> (of_char (b64_char n) :: nat) \<notin> {10, 13}"
  by (auto simp: b64_char_def char_of_eq_iff take_bit_eq_mod)

lemma b64_char_not_pad [simp]: "n < 64 \<Longrightarrow> b64_char n \<noteq> CHR ''=''"
  using b64_char_visible by blast

lemma byte_less: "unat (a :: 8 word) < 256"
  using unsigned_less [of a, where ?'a = nat] by simp

lemma byte_bounds:
  fixes a b :: "8 word"
  shows "unat a div 4 < 64" "unat a mod 4 * 16 < 64" "unat a mod 4 * 16 + unat b div 16 < 64"
    "unat a mod 16 * 4 < 64" "unat a mod 16 * 4 + unat b div 64 < 64" "unat a mod 64 < 64"
  using byte_less [of a] byte_less [of b] by linarith+

lemma word_split:
  fixes a :: "8 word"
  shows "word_of_nat (unat a div k) * word_of_nat k + word_of_nat (unat a mod k) = a"
proof -
  have "word_of_nat (unat a div k * k + unat a mod k) = a" by (simp only: div_mult_mod_eq) simp
  then show ?thesis by (simp only: of_nat_add of_nat_mult)
qed

lemma byte_parts:
  fixes a b c :: "8 word"
  shows "unat b div 16 div 16 = 0" "unat c div 64 div 4 = 0"
    "(word_of_nat (unat b div 16 mod 16) :: 8 word) * 16 + word_of_nat (unat b mod 16) = b"
    "(word_of_nat (unat c div 64 mod 4) :: 8 word) * 64 + word_of_nat (unat c mod 64) = c"
    "(word_of_nat (unat a div 4) :: 8 word) * 4 + word_of_nat (unat a mod 4) = a"
  using byte_less [of b] byte_less [of c] word_split [of b 16] word_split [of c 64] word_split [of a 4]
  by (simp_all add: mod_less)

lemma b64_groups_encode: "b64_groups (b64_encode bs) = Some bs"
  by (induction bs rule: b64_encode.induct) (simp_all add: byte_bounds byte_parts)

lemma b64_encode_visible: "c \<in> set (b64_encode bs) \<Longrightarrow> (of_char c :: nat) \<notin> {10, 13}"
  using b64_char_visible byte_bounds by (induction bs rule: b64_encode.induct) auto

lemma b64_roundtrip [simp]: "b64_decode (b64_encode bs) = Some bs"
proof -
  have "filter (\<lambda>c. (of_char c :: nat) \<notin> {10, 13}) (b64_encode bs) = b64_encode bs"
    using b64_encode_visible by (simp add: filter_id_conv)
  then show ?thesis by (simp add: b64_decode_def b64_groups_encode)
qed

end
