(* ===== verification/Alloc_State.thy ===== *)
theory Alloc_State
  imports Node_State Base64 Host_Files "HOL-Library.AList" "HOL-Library.Multiset" "HOL-Library.Char_ord"
begin

text \<open>
  pkg/allocator/state.go: the allocator's state, its JSON and \<open>Write\<close>. The Go map
  \<open>Allocations\<close> is an association list with distinct keys; encoding/json writes it sorted
  by key. The interpretation \<open>state_json\<close> proves that a written state is read back.
\<close>

section \<open>State\<close>

record allocation =
  ContainerID :: string
  PodName :: string
  PodNamespace :: string
  AllocIP :: net_ip
  ENIIP :: net_ip
  ENISubnet :: ip_net

record alloc_state =
  ENIs :: enis
  Allocations :: "(string \<times> allocation) list"
  LastFreedIP :: net_ip
  state_path :: string

definition DefaultStatePath :: string where
  "DefaultStatePath = ''/var/lib/cni/vpcnet/state.json''"

definition zero_net :: ip_net where
  "zero_net = \<lparr>net_IP = nil_ip, net_Mask = []\<rparr>"

definition zero_allocation :: allocation where
  "zero_allocation = \<lparr>ContainerID = [], PodName = [], PodNamespace = [], AllocIP = nil_ip,
     ENIIP = nil_ip, ENISubnet = zero_net\<rparr>"

definition zero_state :: alloc_state where
  "zero_state = \<lparr>ENIs = None, Allocations = [], LastFreedIP = nil_ip, state_path = []\<rparr>"

section \<open>Maps in JSON\<close>

fun dec_entries ::
  "(json \<Rightarrow> error + 'a) \<Rightarrow> (string \<times> json) list \<Rightarrow> (string \<times> 'a) list \<Rightarrow> error + (string \<times> 'a) list"
where
  "dec_entries d [] m = Inr m"
| "dec_entries d ((k, v) # ms) m = sum_bind (d v) (\<lambda>x. dec_entries d ms (AList.update k x m))"

fun dec_map ::
  "(json \<Rightarrow> error + 'a) \<Rightarrow> json \<Rightarrow> (string \<times> 'a) list \<Rightarrow> error + (string \<times> 'a) list"
where
  "dec_map d JNull old = Inr []"
| "dec_map d (JObj ms) old = dec_entries d ms old"
| "dec_map d _ old = Inl type_error"

definition enc_entry :: "('a \<Rightarrow> error + json) \<Rightarrow> string \<times> 'a \<Rightarrow> error + string \<times> json" where
  "enc_entry e p = sum_bind (e (snd p)) (\<lambda>v. Inr (fst p, v))"

definition enc_map :: "('a \<Rightarrow> error + json) \<Rightarrow> (string \<times> 'a) list \<Rightarrow> error + json" where
  "enc_map e m = sum_bind (traverse (enc_entry e) (sort_key fst m)) (\<lambda>ms. Inr (JObj ms))"

definition map_norm :: "('a \<Rightarrow> 'a) \<Rightarrow> (string \<times> 'a) list \<Rightarrow> (string \<times> 'a) list" where
  "map_norm norm m = map (\<lambda>(k, x). (k, norm x)) (sort_key fst m)"

definition map_ok :: "('a \<Rightarrow> bool) \<Rightarrow> (string \<times> 'a) list \<Rightarrow> bool" where
  "map_ok ok m \<longleftrightarrow> distinct (map fst m) \<and> (\<forall>p \<in> set m. ok (snd p))"

lemma keys_map_norm [simp]: "set (map fst (map_norm norm m)) = set (map fst m)"
  by (force simp: map_norm_def)

lemma distinct_sort_key_fst [simp]: "distinct (map fst (sort_key fst m)) = distinct (map fst m)"
  by (metis mset_map mset_sort mset_eq_imp_distinct_iff)

lemma map_fst_map_norm: "map fst (map_norm norm m) = map fst (sort_key fst m)"
  by (simp add: map_norm_def case_prod_beta comp_def)

lemma sort_key_map_norm: "sort_key fst (map_norm norm m) = map_norm norm m"
  by (rule sort_key_id_if_sorted) (simp only: map_fst_map_norm sorted_sort_key)

lemma map_of_map_norm:
  "distinct (map fst m) \<Longrightarrow> map_of (map_norm norm m) k = map_option norm (map_of m k)"
proof -
  assume d: "distinct (map fst m)"
  have "map_of (sort_key fst m) k = Some x \<longleftrightarrow> map_of m k = Some x" for x
    using d by (simp add: map_of_eq_Some_iff)
  then have "map_of (sort_key fst m) k = map_of m k" by (metis not_None_eq)
  then show ?thesis by (simp add: map_norm_def map_of_map case_prod_beta)
qed

lemma update_new: "k \<notin> set (map fst m) \<Longrightarrow> AList.update k x m = m @ [(k, x)]"
  by (induction m) auto

context json_codec
begin

lemma dec_entries_enc:
  assumes "\<forall>p \<in> set ps. ok (snd p)"
  shows "\<exists>ms. traverse (enc_entry enc) ps = Inr ms \<and> json_ok (JObj ms) \<and> map fst ms = map fst ps \<and>
    (distinct (map fst acc @ map fst ps) \<longrightarrow>
       dec_entries dec ms acc = Inr (acc @ map (\<lambda>(k, x). (k, norm x)) ps)) \<and>
    traverse (enc_entry enc) (map (\<lambda>(k, x). (k, norm x)) ps) = traverse (enc_entry enc) ps"
  using assms
proof (induction ps arbitrary: acc)
  case (Cons p ps)
  obtain k x where p: "p = (k, x)" by force
  then obtain v where v: "enc x = Inr v" "json_ok v" "dec v = Inr (norm x)" "enc (norm x) = enc x"
    using Cons.prems enc_valueE [of x] enc_norm [of x] by auto
  have "\<forall>q \<in> set ps. ok (snd q)" using Cons.prems by simp
  from Cons.IH [OF this, of "acc @ [(k, norm x)]"]
  obtain ms where ms: "traverse (enc_entry enc) ps = Inr ms" "json_ok (JObj ms)" "map fst ms = map fst ps"
    "distinct (map fst (acc @ [(k, norm x)]) @ map fst ps) \<longrightarrow>
       dec_entries dec ms (acc @ [(k, norm x)]) = Inr ((acc @ [(k, norm x)]) @ map (\<lambda>(k, x). (k, norm x)) ps)"
    "traverse (enc_entry enc) (map (\<lambda>(k, x). (k, norm x)) ps) = traverse (enc_entry enc) ps"
    by (elim exE conjE)
  have "enc_entry enc (k, x) = Inr (k, v)" "enc_entry enc (k, norm x) = Inr (k, v)"
    using v by (simp_all add: enc_entry_def)
  then show ?case using v ms by (simp add: p update_new)
qed simp

text \<open>A codec of values is one of maps to them.\<close>

lemma map_codec: "json_codec (enc_map enc) (\<lambda>v. dec_map dec v []) (map_ok ok) (map_norm norm)"
proof
  fix m :: "(string \<times> 'a) list" assume m: "map_ok ok m"
  then have ok: "\<forall>p \<in> set (sort_key fst m). ok (snd p)" and d: "distinct (map fst (sort_key fst m))"
    by (simp_all add: map_ok_def)
  obtain ms where ms: "traverse (enc_entry enc) (sort_key fst m) = Inr ms" "json_ok (JObj ms)"
    "dec_entries dec ms [] = Inr (map_norm norm m)"
    "traverse (enc_entry enc) (map_norm norm m) = traverse (enc_entry enc) (sort_key fst m)"
    using dec_entries_enc [OF ok, of "[]"] d by (auto simp: map_norm_def)
  show "\<exists>v. enc_map enc m = Inr v \<and> json_ok v \<and> dec_map dec v [] = Inr (map_norm norm m)"
    using ms by (simp add: enc_map_def)
  show "enc_map enc (map_norm norm m) = enc_map enc m"
    using ms by (simp only: enc_map_def sort_key_map_norm)
  show "map_ok ok (map_norm norm m)"
    using ok d ok_norm by (auto simp: map_ok_def map_fst_map_norm) (auto simp: map_norm_def)
qed

end

section \<open>JSON of the state\<close>

fun dec_bytes :: "json \<Rightarrow> error + bytes" where
  "dec_bytes JNull = Inr []"
| "dec_bytes (JStr s) = (case b64_decode s of None \<Rightarrow> Inl (ExtErr ''illegal base64 data'') | Some bs \<Rightarrow> Inr bs)"
| "dec_bytes _ = Inl type_error"

definition enc_bytes :: "bytes \<Rightarrow> json" where
  "enc_bytes bs = (if bs = [] then JNull else JStr (b64_encode bs))"

definition subnet_field :: "string \<Rightarrow> json \<Rightarrow> ip_net \<Rightarrow> error + ip_net" where
  "subnet_field f v n =
     (if f = ''IP'' then sum_bind (dec_ip v) (\<lambda>x. Inr (n\<lparr>net_IP := x\<rparr>))
      else sum_bind (dec_bytes v) (\<lambda>x. Inr (n\<lparr>net_Mask := x\<rparr>)))"

definition dec_subnet :: "json \<Rightarrow> ip_net \<Rightarrow> error + ip_net" where
  "dec_subnet v old = dec_struct [''IP'', ''Mask''] subnet_field old v"

definition enc_subnet :: "ip_net \<Rightarrow> error + json" where
  "enc_subnet n =
     sum_bind (enc_ip (net_IP n)) (\<lambda>ip. Inr (JObj [(''IP'', ip), (''Mask'', enc_bytes (net_Mask n))]))"

definition allocation_field :: "string \<Rightarrow> json \<Rightarrow> allocation \<Rightarrow> error + allocation" where
  "allocation_field f v a =
     (if f = ''ContainerID'' then sum_bind (dec_string v (ContainerID a)) (\<lambda>x. Inr (a\<lparr>ContainerID := x\<rparr>))
      else if f = ''PodName'' then sum_bind (dec_string v (PodName a)) (\<lambda>x. Inr (a\<lparr>PodName := x\<rparr>))
      else if f = ''PodNamespace'' then
        sum_bind (dec_string v (PodNamespace a)) (\<lambda>x. Inr (a\<lparr>PodNamespace := x\<rparr>))
      else if f = ''IP'' then sum_bind (dec_ip v) (\<lambda>x. Inr (a\<lparr>AllocIP := x\<rparr>))
      else if f = ''ENIIP'' then sum_bind (dec_ip v) (\<lambda>x. Inr (a\<lparr>ENIIP := x\<rparr>))
      else sum_bind (dec_subnet v (ENISubnet a)) (\<lambda>x. Inr (a\<lparr>ENISubnet := x\<rparr>)))"

definition allocation_fields :: "string list" where
  "allocation_fields = [''ContainerID'', ''PodName'', ''PodNamespace'', ''IP'', ''ENIIP'', ''ENISubnet'']"

definition dec_allocation :: "json \<Rightarrow> error + allocation" where
  "dec_allocation = dec_struct allocation_fields allocation_field zero_allocation"

definition enc_allocation :: "allocation \<Rightarrow> error + json" where
  "enc_allocation a =
     sum_bind (enc_ip (AllocIP a)) (\<lambda>ip.
     sum_bind (enc_ip (ENIIP a)) (\<lambda>eniip.
     sum_bind (enc_subnet (ENISubnet a)) (\<lambda>subnet.
     Inr (JObj
       [(''ContainerID'', JStr (ContainerID a)), (''PodName'', JStr (PodName a)),
        (''PodNamespace'', JStr (PodNamespace a)), (''IP'', ip), (''ENIIP'', eniip),
        (''ENISubnet'', subnet)]))))"

definition state_field :: "string \<Rightarrow> json \<Rightarrow> alloc_state \<Rightarrow> error + alloc_state" where
  "state_field f v s =
     (if f = ''enis'' then sum_bind (dec_slice dec_eni v) (\<lambda>x. Inr (s\<lparr>ENIs := x\<rparr>))
      else if f = ''allocations'' then
        sum_bind (dec_map dec_allocation v (Allocations s)) (\<lambda>x. Inr (s\<lparr>Allocations := x\<rparr>))
      else sum_bind (dec_ip v) (\<lambda>x. Inr (s\<lparr>LastFreedIP := x\<rparr>)))"

definition dec_state :: "json \<Rightarrow> error + alloc_state" where
  "dec_state = dec_struct [''enis'', ''allocations'', ''LastFreedIP''] state_field zero_state"

definition enc_state :: "alloc_state \<Rightarrow> error + json" where
  "enc_state s =
     sum_bind (enc_slice enc_eni (ENIs s)) (\<lambda>enis.
     sum_bind (enc_map enc_allocation (Allocations s)) (\<lambda>allocs.
     sum_bind (enc_ip (LastFreedIP s)) (\<lambda>freed.
     Inr (JObj [(''enis'', enis), (''allocations'', allocs), (''LastFreedIP'', freed)]))))"

section \<open>Write\<close>

definition Write :: "'o file_ops \<Rightarrow> alloc_state \<Rightarrow> ('o, unit) io" where
  "Write fs a =
     andthen (wrapping (\<lambda>e. Wrapf e ''Error creating state directory %s'' [state_path a])
       (os_MkdirAll fs (filepath_dir (state_path a)))) (\<lambda>_.
     andthen (wrapping (\<lambda>e. Wrapf e ''Error marshaling current state'' [])
       (of_sum (json_marshal enc_state a))) (\<lambda>b.
     wrapping (\<lambda>e. Wrapf e ''Error writing current state to %s'' [state_path a])
       (os_WriteFile fs (state_path a) b)))"

section \<open>A written state is read back\<close>

definition sendable_allocation :: "allocation \<Rightarrow> bool" where
  "sendable_allocation a \<longleftrightarrow>
     sendable_ip (AllocIP a) \<and> sendable_ip (ENIIP a) \<and> sendable_ip (net_IP (ENISubnet a))"

definition allocation_norm :: "allocation \<Rightarrow> allocation" where
  "allocation_norm a = a\<lparr>AllocIP := ip_norm (AllocIP a), ENIIP := ip_norm (ENIIP a),
     ENISubnet := (ENISubnet a)\<lparr>net_IP := ip_norm (net_IP (ENISubnet a))\<rparr>\<rparr>"

definition sendable_state :: "alloc_state \<Rightarrow> bool" where
  "sendable_state s \<longleftrightarrow> list_all sendable_eni (elems (ENIs s)) \<and>
     map_ok sendable_allocation (Allocations s) \<and> sendable_ip (LastFreedIP s)"

definition state_norm :: "alloc_state \<Rightarrow> alloc_state" where
  "state_norm s = \<lparr>ENIs = map_option (map (map_option eni_norm)) (ENIs s),
     Allocations = map_norm allocation_norm (Allocations s),
     LastFreedIP = ip_norm (LastFreedIP s), state_path = []\<rparr>"

lemma dec_enc_bytes [simp]: "dec_bytes (enc_bytes bs) = Inr bs" "json_ok (enc_bytes bs)"
  by (simp_all add: enc_bytes_def)

interpretation allocation_json: json_codec enc_allocation dec_allocation sendable_allocation allocation_norm
proof
  fix a assume "sendable_allocation a"
  then have ips: "sendable_ip (AllocIP a)" "sendable_ip (ENIIP a)" "sendable_ip (net_IP (ENISubnet a))"
    by (simp_all add: sendable_allocation_def)
  obtain v1 where v1: "enc_ip (AllocIP a) = Inr v1" "json_ok v1" "dec_ip v1 = Inr (ip_norm (AllocIP a))"
    using ip_json.enc_valueE [OF ips(1)] .
  obtain v2 where v2: "enc_ip (ENIIP a) = Inr v2" "json_ok v2" "dec_ip v2 = Inr (ip_norm (ENIIP a))"
    using ip_json.enc_valueE [OF ips(2)] .
  obtain v3 where v3: "enc_ip (net_IP (ENISubnet a)) = Inr v3" "json_ok v3"
    "dec_ip v3 = Inr (ip_norm (net_IP (ENISubnet a)))"
    using ip_json.enc_valueE [OF ips(3)] .
  show "\<exists>v. enc_allocation a = Inr v \<and> json_ok v \<and> dec_allocation v = Inr (allocation_norm a)"
    by (simp add: enc_allocation_def enc_subnet_def v1 v2 v3 dec_allocation_def allocation_fields_def
        allocation_field_def dec_subnet_def subnet_field_def allocation_norm_def zero_allocation_def)
  show "enc_allocation (allocation_norm a) = enc_allocation a"
    by (simp add: enc_allocation_def enc_subnet_def allocation_norm_def ip_json.enc_norm ips)
  show "sendable_allocation (allocation_norm a)"
    using ips by (simp add: sendable_allocation_def allocation_norm_def ip_json.ok_norm)
qed

interpretation allocations_json: json_codec "enc_map enc_allocation" "\<lambda>v. dec_map dec_allocation v []"
    "map_ok sendable_allocation" "map_norm allocation_norm"
  by (rule allocation_json.map_codec)

interpretation state_json: json_codec enc_state dec_state sendable_state state_norm
proof
  fix s assume "sendable_state s"
  then have ok: "list_all sendable_eni (elems (ENIs s))" "map_ok sendable_allocation (Allocations s)"
    "sendable_ip (LastFreedIP s)" by (simp_all add: sendable_state_def)
  obtain v1 where v1: "enc_slice enc_eni (ENIs s) = Inr v1" "json_ok v1"
    "dec_slice dec_eni v1 = Inr (map_option (map (map_option eni_norm)) (ENIs s))"
    using enis_json.enc_valueE [OF ok(1)] .
  obtain v2 where v2: "enc_map enc_allocation (Allocations s) = Inr v2" "json_ok v2"
    "dec_map dec_allocation v2 [] = Inr (map_norm allocation_norm (Allocations s))"
    using allocations_json.enc_valueE [OF ok(2)] .
  obtain v3 where v3: "enc_ip (LastFreedIP s) = Inr v3" "json_ok v3" "dec_ip v3 = Inr (ip_norm (LastFreedIP s))"
    using ip_json.enc_valueE [OF ok(3)] .
  show "\<exists>v. enc_state s = Inr v \<and> json_ok v \<and> dec_state v = Inr (state_norm s)"
    using v1 v2 v3 by (simp add: enc_state_def dec_state_def state_field_def state_norm_def zero_state_def)
  show "enc_state (state_norm s) = enc_state s"
    by (simp add: enc_state_def state_norm_def enis_json.enc_norm allocations_json.enc_norm ip_json.enc_norm ok)
  show "sendable_state (state_norm s)"
    using enis_json.ok_norm [OF ok(1)] allocations_json.ok_norm [OF ok(2)] ip_json.ok_norm [OF ok(3)]
    by (simp add: sendable_state_def state_norm_def)
qed

end
