(* ===== verification/Address_Pool.thy ===== *)
theory Address_Pool
  imports Alloc_State
begin

text \<open>
  The Go interfaces behind which the rest of the daemon sees the allocator:
  \<open>reconciler.Allocator\<close> (\<open>FreeAddressCount\<close>) and \<open>ipamsvc.Allocator\<close> (\<open>Allocate\<close> and
  \<open>ReleaseByContainer\<close> with it). The laws speak of two views of the world: who owns which
  address, and how many addresses of the pool nobody owns.
\<close>

locale address_counter =
  fixes count :: "('w, int) io"
    and pool_inv :: "'w \<Rightarrow> bool"
    and free :: "'w \<Rightarrow> nat"
  assumes count_free: "pool_inv w \<Longrightarrow> count w = Some (Ok (int (free w)), w)"
begin

lemma count_zero: "pool_inv w \<Longrightarrow> count w = Some (Ok n, w') \<Longrightarrow> n = 0 \<longleftrightarrow> free w = 0"
  by (auto simp: count_free)

end

locale address_pool = address_counter count pool_inv free
  for count :: "('w, int) io" and pool_inv :: "'w \<Rightarrow> bool" and free :: "'w \<Rightarrow> nat" +
  fixes allocate :: "string \<Rightarrow> string \<Rightarrow> string \<Rightarrow> ('w, allocation) io"
    and release :: "string \<Rightarrow> ('w, unit) io"
    and owner :: "'w \<Rightarrow> string \<rightharpoonup> string"
  assumes allocate_keeps: "keeps pool_inv (allocate cid name ns)"
    and release_keeps: "keeps pool_inv (release cid)"
    and allocate_Ok: "pool_inv w \<Longrightarrow> allocate cid name ns w = Some (Ok a, w') \<Longrightarrow>
      is_v4 (AllocIP a) \<and> owner w (ip_string (AllocIP a)) = None \<and>
      owner w' = (owner w)(ip_string (AllocIP a) \<mapsto> cid) \<and> free w = Suc (free w')"
    and allocate_owner: "pool_inv w \<Longrightarrow> allocate cid name ns w = Some (x, w') \<Longrightarrow>
      owner w' = owner w \<or> (\<exists>k. owner w k = None \<and> owner w' = (owner w)(k \<mapsto> cid))"
    and allocate_full: "pool_inv w \<Longrightarrow> free w = 0 \<Longrightarrow> allocate cid name ns w = Some (Fail ErrNoFreeIPs, w)"
    and allocate_not_full: "pool_inv w \<Longrightarrow> 0 < free w \<Longrightarrow> allocate cid name ns w \<noteq> Some (Fail ErrNoFreeIPs, w')"
    and release_owner: "pool_inv w \<Longrightarrow> release cid w = Some (r, w') \<Longrightarrow>
      (if cid \<in> ran (owner w) then \<exists>k. owner w k = Some cid \<and> owner w' = (owner w)(k := None)
       else owner w' = owner w)"
    and release_free: "pool_inv w \<Longrightarrow> release cid w = Some (r, w') \<Longrightarrow> free w \<le> free w' \<and> free w' \<le> Suc (free w)"
begin

text \<open>The pool is full exactly when an allocation says so.\<close>

lemma no_free_ips_iff:
  "pool_inv w \<Longrightarrow> (\<exists>w'. allocate cid name ns w = Some (Fail ErrNoFreeIPs, w')) \<longleftrightarrow> free w = 0"
  using allocate_full allocate_not_full by (metis gr_zeroI)

text \<open>An allocation takes nothing from anybody.\<close>

lemma allocate_others:
  assumes "pool_inv w" "allocate cid name ns w = Some (Ok a, w')" "owner w k = Some c"
  shows "owner w' k = Some c"
  using allocate_Ok [OF assms(1,2)] assms(3) by auto

text \<open>What is released belonged to the container, and others keep theirs.\<close>

lemma release_others:
  assumes "pool_inv w" "release cid w = Some (r, w')" "owner w k = Some c" "c \<noteq> cid"
  shows "owner w' k = Some c"
  using release_owner [OF assms(1,2)] assms(3,4) by (auto split: if_splits)

lemma release_only:
  assumes "pool_inv w" "release cid w = Some (r, w')"
  shows "owner w' \<subseteq>\<^sub>m owner w"
  using release_owner [OF assms] by (auto simp: map_le_def split: if_splits)

text \<open>A container that owns one address owns none after its release.\<close>

lemma release_unique:
  assumes "pool_inv w" "release cid w = Some (r, w')"
    and "\<And>k l. owner w k = Some cid \<Longrightarrow> owner w l = Some cid \<Longrightarrow> k = l"
  shows "cid \<notin> ran (owner w')"
  using release_owner [OF assms(1,2)] assms(3) by (auto simp: ran_def split: if_splits)

text \<open>What was allocated can be released: the pool is as it was.\<close>

lemma release_allocate:
  assumes "pool_inv w" "allocate cid name ns w = Some (Ok a, w1)" "cid \<notin> ran (owner w)"
    and "release cid w1 = Some (r, w2)"
  shows "owner w2 = owner w"
proof -
  have al: "owner w (ip_string (AllocIP a)) = None" "owner w1 = (owner w)(ip_string (AllocIP a) \<mapsto> cid)"
    using allocate_Ok [OF assms(1,2)] by auto
  have "pool_inv w1" by (rule keepsD [OF allocate_keeps assms(1,2)])
  moreover have "cid \<in> ran (owner w1)" by (auto simp: al(2) ran_def)
  ultimately obtain k where k: "owner w1 k = Some cid" "owner w2 = (owner w1)(k := None)"
    using release_owner assms(4) by metis
  then have "k = ip_string (AllocIP a)" using assms(3) by (auto simp: al(2) ran_def split: if_splits)
  then show ?thesis using al k by auto
qed

end

end
