(* ===== verification/Allocator.thy ===== *)
theory Allocator
  imports Address_Pool
begin

text \<open>
  pkg/allocator/allocator.go. The methods run in a world \<open>alloc_state \<times> 'o\<close>: the state the
  allocator guards with its mutex, and the host. Each \<open>Lock \<dots> defer Unlock\<close> section is one
  function here, so an interleaving of calls is a sequence of these; \<open>Allocate\<close> is two of
  them, the count of free addresses and the locked rest. The order in which Go ranges over
  the map is a parameter: keys are visited by increasing \<open>rank\<close>.
\<close>

section \<open>The operations\<close>

definition New :: "'o file_ops \<Rightarrow> string \<Rightarrow> ('o, alloc_state) io" where
  "New fs statePath =
     (let sp = (if statePath = [] then DefaultStatePath else statePath) in
      andthen (attempt (os_Stat fs sp)) (\<lambda>st.
      andthen
        (if (case st of Inl err \<Rightarrow> \<not> is_not_exist err | Inr _ \<Rightarrow> True) then
           andthen (wrapping (\<lambda>e. Wrapf e ''Error reading existing state'' []) (os_ReadFile fs sp)) (\<lambda>b.
           wrapping (\<lambda>e. Wrapf e ''Error unmarshaling existing state'' [])
             (of_sum (json_unmarshal dec_state b)))
         else ret zero_state) (\<lambda>s.
      ret (s\<lparr>state_path := sp\<rparr>))))"

definition write_state :: "'o file_ops \<Rightarrow> (alloc_state \<times> 'o, unit) io" where
  "write_state fs w = wrapping (\<lambda>e. Wrapf e ''Error writing state'' []) (on_snd (Write fs (fst w))) w"

definition SetENIs :: "'o file_ops \<Rightarrow> enis \<Rightarrow> (alloc_state \<times> 'o, unit) io" where
  "SetENIs fs enis w = write_state fs ((fst w)\<lparr>ENIs := enis\<rparr>, snd w)"

text \<open>The addresses of the ENIs, in their order; none if an ENI is a nil pointer.\<close>

definition live_enis :: "alloc_state \<Rightarrow> eni list option" where
  "live_enis s = those (elems (ENIs s))"

definition pool_ips :: "eni list \<Rightarrow> net_ip list" where
  "pool_ips es = foldl (\<lambda>ips e. ips @ elems (IPs e)) [] es"

definition allocated :: "alloc_state \<Rightarrow> net_ip \<Rightarrow> bool" where
  "allocated s ip \<longleftrightarrow> map_of (Allocations s) (ip_string ip) \<noteq> None"

definition FreeAddressCount :: "(alloc_state \<times> 'o, int) io" where
  "FreeAddressCount w =
     (case live_enis (fst w) of
        None \<Rightarrow> go_panic ''nil pointer dereference'' w
      | Some es \<Rightarrow> ret (foldl (\<lambda>n ip. if \<not> allocated (fst w) ip then n + 1 else n) 0 (pool_ips es)) w)"

text \<open>The loop that puts the last freed address at the end.\<close>

function shuffle_from :: "net_ip \<Rightarrow> nat \<Rightarrow> net_ip list \<Rightarrow> net_ip list" where
  "shuffle_from freed i ips =
     (if i < length ips then
        shuffle_from freed (i + 1)
          (if ip_equal (ips ! i) freed then drop (i + 1) ips @ take (i + 1) ips else ips)
      else ips)"
  by auto
termination by (relation "measure (\<lambda>(freed, i, ips). length ips - i)") auto

declare shuffle_from.simps [simp del]

text \<open>Sort, shuffle, and walk: the loop has no \<open>break\<close>, so it ends with the last free address.\<close>

definition walk_order :: "alloc_state \<Rightarrow> net_ip list \<Rightarrow> net_ip list" where
  "walk_order s ips =
     (if LastFreedIP s = nil_ip then sort ips else shuffle_from (LastFreedIP s) 0 (sort ips))"

definition reserve :: "alloc_state \<Rightarrow> net_ip list \<Rightarrow> net_ip" where
  "reserve s ips = foldl (\<lambda>reserved ip. if allocated s ip then reserved else ip) nil_ip (walk_order s ips)"

definition find_eni :: "eni list \<Rightarrow> net_ip \<Rightarrow> eni option" where
  "find_eni es reserved =
     foldl (\<lambda>found e. foldl (\<lambda>found ip. if ip_equal ip reserved then Some e else found) found (elems (IPs e)))
       None es"

definition allocate_locked ::
  "'o file_ops \<Rightarrow> string \<Rightarrow> string \<Rightarrow> string \<Rightarrow> (alloc_state \<times> 'o, allocation) io" where
  "allocate_locked fs containerID podName podNamespace w =
     (let s = fst w in
      case live_enis s of
        None \<Rightarrow> go_panic ''nil pointer dereference'' w
      | Some es \<Rightarrow>
          if length (pool_ips es) = 0 then throw ErrEmptyPool w
          else
            let reserved = reserve s (pool_ips es) in
            if reserved = nil_ip then throw (Errorf ''Could not allocate IP'' []) w
            else case find_eni es reserved of
              None \<Rightarrow> go_panic ''Internal state issue - could not find ENI for IP that came from ENI list'' w
            | Some eni \<Rightarrow>
                (case as_net_ipnet (CIDRBlock eni) of
                   None \<Rightarrow> go_panic ''nil pointer dereference'' w
                 | Some subnet \<Rightarrow>
                     let a = \<lparr>ContainerID = containerID, PodName = podName, PodNamespace = podNamespace,
                           AllocIP = reserved, ENIIP = InterfaceIP eni, ENISubnet = subnet\<rparr>;
                         s' = s\<lparr>Allocations := AList.update (ip_string reserved) a (Allocations s)\<rparr>
                     in andthen (write_state fs) (\<lambda>_. ret a) (s', snd w)))"

text \<open>The count, before \<open>Allocate\<close> takes the lock.\<close>

definition count_free :: "(alloc_state \<times> 'o, unit) io" where
  "count_free = andthen FreeAddressCount (\<lambda>free. if free < 1 then throw ErrNoFreeIPs else ret ())"

definition Allocate ::
  "'o file_ops \<Rightarrow> string \<Rightarrow> string \<Rightarrow> string \<Rightarrow> (alloc_state \<times> 'o, allocation) io" where
  "Allocate fs containerID podName podNamespace =
     andthen count_free (\<lambda>_. allocate_locked fs containerID podName podNamespace)"

definition ReleaseByContainer ::
  "(string \<Rightarrow> nat) \<Rightarrow> 'o file_ops \<Rightarrow> string \<Rightarrow> (alloc_state \<times> 'o, unit) io" where
  "ReleaseByContainer rank fs containerID w =
     (let s = fst w;
          relip = foldl (\<lambda>relip (ip, a). if ContainerID a = containerID then ip else relip) []
            (sort_key (\<lambda>p. rank (fst p)) (Allocations s));
          s' = (if relip \<noteq> []
                then s\<lparr>Allocations := AList.delete relip (Allocations s), LastFreedIP := parse_ip relip\<rparr>
                else s)
      in write_state fs (s', snd w))"

section \<open>Well-formed states\<close>

definition keys_ok :: "alloc_state \<Rightarrow> bool" where
  "keys_ok s \<longleftrightarrow> distinct (map fst (Allocations s)) \<and>
     (\<forall>(k, a) \<in> set (Allocations s). is_v4 (AllocIP a) \<and> k = ip_string (AllocIP a))"

definition enis_ok :: "enis \<Rightarrow> bool" where
  "enis_ok es \<longleftrightarrow> (\<forall>p \<in> set (elems es). \<exists>e. p = Some e \<and> CIDRBlock e \<noteq> None) \<and>
     (\<forall>p \<in> set (elems es). \<forall>e. p = Some e \<longrightarrow> (\<forall>ip \<in> set (elems (IPs e)). is_v4 ip)) \<and>
     distinct (map ip_string (concat (map (\<lambda>p. case p of None \<Rightarrow> [] | Some e \<Rightarrow> elems (IPs e)) (elems es))))"

definition alloc_ok :: "alloc_state \<Rightarrow> bool" where
  "alloc_ok s \<longleftrightarrow> keys_ok s \<and> enis_ok (ENIs s)"

text \<open>The addresses of the pool, and those that are free.\<close>

definition pool :: "alloc_state \<Rightarrow> net_ip list" where
  "pool s = (case live_enis s of None \<Rightarrow> [] | Some es \<Rightarrow> pool_ips es)"

definition free_ips :: "alloc_state \<Rightarrow> net_ip list" where
  "free_ips s = filter (\<lambda>ip. \<not> allocated s ip) (pool s)"

definition owners :: "alloc_state \<Rightarrow> string \<rightharpoonup> string" where
  "owners s k = map_option ContainerID (map_of (Allocations s) k)"

lemma pool_ips_concat: "pool_ips es = concat (map (\<lambda>e. elems (IPs e)) es)"
proof -
  have "foldl (\<lambda>ips e. ips @ elems (IPs e)) xs es = xs @ concat (map (\<lambda>e. elems (IPs e)) es)" for xs
    by (induction es arbitrary: xs) auto
  then show ?thesis by (simp add: pool_ips_def)
qed

lemma those_Some: "(\<forall>p \<in> set ps. \<exists>x. p = Some x) \<Longrightarrow> those ps = Some (map the ps)"
  by (induction ps) auto

lemma those_map_Some: "those ps = Some xs \<Longrightarrow> ps = map Some xs"
  by (induction ps arbitrary: xs) (auto split: option.splits)

lemma those_map_Some_eq [simp]: "those (map Some xs) = Some xs"
  by (induction xs) auto

lemma live_enis_ok:
  assumes "enis_ok (ENIs s)"
  obtains es where "live_enis s = Some es" "pool s = pool_ips es"
    "\<And>e. e \<in> set es \<Longrightarrow> CIDRBlock e \<noteq> None" "distinct (map ip_string (pool s))"
    "\<And>ip. ip \<in> set (pool s) \<Longrightarrow> is_v4 ip"
proof -
  let ?es = "map the (elems (ENIs s))"
  have live: "live_enis s = Some ?es"
    using assms by (auto simp: live_enis_def enis_ok_def intro!: those_Some)
  have eq: "map (\<lambda>p. case p of None \<Rightarrow> [] | Some e \<Rightarrow> elems (IPs e)) (elems (ENIs s))
      = map (\<lambda>e. elems (IPs e)) ?es"
    using assms by (auto simp: enis_ok_def)
  then have pool: "pool s = concat (map (\<lambda>p. case p of None \<Rightarrow> [] | Some e \<Rightarrow> elems (IPs e)) (elems (ENIs s)))"
    by (simp only: pool_def live option.case pool_ips_concat eq)
  show thesis
  proof (rule that [OF live])
    show "pool s = pool_ips ?es" by (simp add: pool_def live)
    show "\<And>e. e \<in> set ?es \<Longrightarrow> CIDRBlock e \<noteq> None" using assms by (auto simp: enis_ok_def)
    show "distinct (map ip_string (pool s))" using assms by (simp only: pool enis_ok_def)
    show "\<And>ip. ip \<in> set (pool s) \<Longrightarrow> is_v4 ip"
      using assms by (fastforce simp: pool enis_ok_def)
  qed
qed

lemma FreeAddressCount_ok:
  assumes "enis_ok (ENIs s)"
  shows "FreeAddressCount (s, w) = Some (Ok (int (length (free_ips s))), (s, w))"
proof -
  have "foldl (\<lambda>n ip. if \<not> p ip then n + 1 else n) k ips = k + int (length (filter (\<lambda>ip. \<not> p ip) ips))"
    for p :: "net_ip \<Rightarrow> bool" and k ips
    by (induction ips arbitrary: k) auto
  moreover obtain es where "live_enis s = Some es" "pool s = pool_ips es"
    using live_enis_ok [OF assms] by metis
  ultimately show ?thesis by (simp add: FreeAddressCount_def free_ips_def)
qed

section \<open>Choosing an address\<close>

lemma mset_shuffle_from [simp]: "mset (shuffle_from freed i ips) = mset ips"
proof (induction freed i ips rule: shuffle_from.induct)
  case (1 freed i ips)
  have "mset (drop (i + 1) ips @ take (i + 1) ips) = mset ips"
    by (metis append_take_drop_id mset_append union_commute)
  with 1 show ?case by (subst shuffle_from.simps) simp
qed

lemma mset_walk_order [simp]: "mset (walk_order s ips) = mset ips"
  by (simp add: walk_order_def)

lemma set_walk_order [simp]: "set (walk_order s ips) = set ips"
  by (metis mset_walk_order set_mset_mset)

text \<open>The walk ends with the last free address of its order, or with nil.\<close>

lemma reserve_last:
  "reserve s ips = (case last_such (\<lambda>ip. \<not> allocated s ip) (walk_order s ips) of None \<Rightarrow> nil_ip | Some ip \<Rightarrow> ip)"
proof -
  have "foldl (\<lambda>reserved ip. if p ip then reserved else ip) nil_ip xs =
      (case last_such (\<lambda>ip. \<not> p ip) xs of None \<Rightarrow> nil_ip | Some ip \<Rightarrow> ip)" for p :: "net_ip \<Rightarrow> bool" and xs
    by (induction xs rule: rev_induct) auto
  then show ?thesis by (simp add: reserve_def)
qed

lemma reserve_free:
  assumes "\<exists>ip \<in> set ips. \<not> allocated s ip"
  shows "reserve s ips \<in> set ips \<and> \<not> allocated s (reserve s ips)"
proof -
  obtain ip where "last_such (\<lambda>ip. \<not> allocated s ip) (walk_order s ips) = Some ip"
    using assms by (metis last_such_None not_None_eq set_walk_order)
  with last_such_Some [OF this] show ?thesis by (simp add: reserve_last)
qed

lemma reserve_full: "\<forall>ip \<in> set ips. allocated s ip \<Longrightarrow> reserve s ips = nil_ip"
  using last_such_None [of "\<lambda>ip. \<not> allocated s ip" "walk_order s ips"] by (simp add: reserve_last)

lemma find_eni_last:
  "find_eni es ip = last_such (\<lambda>e. \<exists>x \<in> set (elems (IPs e)). ip_equal x ip) es"
proof -
  have inner: "foldl (\<lambda>found x. if p x then Some e else found) f xs = (if \<exists>x \<in> set xs. p x then Some e else f)"
    for p :: "net_ip \<Rightarrow> bool" and e :: eni and f xs
    by (induction xs arbitrary: f) auto
  show ?thesis by (simp only: find_eni_def inner last_such_def)
qed

lemma find_eni_pool:
  assumes "ip \<in> set (pool_ips es)"
  obtains e where "find_eni es ip = Some e" "e \<in> set es" "\<exists>x \<in> set (elems (IPs e)). ip_equal x ip"
proof -
  obtain e where "e \<in> set es" "ip \<in> set (elems (IPs e))"
    using assms by (auto simp: pool_ips_concat)
  then have some: "\<exists>e \<in> set es. \<exists>x \<in> set (elems (IPs e)). ip_equal x ip"
    by (intro bexI [of _ e] bexI [of _ ip]) simp_all
  show thesis
  proof (cases "find_eni es ip")
    case None
    with some show thesis by (auto simp: find_eni_last last_such_None)
  next
    case (Some e')
    with last_such_Some [of _ es e'] show thesis by (intro that) (auto simp: find_eni_last)
  qed
qed

section \<open>What the operations do to the state\<close>

definition add_allocation :: "alloc_state \<Rightarrow> allocation \<Rightarrow> alloc_state" where
  "add_allocation s a = s\<lparr>Allocations := Allocations s @ [(ip_string (AllocIP a), a)]\<rparr>"

definition drop_allocation :: "alloc_state \<Rightarrow> string \<Rightarrow> alloc_state" where
  "drop_allocation s k = s\<lparr>Allocations := AList.delete k (Allocations s), LastFreedIP := parse_ip k\<rparr>"

lemma alloc_ok_state: "alloc_ok s \<Longrightarrow> keys_ok s" "alloc_ok s \<Longrightarrow> enis_ok (ENIs s)"
  by (simp_all add: alloc_ok_def)

lemma pool_same: "ENIs s' = ENIs s \<Longrightarrow> pool s' = pool s"
  by (simp add: pool_def live_enis_def)

lemma pool_updates [simp]:
  "pool (add_allocation s a) = pool s" "pool (drop_allocation s k) = pool s"
  by (rule pool_same; simp add: add_allocation_def drop_allocation_def)+

lemma owners_None: "owners s k = None \<longleftrightarrow> map_of (Allocations s) k = None"
  by (simp add: owners_def)

lemma allocated_owners: "allocated s ip \<longleftrightarrow> owners s (ip_string ip) \<noteq> None"
  by (simp add: allocated_def owners_def)

lemma owners_add:
  "\<not> allocated s (AllocIP a) \<Longrightarrow>
     owners (add_allocation s a) = (owners s)(ip_string (AllocIP a) \<mapsto> ContainerID a)"
proof (rule ext)
  fix l
  assume "\<not> allocated s (AllocIP a)"
  then show "owners (add_allocation s a) l = ((owners s)(ip_string (AllocIP a) \<mapsto> ContainerID a)) l"
    by (cases "map_of (Allocations s) l") (auto simp: owners_def add_allocation_def allocated_def map_add_def)
qed

lemma owners_drop: "owners (drop_allocation s k) = (owners s)(k := None)"
  by (auto simp: owners_def drop_allocation_def delete_conv')

lemma alloc_ok_add:
  assumes "alloc_ok s" "\<not> allocated s (AllocIP a)" "is_v4 (AllocIP a)"
  shows "alloc_ok (add_allocation s a)"
proof -
  have "ip_string (AllocIP a) \<notin> set (map fst (Allocations s))"
    using assms(2) by (simp add: allocated_def map_of_eq_None_iff)
  then show ?thesis using assms(1,3) by (auto simp: alloc_ok_def keys_ok_def add_allocation_def)
qed

lemma alloc_ok_drop: "alloc_ok s \<Longrightarrow> alloc_ok (drop_allocation s k)"
  unfolding alloc_ok_def keys_ok_def drop_allocation_def
  by (simp add: distinct_delete) (auto simp: AList.delete_eq)

text \<open>The addresses that are free before and after.\<close>

lemma free_ips_owners: "free_ips s = filter (\<lambda>ip. owners s (ip_string ip) = None) (pool s)"
  by (simp add: free_ips_def allocated_owners)

lemma remove_one_key:
  assumes "distinct (map f xs)" "x \<in> set xs" "P (f x)"
  shows "length (filter (\<lambda>y. P (f y)) xs) = Suc (length (filter (\<lambda>y. f y \<noteq> f x \<and> P (f y)) xs))"
  using assms
proof (induction xs)
  case (Cons y ys)
  show ?case
  proof (cases "f y = f x")
    case True
    then have "\<forall>z \<in> set ys. f z \<noteq> f x" using Cons.prems(1) by (metis distinct.simps(2) image_eqI list.map(2) list.set_map)
    with True Cons.prems(3) show ?thesis by (simp cong: filter_cong)
  next
    case False
    with Cons show ?thesis by auto
  qed
qed simp

lemma free_ips_add:
  assumes "alloc_ok s" "AllocIP a \<in> set (free_ips s)"
  shows "length (free_ips s) = Suc (length (free_ips (add_allocation s a)))"
proof -
  have d: "distinct (map ip_string (pool s))"
    using live_enis_ok [OF alloc_ok_state(2) [OF assms(1)]] by metis
  have free: "AllocIP a \<in> set (pool s)" "owners s (ip_string (AllocIP a)) = None" "\<not> allocated s (AllocIP a)"
    using assms(2) by (simp_all add: free_ips_def allocated_owners)
  have "free_ips (add_allocation s a)
      = filter (\<lambda>ip. ip_string ip \<noteq> ip_string (AllocIP a) \<and> owners s (ip_string ip) = None) (pool s)"
    using free(3) by (auto simp: free_ips_owners owners_add intro!: filter_cong)
  then show ?thesis
    using remove_one_key [where f = ip_string and P = "\<lambda>k. owners s k = None", OF d free(1,2)]
    by (simp add: free_ips_owners)
qed

lemma free_ips_drop:
  assumes "alloc_ok s"
  shows "length (free_ips s) \<le> length (free_ips (drop_allocation s k))"
    and "length (free_ips (drop_allocation s k)) \<le> Suc (length (free_ips s))"
proof -
  have d: "distinct (map ip_string (pool s))"
    using live_enis_ok [OF alloc_ok_state(2) [OF assms]] by metis
  let ?free = "filter (\<lambda>ip. owners s (ip_string ip) = None) (pool s)"
  have after: "free_ips (drop_allocation s k)
      = filter (\<lambda>ip. ip_string ip = k \<or> owners s (ip_string ip) = None) (pool s)"
    by (auto simp: free_ips_owners owners_drop intro!: filter_cong)
  have le: "length (filter P xs) \<le> length (filter Q xs)" if "\<And>x. P x \<Longrightarrow> Q x" for P Q and xs :: "net_ip list"
    using that by (induction xs) (auto simp: le_Suc_eq)
  show "length (free_ips s) \<le> length (free_ips (drop_allocation s k))"
    unfolding after unfolding free_ips_owners by (rule le) simp
  show "length (free_ips (drop_allocation s k)) \<le> Suc (length (free_ips s))"
  proof (cases "\<exists>ip \<in> set (pool s). ip_string ip = k")
    case True
    then obtain ip where "ip \<in> set (pool s)" "ip_string ip = k" by blast
    then have "length (free_ips (drop_allocation s k))
        = Suc (length (filter (\<lambda>y. ip_string y \<noteq> k \<and> (ip_string y = k \<or> owners s (ip_string y) = None)) (pool s)))"
      using remove_one_key [where f = ip_string and P = "\<lambda>l. l = k \<or> owners s l = None", OF d, of ip]
      by (simp add: after)
    moreover have "length (filter (\<lambda>y. ip_string y \<noteq> k \<and> (ip_string y = k \<or> owners s (ip_string y) = None)) (pool s))
        \<le> length (free_ips s)" unfolding free_ips_owners by (rule le) blast
    ultimately show ?thesis by simp
  next
    case False
    then have "free_ips (drop_allocation s k) = free_ips s"
      unfolding after unfolding free_ips_owners by (intro filter_cong) auto
    then show ?thesis by simp
  qed
qed

subsection \<open>Allocate\<close>

text \<open>The \<open>Write\<close> at the end of an operation leaves the state in memory as it is.\<close>

lemma write_state_fst: "write_state fs w = Some (r, w') \<Longrightarrow> fst w' = fst w"
  unfolding write_state_def wrapping_def
  by (elim andthen_cases attempt_cases)
    (auto simp: on_snd_def split: sum.splits)

lemma write_state_not_full: "write_state fs w \<noteq> Some (Fail ErrNoFreeIPs, w')"
  unfolding write_state_def wrapping_def andthen_def attempt_def
  by (auto split: option.splits outcome.splits)

lemma allocate_locked_free:
  assumes ok: "alloc_ok s" and free: "free_ips s \<noteq> []"
  obtains a e where
    "allocate_locked fs cid name ns (s, w) = andthen (write_state fs) (\<lambda>_. ret a) (add_allocation s a, w)"
    "ContainerID a = cid" "PodName a = name" "PodNamespace a = ns"
    "AllocIP a = reserve s (pool s)" "AllocIP a \<in> set (free_ips s)" "is_v4 (AllocIP a)"
    "Some e \<in> set (elems (ENIs s))" "\<exists>x \<in> set (elems (IPs e)). ip_equal x (AllocIP a)"
    "ENIIP a = InterfaceIP e" "CIDRBlock e = Some (ENISubnet a)"
proof -
  obtain es where es: "live_enis s = Some es" "pool s = pool_ips es" "\<And>e. e \<in> set es \<Longrightarrow> CIDRBlock e \<noteq> None"
    "\<And>ip. ip \<in> set (pool s) \<Longrightarrow> is_v4 ip"
    using live_enis_ok [OF alloc_ok_state(2) [OF ok]] by metis
  let ?ip = "reserve s (pool s)"
  have ip: "?ip \<in> set (pool s)" "\<not> allocated s ?ip"
    using reserve_free [of "pool s" s] free by (auto simp: free_ips_def filter_empty_conv)
  then have v4: "is_v4 ?ip" "?ip \<noteq> nil_ip" using es(4) not_v4_nil by metis+
  obtain e where e: "find_eni es ?ip = Some e" "e \<in> set es" "\<exists>x \<in> set (elems (IPs e)). ip_equal x ?ip"
    using find_eni_pool [of ?ip es] ip(1) es(2) by metis
  obtain n where n: "CIDRBlock e = Some n" using es(3) [OF e(2)] by blast
  define a where "a = \<lparr>ContainerID = cid, PodName = name, PodNamespace = ns, AllocIP = ?ip,
    ENIIP = InterfaceIP e, ENISubnet = n\<rparr>"
  have new: "ip_string ?ip \<notin> set (map fst (Allocations s))"
    using ip(2) by (simp add: allocated_def map_of_eq_None_iff)
  have mem: "Some e \<in> set (elems (ENIs s))"
    using those_map_Some [of "elems (ENIs s)" es] es(1) e(2) by (simp add: live_enis_def)
  have "allocate_locked fs cid name ns (s, w) = andthen (write_state fs) (\<lambda>_. ret a) (add_allocation s a, w)"
    using ip(1) v4 e(1) n new es(1,2)
    by (auto simp: allocate_locked_def Let_def a_def add_allocation_def update_new)
  then show thesis
    by (rule that [of a e]) (use ip v4 e(3) n mem in \<open>simp_all add: a_def free_ips_def\<close>)
qed

lemma count_free_ok:
  assumes "alloc_ok s"
  shows "count_free (s, w) = Some (if free_ips s = [] then Fail ErrNoFreeIPs else Ok (), (s, w))"
  by (cases "free_ips s") (simp_all add: count_free_def FreeAddressCount_ok [OF alloc_ok_state(2) [OF assms]])

lemma Allocate_free:
  assumes "alloc_ok s" "free_ips s \<noteq> []"
  shows "Allocate fs cid name ns (s, w) = allocate_locked fs cid name ns (s, w)"
  by (simp add: Allocate_def count_free_ok [OF assms(1)] assms(2))

lemma Allocate_full:
  assumes "alloc_ok s" "free_ips s = []"
  shows "Allocate fs cid name ns (s, w) = Some (Fail ErrNoFreeIPs, (s, w))"
  by (simp add: Allocate_def count_free_ok [OF assms(1)] assms(2))

lemma Allocate_result:
  assumes ok: "alloc_ok s" and run: "Allocate fs cid name ns (s, w) = Some (r, w')"
  obtains (full) "free_ips s = []" "r = Fail ErrNoFreeIPs" "w' = (s, w)"
    | (free) a e where "AllocIP a \<in> set (free_ips s)" "is_v4 (AllocIP a)" "ContainerID a = cid"
      "AllocIP a = reserve s (pool s)"
      "Some e \<in> set (elems (ENIs s))" "\<exists>x \<in> set (elems (IPs e)). ip_equal x (AllocIP a)"
      "ENIIP a = InterfaceIP e" "CIDRBlock e = Some (ENISubnet a)"
      "fst w' = add_allocation s a" "\<And>b. r = Ok b \<Longrightarrow> b = a" "r \<noteq> Fail ErrNoFreeIPs"
proof (cases "free_ips s = []")
  case True
  with Allocate_full [OF ok True, of fs cid name ns w] run full show thesis by simp
next
  case False
  from allocate_locked_free [OF ok False, of fs cid name ns w]
  obtain a e where a: "allocate_locked fs cid name ns (s, w) = andthen (write_state fs) (\<lambda>_. ret a) (add_allocation s a, w)"
    "ContainerID a = cid" "AllocIP a = reserve s (pool s)" "AllocIP a \<in> set (free_ips s)" "is_v4 (AllocIP a)"
    "Some e \<in> set (elems (ENIs s))" "\<exists>x \<in> set (elems (IPs e)). ip_equal x (AllocIP a)"
    "ENIIP a = InterfaceIP e" "CIDRBlock e = Some (ENISubnet a)" by metis
  have step: "andthen (write_state fs) (\<lambda>_. ret a) (add_allocation s a, w) = Some (r, w')"
    using run a(1) Allocate_free [OF ok False] by metis
  then have state: "fst w' = add_allocation s a"
    by (cases rule: andthen_cases) (auto dest: write_state_fst)
  have "r \<noteq> Fail ErrNoFreeIPs"
    using step by (cases rule: andthen_cases) (auto simp: write_state_not_full)
  moreover have "b = a" if "r = Ok b" for b
    using step that by (cases rule: andthen_cases) auto
  ultimately show thesis using free a state by blast
qed

subsection \<open>ReleaseByContainer\<close>

lemma release_key:
  "foldl (\<lambda>relip (ip, a). if ContainerID a = cid then ip else relip) [] ps =
     (case last_such (\<lambda>p. ContainerID (snd p) = cid) ps of None \<Rightarrow> [] | Some p \<Rightarrow> fst p)"
  by (induction ps rule: rev_induct) (auto simp: case_prod_beta)

lemma ran_owners: "distinct (map fst (Allocations s)) \<Longrightarrow> cid \<in> ran (owners s) \<longleftrightarrow> (\<exists>p \<in> set (Allocations s). ContainerID (snd p) = cid)"
  by (force simp: ran_def owners_def map_of_eq_Some_iff)

lemma Release_state:
  assumes ok: "alloc_ok s"
  obtains (none) "cid \<notin> ran (owners s)" "ReleaseByContainer rank fs cid (s, w) = write_state fs (s, w)"
    | (one) k where "owners s k = Some cid"
      "ReleaseByContainer rank fs cid (s, w) = write_state fs (drop_allocation s k, w)"
proof -
  let ?ps = "sort_key (\<lambda>p. rank (fst p)) (Allocations s)"
  have d: "distinct (map fst (Allocations s))" using ok by (simp add: alloc_ok_def keys_ok_def)
  show thesis
  proof (cases "last_such (\<lambda>p. ContainerID (snd p) = cid) ?ps")
    case None
    then have "cid \<notin> ran (owners s)" by (simp add: ran_owners [OF d] last_such_None)
    moreover have "ReleaseByContainer rank fs cid (s, w) = write_state fs (s, w)"
      by (simp add: ReleaseByContainer_def release_key None)
    ultimately show thesis by (rule none)
  next
    case (Some p)
    then have p: "p \<in> set (Allocations s)" "ContainerID (snd p) = cid"
      using last_such_Some [OF Some] by simp_all
    then have "owners s (fst p) = Some cid"
      using d by (simp add: owners_def map_of_eq_Some_iff) (metis prod.collapse)
    moreover have "fst p \<noteq> []"
      using p(1) ok by (auto simp: alloc_ok_def keys_ok_def)
    then have "ReleaseByContainer rank fs cid (s, w) = write_state fs (drop_allocation s (fst p), w)"
      by (simp add: ReleaseByContainer_def release_key Some drop_allocation_def Let_def)
    ultimately show thesis by (rule one)
  qed
qed

lemma Release_result:
  assumes "alloc_ok s" "ReleaseByContainer rank fs cid (s, w) = Some (r, w')"
  obtains (none) "cid \<notin> ran (owners s)" "fst w' = s"
    | (one) k where "owners s k = Some cid" "fst w' = drop_allocation s k"
  using Release_state [OF assms(1), of cid rank fs w] assms(2) write_state_fst by (metis fst_conv)

subsection \<open>The allocator is an address pool\<close>

definition world_ok :: "alloc_state \<times> 'o \<Rightarrow> bool" where
  "world_ok w \<longleftrightarrow> alloc_ok (fst w)"

definition world_free :: "alloc_state \<times> 'o \<Rightarrow> nat" where
  "world_free w = length (free_ips (fst w))"

definition world_owner :: "alloc_state \<times> 'o \<Rightarrow> string \<rightharpoonup> string" where
  "world_owner w = owners (fst w)"

lemmas world_defs = world_ok_def world_free_def world_owner_def

interpretation pool_count: address_counter FreeAddressCount world_ok world_free
  by unfold_locales (auto simp: world_defs FreeAddressCount_ok alloc_ok_state)

interpretation alloc_pool: address_pool FreeAddressCount world_ok world_free "Allocate fs"
    "ReleaseByContainer rank fs" world_owner
  for fs :: "'o file_ops" and rank :: "string \<Rightarrow> nat"
proof
  fix cid name ns :: string
  show "keeps world_ok (Allocate fs cid name ns)"
  proof (rule keepsI)
    fix w r w' assume "world_ok w" and run: "Allocate fs cid name ns w = Some (r, w')"
    then have ok: "alloc_ok (fst w)" by (simp add: world_ok_def)
    from run have run': "Allocate fs cid name ns (fst w, snd w) = Some (r, w')" by simp
    show "world_ok w'"
      by (cases rule: Allocate_result [OF ok run'])
        (use ok in \<open>auto simp: world_ok_def free_ips_def alloc_ok_add\<close>)
  qed
next
  fix cid :: string
  show "keeps world_ok (ReleaseByContainer rank fs cid)"
  proof (rule keepsI)
    fix w r w' assume "world_ok w" and run: "ReleaseByContainer rank fs cid w = Some (r, w')"
    then have ok: "alloc_ok (fst w)" by (simp add: world_ok_def)
    from run have run': "ReleaseByContainer rank fs cid (fst w, snd w) = Some (r, w')" by simp
    show "world_ok w'"
      by (cases rule: Release_result [OF ok run']) (use ok in \<open>auto simp: world_ok_def alloc_ok_drop\<close>)
  qed
next
  fix w w' :: "alloc_state \<times> 'o" and cid name ns :: string and a
  assume "world_ok w" and run: "Allocate fs cid name ns w = Some (Ok a, w')"
  then have ok: "alloc_ok (fst w)" by (simp add: world_ok_def)
  from run have run': "Allocate fs cid name ns (fst w, snd w) = Some (Ok a, w')" by simp
  show "is_v4 (AllocIP a) \<and> world_owner w (ip_string (AllocIP a)) = None \<and>
      world_owner w' = (world_owner w)(ip_string (AllocIP a) \<mapsto> cid) \<and> world_free w = Suc (world_free w')"
  proof (cases rule: Allocate_result [OF ok run'])
    case (2 b e)
    then have "b = a" by simp
    moreover have "owners (fst w) (ip_string (AllocIP b)) = None" "\<not> allocated (fst w) (AllocIP b)"
      using 2(1) by (simp_all add: free_ips_def allocated_owners)
    moreover note free_ips_add [OF ok 2(1)]
    ultimately show ?thesis using 2(2,3,9) by (simp add: world_defs owners_add)
  qed simp
next
  fix w w' :: "alloc_state \<times> 'o" and cid name ns :: string and r
  assume "world_ok w" and run: "Allocate fs cid name ns w = Some (r, w')"
  then have ok: "alloc_ok (fst w)" by (simp add: world_ok_def)
  from run have run': "Allocate fs cid name ns (fst w, snd w) = Some (r, w')" by simp
  show "world_owner w' = world_owner w \<or>
      (\<exists>k. world_owner w k = None \<and> world_owner w' = (world_owner w)(k \<mapsto> cid))"
  proof (cases rule: Allocate_result [OF ok run'])
    case (2 b e)
    then have "\<not> allocated (fst w) (AllocIP b)" by (simp add: free_ips_def)
    with 2 show ?thesis by (auto simp: world_owner_def owners_add allocated_owners)
  qed (simp add: world_owner_def)
next
  fix w :: "alloc_state \<times> 'o" and cid name ns :: string
  assume "world_ok w" "world_free w = 0"
  then show "Allocate fs cid name ns w = Some (Fail ErrNoFreeIPs, w)"
    using Allocate_full [of "fst w" fs cid name ns "snd w"] by (simp add: world_defs)
next
  fix w w' :: "alloc_state \<times> 'o" and cid name ns :: string
  assume w: "world_ok w" "0 < world_free w"
  show "Allocate fs cid name ns w \<noteq> Some (Fail ErrNoFreeIPs, w')"
  proof
    assume "Allocate fs cid name ns w = Some (Fail ErrNoFreeIPs, w')"
    then have run: "Allocate fs cid name ns (fst w, snd w) = Some (Fail ErrNoFreeIPs, w')" by simp
    from w have "alloc_ok (fst w)" by (simp add: world_ok_def)
    then show False by (cases rule: Allocate_result [OF _ run]) (use w in \<open>auto simp: world_defs\<close>)
  qed
next
  fix w w' :: "alloc_state \<times> 'o" and cid :: string and r
  assume "world_ok w" and run: "ReleaseByContainer rank fs cid w = Some (r, w')"
  then have ok: "alloc_ok (fst w)" by (simp add: world_ok_def)
  from run have run': "ReleaseByContainer rank fs cid (fst w, snd w) = Some (r, w')" by simp
  show "if cid \<in> ran (world_owner w)
      then \<exists>k. world_owner w k = Some cid \<and> world_owner w' = (world_owner w)(k := None)
      else world_owner w' = world_owner w"
    by (cases rule: Release_result [OF ok run']) (auto simp: world_defs owners_drop ranI)
  show "world_free w \<le> world_free w' \<and> world_free w' \<le> Suc (world_free w)"
    by (cases rule: Release_result [OF ok run']) (use ok in \<open>auto simp: world_defs free_ips_drop\<close>)
qed

end
