(* ===== verification/Cni_Config.thy ===== *)
theory Cni_Config
  imports Node_State Host_Files
begin

text \<open>
  pkg/cni/config/config.go: the CNI configuration that the daemon writes and its plugin gets
  back on standard input. The interpretation \<open>cni_json\<close> proves that the plugin reads what the
  daemon wrote. The vendored library's \<open>version.Current()\<close> is \<open>current_version\<close>.
\<close>

definition CNIName :: string where "CNIName = ''vpcnet''"
definition CNIConfigPath :: string where "CNIConfigPath = ''/etc/cni/net.d/10-vpcnet.conf''"
definition current_version :: string where "current_version = ''0.3.1''"

record cni_ipam =
  ipam_Type :: string
  IPAMSocketPath :: string
  LogVerbosity :: int

record cni_net =
  cni_Name :: string
  CNIVersion :: string
  cni_Type :: string
  cni_IPAM :: "cni_ipam option"

definition zero_ipam :: cni_ipam where
  "zero_ipam = \<lparr>ipam_Type = [], IPAMSocketPath = [], LogVerbosity = 0\<rparr>"

definition zero_cni_net :: cni_net where
  "zero_cni_net = \<lparr>cni_Name = [], CNIVersion = [], cni_Type = [], cni_IPAM = None\<rparr>"

section \<open>JSON\<close>

definition ipam_field :: "string \<Rightarrow> json \<Rightarrow> cni_ipam \<Rightarrow> error + cni_ipam" where
  "ipam_field f v i =
     (if f = ''type'' then sum_bind (dec_string v (ipam_Type i)) (\<lambda>x. Inr (i\<lparr>ipam_Type := x\<rparr>))
      else if f = ''ipam_socket'' then sum_bind (dec_string v (IPAMSocketPath i)) (\<lambda>x. Inr (i\<lparr>IPAMSocketPath := x\<rparr>))
      else sum_bind (dec_int v (LogVerbosity i)) (\<lambda>x. Inr (i\<lparr>LogVerbosity := x\<rparr>)))"

definition dec_ipam :: "cni_ipam option \<Rightarrow> json \<Rightarrow> error + cni_ipam option" where
  "dec_ipam old = dec_ptr (dec_struct [''type'', ''ipam_socket'', ''log_verbosity''] ipam_field
     (case old of None \<Rightarrow> zero_ipam | Some i \<Rightarrow> i))"

definition cni_field :: "string \<Rightarrow> json \<Rightarrow> cni_net \<Rightarrow> error + cni_net" where
  "cni_field f v n =
     (if f = ''name'' then sum_bind (dec_string v (cni_Name n)) (\<lambda>x. Inr (n\<lparr>cni_Name := x\<rparr>))
      else if f = ''cniVersion'' then sum_bind (dec_string v (CNIVersion n)) (\<lambda>x. Inr (n\<lparr>CNIVersion := x\<rparr>))
      else if f = ''type'' then sum_bind (dec_string v (cni_Type n)) (\<lambda>x. Inr (n\<lparr>cni_Type := x\<rparr>))
      else sum_bind (dec_ipam (cni_IPAM n) v) (\<lambda>x. Inr (n\<lparr>cni_IPAM := x\<rparr>)))"

definition dec_cni_net :: "json \<Rightarrow> error + cni_net" where
  "dec_cni_net = dec_struct [''name'', ''cniVersion'', ''type'', ''ipam''] cni_field zero_cni_net"

definition enc_ipam :: "cni_ipam option \<Rightarrow> json" where
  "enc_ipam p = (case p of
      None \<Rightarrow> JNull
    | Some i \<Rightarrow> JObj [(''type'', JStr (ipam_Type i)), (''ipam_socket'', JStr (IPAMSocketPath i)),
        (''log_verbosity'', JNum (itoa (LogVerbosity i)))])"

definition enc_cni_net :: "cni_net \<Rightarrow> error + json" where
  "enc_cni_net n = Inr (JObj [(''name'', JStr (cni_Name n)), (''cniVersion'', JStr (CNIVersion n)),
     (''type'', JStr (cni_Type n)), (''ipam'', enc_ipam (cni_IPAM n))])"

definition sendable_cni :: "cni_net \<Rightarrow> bool" where
  "sendable_cni n \<longleftrightarrow> pred_option (\<lambda>i. int64 (LogVerbosity i)) (cni_IPAM n)"

interpretation cni_json: json_codec enc_cni_net dec_cni_net sendable_cni "\<lambda>n. n"
proof
  fix n assume ok: "sendable_cni n"
  have ipam: "dec_ipam None (enc_ipam p) = Inr p \<and> json_ok (enc_ipam p)"
    if "pred_option (\<lambda>i. int64 (LogVerbosity i)) p" for p
    using that by (cases p)
      (simp_all add: dec_ipam_def enc_ipam_def dec_ptr_def ipam_field_def zero_ipam_def int64_def
        parse_int64_itoa)
  show "\<exists>v. enc_cni_net n = Inr v \<and> json_ok v \<and> dec_cni_net v = Inr n"
    using ok ipam [of "cni_IPAM n"]
    by (simp add: enc_cni_net_def dec_cni_net_def cni_field_def zero_cni_net_def sendable_cni_def)
qed simp_all

section \<open>Writing the configuration\<close>

text \<open>The daemon's configuration, for the CNI plugin with its socket at \<open>ipamPath\<close>.\<close>

definition cni_config :: "logging \<Rightarrow> string \<Rightarrow> cni_net" where
  "cni_config l ipamPath =
     \<lparr>cni_Name = CNIName, CNIVersion = current_version, cni_Type = ''ptp'',
      cni_IPAM = Some \<lparr>ipam_Type = ''vpcnet'', IPAMSocketPath = ipamPath, LogVerbosity = CNIVLevel l\<rparr>\<rparr>"

definition WriteCNIConfig :: "'o file_ops \<Rightarrow> config \<Rightarrow> string \<Rightarrow> ('o, unit) io" where
  "WriteCNIConfig fs c ipamPath =
     andthen (wrapping (\<lambda>e. Wrapf e ''Error creating /etc/cni/net.d'' []) (os_MkdirAll fs ''/etc/cni/net.d'')) (\<lambda>_.
     andthen (deref (Logging c)) (\<lambda>l.
     andthen (wrapping (\<lambda>e. Wrapf e ''Error marshaling CNI JSON'' [])
       (of_sum (json_marshal enc_cni_net (cni_config l ipamPath)))) (\<lambda>cniJSON.
     wrapping (\<lambda>e. Wrapf e ''Error writing CNI configuration JSON'' [])
       (os_WriteFile fs CNIConfigPath cniJSON))))"

end
