(* ===== verification/Cni_Install.thy ===== *)
theory Cni_Install
  imports Cni_Config
begin

text \<open>
  cmd/vpcnet-daemon/cniinstall/install.go: the daemon copies its plugins to the host and
  writes the CNI configuration, the sign for the kubelet that the node is ready. An open file
  is named by its path, so \<open>tmp.Name()\<close> is the open file itself; closing the source, which the
  code defers, has no error that it looks at.
\<close>

record installer =
  inst_IPAMSocketPath :: string
  inst_Config :: config

definition Configured :: "'o file_ops \<Rightarrow> ('o, bool) io" where
  "Configured fs =
     andthen (attempt (os_Stat fs CNIConfigPath)) (\<lambda>r.
       case r of
         Inl err \<Rightarrow> if is_not_exist err then ret False
           else throw (Wrapf err ''Error checking CNI config path'' [])
       | Inr _ \<Rightarrow> ret True)"

text \<open>\<open>os.Remove(tmp); return err\<close> when a step on the temporary file fails.\<close>

definition or_remove :: "'o file_ops \<Rightarrow> string \<Rightarrow> ('o, unit) io \<Rightarrow> ('o, unit) io" where
  "or_remove fs tmp m =
     andthen (attempt m) (\<lambda>r.
       case r of
         Inl err \<Rightarrow> andthen (ignoring (os_Remove fs tmp)) (\<lambda>_. throw err)
       | Inr _ \<Rightarrow> ret ())"

definition copy_contents :: "'o file_ops \<Rightarrow> string \<Rightarrow> string \<Rightarrow> ('o, unit) io" where
  "copy_contents fs tmp src =
     andthen (attempt (os_Copy fs tmp src)) (\<lambda>r.
       case r of
         Inl err \<Rightarrow> andthen (ignoring (os_Close fs tmp)) (\<lambda>_. throw err)
       | Inr _ \<Rightarrow> ret ())"

definition copyFile :: "'o file_ops \<Rightarrow> string \<Rightarrow> string \<Rightarrow> ('o, unit) io" where
  "copyFile fs dst src =
     andthen (os_Open fs src) (\<lambda>_.
     andthen (attempt
       (andthen (os_TempFile fs (filepath_dir dst)) (\<lambda>tmp.
        andthen (or_remove fs tmp (copy_contents fs tmp src)) (\<lambda>_.
        andthen (or_remove fs tmp (os_Close fs tmp)) (\<lambda>_.
        andthen (or_remove fs tmp (os_Chmod fs tmp)) (\<lambda>_.
        os_Rename fs tmp dst)))))) (\<lambda>r.
     andthen (ignoring (os_Close fs src)) (\<lambda>_. of_sum r)))"

definition plugins :: "string list" where
  "plugins = [''vpcnet'', ''loopback'', ''ptp'']"

definition Install :: "'o file_ops \<Rightarrow> installer \<Rightarrow> ('o, unit) io" where
  "Install fs c =
     andthen (wrapping (\<lambda>e. Wrapf e ''Error creating /opt/cni/bin/'' []) (os_MkdirAll fs ''/opt/cni/bin'')) (\<lambda>_.
     andthen (each (\<lambda>f. wrapping (\<lambda>e. Wrapf e (''Error copying CNI bin '' @ f) [])
         (copyFile fs (''/opt/cni/bin/'' @ f) (''/cni/'' @ f))) plugins) (\<lambda>_.
     wrapping (\<lambda>e. Wrapf e ''Error writing CNI configuration.'' [])
       (WriteCNIConfig fs (inst_Config c) (inst_IPAMSocketPath c))))"

end
