(* ===== verification/Daemon_Node.thy ===== *)
theory Daemon_Node
  imports If_Controller Working_Host Allocator Cni_Install
begin

text \<open>
  The daemon's interface controller on the models of its interfaces: the interface manager
  (through \<open>interface_manager\<close>), the allocator and the installer. The world is the allocator's
  state and the host.
\<close>

section \<open>Nothing is taken away\<close>

text \<open>
  How the interface manager's calls change the tables, whatever their outcome: names of
  interfaces may be added from \<open>new\<close>, rules only added.
\<close>

definition grown :: "string set \<Rightarrow> tables \<Rightarrow> tables \<Rightarrow> bool" where
  "grown new t t' \<longleftrightarrow> link_Name ` set (t_links t') \<subseteq> new \<union> link_Name ` set (t_links t) \<and>
     set (t_rules t) \<subseteq> set (t_rules t') \<and>
     (\<forall>c rs. nat_rules t c = Some rs \<longrightarrow> (\<exists>late. nat_rules t' c = Some (rs @ late)))"

lemma grown_refl: "reflp (grown new)"
  by (auto simp: reflp_def grown_def)

lemma grown_trans: "transp (grown new)"
proof (rule transpI)
  fix x y z assume a: "grown new x y" and b: "grown new y z"
  have "\<exists>late. nat_rules z c = Some (rs @ late)" if c: "nat_rules x c = Some rs" for c rs
  proof -
    obtain l1 where "nat_rules y c = Some (rs @ l1)" using a c unfolding grown_def by blast
    then obtain l2 where "nat_rules z c = Some ((rs @ l1) @ l2)" using b unfolding grown_def by blast
    then show ?thesis by simp
  qed
  then show "grown new x z" using a b unfolding grown_def by blast
qed

lemma grown_steps:
  "grown {n} t (rename_link l n t)" "grown new t (add_addr l a t)" "grown new t (link_up l t)"
  "grown new t (put_route r t)" "grown new t (put_rule ru t)" "grown new t (put_name s t)"
  "grown new t (ensure_chain ''nat'' c t)"
proof -
  show "grown {n} t (rename_link l n t)" by (auto simp: grown_def rename_link_def nat_rules_def)
  show "grown new t (add_addr l a t)" "grown new t (link_up l t)" "grown new t (put_route r t)"
    "grown new t (put_rule ru t)" "grown new t (put_name s t)"
    by (auto simp: grown_def add_addr_def link_up_def put_route_def put_rule_def put_name_def nat_rules_def)
  show "grown new t (ensure_chain ''nat'' c t)"
    by (auto simp: grown_def ensure_chain_def nat_rules_def)
qed

lemma grown_rule: "grown new t (ensure_rule ''nat'' c r t)"
proof -
  have "\<exists>late. nat_rules (ensure_rule ''nat'' c r t) d = Some (rs @ late)" if "nat_rules t d = Some rs" for d rs
    using that add_missing_prefix [of rs "[r]"] by (auto simp: ensure_rule_chain)
  then show ?thesis by (auto simp: grown_def ensure_rule_def split: option.splits)
qed

lemma does_moves: "does net m f \<Longrightarrow> (\<And>t. grown new t (f t)) \<Longrightarrow> moves net (grown new) m"
  by (rule movesI) (auto simp: does_def plain_call_def grown_def split: outcome.splits)

lemmas grown_intros = moves_andthen [OF grown_trans] moves_wrapping [OF grown_refl grown_trans]
  moves_each [OF grown_refl grown_trans] moves_attempt moves_deref [OF grown_refl] moves_basic [OF grown_refl]

lemma grown_self: "grown new t t"
  using grown_refl by (simp add: reflp_def)

lemma host_calls_grow:
  assumes "host_tables h net"
  shows "moves net (grown new) (LinkList h)" "moves net (grown new) (LinkByName h n)"
    "moves net (grown {n}) (LinkSetName h l n)" "moves net (grown new) (AddrAdd h l a)"
    "moves net (grown new) (LinkSetUp h l)" "moves net (grown new) (RouteAdd h r)"
    "moves net (grown new) (RuleAdd h ru)" "moves net (grown new) (Interfaces h)"
    "moves net (grown new) (EnsureChain h ''nat'' c)" "moves net (grown new) (append_nat h c args)"
    "moves net (grown new) (host_ReadFile h rt_tables)" "moves net (grown new) (OpenAppend h rt_tables)"
    "moves net (grown new) (Fprintln h rt_tables s)"
  unfolding append_nat_def
  by (rule does_moves, rule host_tables_does [OF assms], rule grown_self grown_steps grown_rule)+

lemma ConfigureInterface_grows:
  "host_tables (mgr_host i) net \<Longrightarrow> moves net (grown {n}) (ConfigureInterface i n mac ip sn)"
  unfolding ConfigureInterface_def
  by (intro grown_intros host_calls_grow) (auto split: option.splits intro!: grown_intros host_calls_grow)

lemma ConfigureRoutes_grows:
  "host_tables (mgr_host i) net \<Longrightarrow> moves net (grown {}) (ConfigureRoutes i n idx sn ips)"
  unfolding ConfigureRoutes_def ensureTables_def add_route_def gateway_def
  by (intro grown_intros host_calls_grow)
    (auto simp: Let_def split: sum.splits intro!: grown_intros host_calls_grow)

lemma ConfigureIPMasq_grows:
  "host_tables (mgr_host i) net \<Longrightarrow> moves net (grown {}) (ConfigureIPMasq i hostIP ips)"
  unfolding ConfigureIPMasq_def
  by (intro grown_intros host_calls_grow) (auto intro!: grown_intros host_calls_grow)

section \<open>The daemon's interfaces\<close>

definition daemon_ifmgr :: "'o if_mgr \<Rightarrow> (alloc_state \<times> 'o) if_mgr_if" where
  "daemon_ifmgr i =
     \<lparr>ifm_InterfaceExists = \<lambda>n. on_snd (InterfaceExists i n),
      ifm_ConfigureInterface = \<lambda>n mac ip sn. on_snd (ConfigureInterface i n mac ip sn),
      ifm_ConfigureRoutes = \<lambda>n idx sn ips. on_snd (ConfigureRoutes i n idx sn ips),
      ifm_ConfigureIPMasq = \<lambda>hostIP ips. on_snd (ConfigureIPMasq i hostIP ips)\<rparr>"

definition daemon_installer :: "'o file_ops \<Rightarrow> installer \<Rightarrow> (alloc_state \<times> 'o) cni_installer" where
  "daemon_installer fs c = \<lparr>ci_Configured = on_snd (Configured fs), ci_Install = on_snd (Install fs c)\<rparr>"

definition NewIfController ::
  "string \<Rightarrow> net_ip \<Rightarrow> 'w if_mgr_if \<Rightarrow> (enis \<Rightarrow> ('w, unit) io) \<Rightarrow> 'w cni_installer \<Rightarrow>
     (string \<Rightarrow> ('w, node) io) \<Rightarrow> 'w if_controller" where
  "NewIfController currInstanceID hostIP ifMgr allocator installer lister =
     \<lparr>ic_instanceID = currInstanceID, ic_hostIP = hostIP, ic_ifMgr = ifMgr, ic_SetENIs = allocator,
      ic_cniInstaller = installer, ic_lister = lister\<rparr>"

definition daemon_if_controller ::
  "string \<Rightarrow> net_ip \<Rightarrow> 'o if_mgr \<Rightarrow> 'o file_ops \<Rightarrow> installer \<Rightarrow> (string \<Rightarrow> ('o, node) io) \<Rightarrow>
     (alloc_state \<times> 'o) if_controller" where
  "daemon_if_controller iid hostIP i fs inst lister =
     NewIfController iid hostIP (daemon_ifmgr i) (SetENIs fs) (daemon_installer fs inst) (\<lambda>n. on_snd (lister n))"

text \<open>The views of the locale.\<close>

definition host_ifs :: "tables \<Rightarrow> string set" where
  "host_ifs t = link_Name ` set (t_links t)"

definition pods_routed :: "tables \<Rightarrow> int \<Rightarrow> net_ip list \<Rightarrow> bool" where
  "pods_routed t idx ips \<longleftrightarrow> set (pod_rules idx ips) \<subseteq> set (t_rules t)"

definition pods_natted :: "tables \<Rightarrow> net_ip list \<Rightarrow> bool" where
  "pods_natted t ips \<longleftrightarrow> (\<forall>ip \<in> set ips. \<exists>rs. nat_rules t ''POSTROUTING'' = Some rs \<and>
     jump_args ip @ masq_comment \<in> set rs)"

lemma grown_views:
  assumes "grown new t t'"
  shows "host_ifs t' \<subseteq> new \<union> host_ifs t" "pods_routed t idx ips \<Longrightarrow> pods_routed t' idx ips"
    "pods_natted t ips \<Longrightarrow> pods_natted t' ips"
proof -
  show "host_ifs t' \<subseteq> new \<union> host_ifs t" "pods_routed t idx ips \<Longrightarrow> pods_routed t' idx ips"
    using assms by (auto simp: grown_def host_ifs_def pods_routed_def)
  assume nat: "pods_natted t ips"
  show "pods_natted t' ips"
    unfolding pods_natted_def
  proof
    fix ip assume "ip \<in> set ips"
    then obtain rs where "nat_rules t ''POSTROUTING'' = Some rs" "jump_args ip @ masq_comment \<in> set rs"
      using nat unfolding pods_natted_def by blast
    moreover from this obtain late where "nat_rules t' ''POSTROUTING'' = Some (rs @ late)"
      using assms unfolding grown_def by blast
    ultimately show "\<exists>rs. nat_rules t' ''POSTROUTING'' = Some rs \<and> jump_args ip @ masq_comment \<in> set rs"
      by (intro exI [of _ "rs @ late"]) simp
  qed
qed

lemma renamed_exists: "l \<in> set (t_links t) \<Longrightarrow> n \<in> host_ifs (link_up l (add_addr l ip (rename_link l n t)))"
proof -
  assume "l \<in> set (t_links t)"
  then have "l\<lparr>link_Name := n\<rparr> \<in> set (t_links (rename_link l n t))"
    by (force simp: rename_link_def)
  then have "link_Name (l\<lparr>link_Name := n\<rparr>) \<in> host_ifs (rename_link l n t)"
    unfolding host_ifs_def by (rule imageI)
  then show ?thesis by (simp add: host_ifs_def link_up_def add_addr_def)
qed

lemma on_snd_run:
  assumes "on_snd m w = Some (r, w')"
  shows "m (snd w) = Some (r, snd w')" "fst w' = fst w"
  using assms by (cases w; auto split: option.splits)+

lemma InterfaceExists_run:
  assumes "host_tables (mgr_host i) net" "InterfaceExists i n w = Some (r, w')"
  shows "net w' = net w" "r = Ok b \<Longrightarrow> b = (n \<in> host_ifs (net w))"
proof -
  note does = host_tables_does(8) [OF assms(1)]
  have "unchanging net (InterfaceExists i n)"
    unfolding InterfaceExists_def by (intro unchanging_intros does_unchanging [OF does])
  from unchangingD [OF this assms(2)] show "net w' = net w" .
  assume "r = Ok b"
  then obtain ns v where ns: "Interfaces (mgr_host i) w = Some (Ok ns, v)" "b = (n \<in> set ns)"
    using assms(2) by (auto simp: InterfaceExists_def andthen_eq_Ok)
  then show "b = (n \<in> host_ifs (net w))"
    using tells_Ok [OF host_tables_tells(4) [OF assms(1)] ns(1)] by (simp add: host_ifs_def image_def)
qed

interpretation daemon_ifs: interface_manager "daemon_ifmgr i" "\<lambda>_. host_tables (mgr_host i) net"
    "\<lambda>w. host_ifs (net (snd w))" "\<lambda>w. pods_routed (net (snd w))" "\<lambda>w. pods_natted (net (snd w))"
  for i :: "'o if_mgr" and net
proof
  fix w w' :: "alloc_state \<times> 'o" and r :: "bool outcome" and rc :: "unit outcome"
    and name mac ip sn hostIP and idx k :: int and pods ips
  assume tabs: "host_tables (mgr_host i) net"
  {
    assume "ifm_InterfaceExists (daemon_ifmgr i) name w = Some (r, w')"
    then have "InterfaceExists i name (snd w) = Some (r, snd w')"
      by (intro on_snd_run) (simp add: daemon_ifmgr_def)
    note run = InterfaceExists_run [OF tabs this]
    from run show "host_tables (mgr_host i) net \<and> host_ifs (net (snd w')) = host_ifs (net (snd w)) \<and>
      (pods_routed (net (snd w)) k ips \<longrightarrow> pods_routed (net (snd w')) k ips) \<and>
      (pods_natted (net (snd w)) ips \<longrightarrow> pods_natted (net (snd w')) ips) \<and>
      (\<forall>b. r = Ok b \<longrightarrow> b = (name \<in> host_ifs (net (snd w))))" using tabs by simp
  next
    assume "ifm_ConfigureInterface (daemon_ifmgr i) name mac ip sn w = Some (rc, w')"
    then have run: "ConfigureInterface i name mac ip sn (snd w) = Some (rc, snd w')"
      by (intro on_snd_run) (simp add: daemon_ifmgr_def)
    note grown = grown_views [OF movesD [OF ConfigureInterface_grows [OF tabs] run]]
    have "name \<in> host_ifs (net (snd w'))" if rc: "rc = Ok ()"
      by (rule ConfigureInterface_Ok [OF tabs run [unfolded rc]])
        (simp add: renamed_exists)
    with grown show "host_tables (mgr_host i) net \<and>
      host_ifs (net (snd w')) \<subseteq> insert name (host_ifs (net (snd w))) \<and>
      (pods_routed (net (snd w)) k ips \<longrightarrow> pods_routed (net (snd w')) k ips) \<and>
      (pods_natted (net (snd w)) ips \<longrightarrow> pods_natted (net (snd w')) ips) \<and>
      (rc = Ok () \<longrightarrow> name \<in> host_ifs (net (snd w')))" using tabs by auto
  next
    assume "ifm_ConfigureRoutes (daemon_ifmgr i) name idx sn pods w = Some (rc, w')"
    then have run: "ConfigureRoutes i name idx sn pods (snd w) = Some (rc, snd w')"
      by (intro on_snd_run) (simp add: daemon_ifmgr_def)
    note grown = grown_views [OF movesD [OF ConfigureRoutes_grows [OF tabs] run]]
    have "pods_routed (net (snd w')) idx pods" if rc: "rc = Ok ()"
      by (rule ConfigureRoutes_Ok [OF tabs run [unfolded rc]]) (simp add: pods_routed_def)
    with grown show "host_tables (mgr_host i) net \<and>
      host_ifs (net (snd w')) \<subseteq> host_ifs (net (snd w)) \<and>
      (pods_routed (net (snd w)) k ips \<longrightarrow> pods_routed (net (snd w')) k ips) \<and>
      (pods_natted (net (snd w)) ips \<longrightarrow> pods_natted (net (snd w')) ips) \<and>
      (rc = Ok () \<longrightarrow> pods_routed (net (snd w')) idx pods)" using tabs by auto
  next
    assume "ifm_ConfigureIPMasq (daemon_ifmgr i) hostIP pods w = Some (rc, w')"
    then have run: "ConfigureIPMasq i hostIP pods (snd w) = Some (rc, snd w')"
      by (intro on_snd_run) (simp add: daemon_ifmgr_def)
    note grown = grown_views [OF movesD [OF ConfigureIPMasq_grows [OF tabs] run]]
    have "pods_natted (net (snd w')) pods" if rc: "rc = Ok ()"
    proof -
      obtain n where n: "net (snd w') = masqueraded n hostIP pods (net (snd w))"
        and chain: "pods \<noteq> [] \<longrightarrow> nat_rules (net (snd w)) ''POSTROUTING'' \<noteq> None"
        using ConfigureIPMasq_run [OF tabs run [unfolded rc]] by blast
      show ?thesis
        using chain by (auto simp: pods_natted_def n masqueraded_jumps)
    qed
    with grown show "host_tables (mgr_host i) net \<and>
      host_ifs (net (snd w')) \<subseteq> host_ifs (net (snd w)) \<and>
      (pods_routed (net (snd w)) k ips \<longrightarrow> pods_routed (net (snd w')) k ips) \<and>
      (pods_natted (net (snd w)) ips \<longrightarrow> pods_natted (net (snd w')) ips) \<and>
      (rc = Ok () \<longrightarrow> pods_natted (net (snd w')) pods)" using tabs by auto
  }
qed

end
