(* ===== verification/Daemon_Theorems.thy ===== *)
theory Daemon_Theorems
  imports Daemon_Node
begin

text \<open>
  What the daemon hands to its allocator: the attached ENIs of its node's annotation, all of
  them wired; and where that goes wrong, when an earlier run stopped half-way.
\<close>

section \<open>A run for the daemon's own node\<close>

text \<open>The file operations do not touch the network.\<close>

definition files_apart :: "'o file_ops \<Rightarrow> ('o \<Rightarrow> tables) \<Rightarrow> bool" where
  "files_apart fs net \<longleftrightarrow> (\<forall>p q. unchanging net (os_Stat fs p) \<and> unchanging net (os_ReadFile fs p) \<and>
     unchanging net (os_MkdirAll fs p) \<and> unchanging net (os_WriteFile fs p q) \<and> unchanging net (os_Open fs p) \<and>
     unchanging net (os_TempFile fs p) \<and> unchanging net (os_Copy fs p q) \<and> unchanging net (os_Close fs p) \<and>
     unchanging net (os_Chmod fs p) \<and> unchanging net (os_Remove fs p) \<and> unchanging net (os_Rename fs p q))"

lemma installer_apart:
  assumes "files_apart fs net"
  shows "unchanging net (Configured fs)" "unchanging net (Install fs c)" "unchanging net (Write fs s)"
  using assms
  unfolding Configured_def Install_def WriteCNIConfig_def copyFile_def or_remove_def copy_contents_def Write_def
    files_apart_def
  by (auto intro!: unchanging_intros unchanging_each unchanging_of_sum unchanging_deref split: sum.splits)

text \<open>The node's key finds the node in the cache, and the node is the daemon's own.\<close>

definition own_node :: "string \<Rightarrow> (string \<Rightarrow> ('o, node) io) \<Rightarrow> string \<Rightarrow> 'o \<Rightarrow> node \<Rightarrow> eni option list \<Rightarrow> bool" where
  "own_node iid lister key w n ps \<longleftrightarrow> lister key w = Some (Ok n, w) \<and> ProviderID n \<noteq> [] \<and>
     ProviderIDToAWSInstanceID (ProviderID n) = Inr iid \<and>
     ENIConfigFromAnnotations (Annotations n) = Inr (Some ps)"

lemma handle_own_node:
  assumes "own_node iid lister key w n ps"
  shows "if_handleNode (daemon_if_controller iid hostIP i fs inst lister) key (s, w) =
    offer_enis (daemon_if_controller iid hostIP i fs inst lister) n ps (s, w)"
  using assms
  by (simp add: if_handleNode_def own_node_def daemon_if_controller_def NewIfController_def attempt_def
      andthen_def of_sum_def)

text \<open>While interfaces are configured the allocator is left alone.\<close>

lemma configure_all_apart: "unchanging fst (configure_all (daemon_ifmgr i) hostIP nodeName ps acc)"
  by (induction "daemon_ifmgr i" hostIP nodeName ps acc rule: configure_all.induct)
    (auto simp: configure_eni_def daemon_ifmgr_def intro!: unchanging_intros unchanging_deref)

text \<open>After \<open>SetENIs\<close> only files change.\<close>

lemma SetENIs_run:
  assumes "files_apart fs net" "SetENIs fs enis (s, w) = Some (r, (s', w'))"
  shows "s' = s\<lparr>ENIs := enis\<rparr>" "net w' = net w"
proof -
  obtain r0 where "on_snd (Write fs (s\<lparr>ENIs := enis\<rparr>)) (s\<lparr>ENIs := enis\<rparr>, w) = Some (r0, (s', w'))"
    using assms(2) unfolding SetENIs_def write_state_def by (auto elim: wrapping_run)
  from on_snd_run [OF this] show "s' = s\<lparr>ENIs := enis\<rparr>" "net w' = net w"
    using unchangingD [OF installer_apart(3) [OF assms(1)]] by auto
qed

lemma unchanging_lifted: "unchanging net m \<Longrightarrow> unchanging (\<lambda>w. (fst w, net (snd w))) (on_snd m)"
  by (auto simp: unchanging_def on_snd_def)

lemma offer_enis_run:
  assumes apart: "files_apart fs net"
    and run: "offer_enis (daemon_if_controller iid hostIP i fs inst lister) n ps (s, w) = Some (r, (s', w'))"
  obtains (Stopped) rc where "configure_all (daemon_ifmgr i) hostIP (node_Name n) ps [] (s, w) = Some (rc, (s', w'))"
      "s' = s" "r \<noteq> Ok ()" "\<And>es. rc \<noteq> Ok es"
    | (Offered) es v where "configure_all (daemon_ifmgr i) hostIP (node_Name n) ps [] (s, w) = Some (Ok es, (s, v))"
      "s' = s\<lparr>ENIs := Some es\<rparr>" "net w' = net v"
proof -
  let ?c = "daemon_if_controller iid hostIP i fs inst lister"
  have c: "ic_ifMgr ?c = daemon_ifmgr i" "ic_hostIP ?c = hostIP" "ic_SetENIs ?c = SetENIs fs"
    "ic_cniInstaller ?c = daemon_installer fs inst"
    by (simp_all add: daemon_if_controller_def NewIfController_def)
  let ?rest = "\<lambda>_. andthen (wrapping (\<lambda>err. Wrapf err ''Error checking if CNI configured'' [])
      (ci_Configured (daemon_installer fs inst)))
       (\<lambda>cc. if \<not> cc then wrapping (\<lambda>err. Wrapf err ''Error installing CNI deps'' [])
          (ci_Install (daemon_installer fs inst)) else ret ())"
  have rest: "unchanging (\<lambda>w. (fst w, net (snd w))) (?rest a)" for a
    unfolding daemon_installer_def
    by (auto intro!: unchanging_intros unchanging_lifted installer_apart [OF apart])
  from run [unfolded offer_enis_def c] show thesis
  proof (cases rule: andthen_cases)
    case (Ok es u)
    have "fst u = s" using unchangingD [OF configure_all_apart Ok(1)] by simp
    then obtain v where u: "u = (s, v)" by (cases u) auto
    from Ok(2) show thesis
    proof (cases rule: andthen_cases [consumes 1, case_names set_ok set_fail set_panic set_exit])
      case (set_ok a x)
      obtain s1 v1 where x: "x = (s1, v1)" by (cases x)
      have "s1 = s\<lparr>ENIs := Some es\<rparr>" "net v1 = net v" using SetENIs_run [OF apart] set_ok(1) u x by auto
      moreover have "s' = s1" "net w' = net v1" using unchangingD [OF rest set_ok(2)] x by auto
      ultimately show thesis using Offered [OF Ok(1) [unfolded u]] by simp
    qed (use Offered [OF Ok(1) [unfolded u]] SetENIs_run [OF apart] u in auto)
  qed (use Stopped unchangingD [OF configure_all_apart] in fastforce)+
qed

section \<open>The pool is wired\<close>

text \<open>
  C13. Whatever happens in a run for the daemon's own node, the allocator keeps the ENIs it had,
  or gets exactly the attached ENIs of the node's annotation; and then the policy rules and
  the NAT jumps of all their addresses are in place, if those interfaces that were there
  before the run had theirs. A run without error has handed them over.
\<close>

theorem daemon_offers_wired_enis:
  assumes "host_tables (mgr_host i) net" "files_apart fs net" "own_node iid lister key w n ps"
    and "distinct (map interface_name (attached_enis ps))"
    and "\<forall>e \<in> set (attached_enis ps). interface_name e \<in> host_ifs (net w) \<longrightarrow>
      pods_routed (net w) (Index e) (elems (IPs e)) \<and> pods_natted (net w) (elems (IPs e))"
    and "if_handleNode (daemon_if_controller iid hostIP i fs inst lister) key (s, w) = Some (r, (s', w'))"
  shows "s' = s \<and> r \<noteq> Ok () \<or> s' = s\<lparr>ENIs := Some (map Some (attached_enis ps))\<rparr> \<and>
    (\<forall>e \<in> set (attached_enis ps).
      pods_routed (net w') (Index e) (elems (IPs e)) \<and> pods_natted (net w') (elems (IPs e)))"
  using assms(2) assms(6) [unfolded handle_own_node [OF assms(3)]]
proof (cases rule: offer_enis_run)
  case (Offered es v)
  have "daemon_ifs.sane net (s, w) ps"
    using assms(4,5) by (simp add: daemon_ifs.sane_def daemon_ifs.wired_def)
  from daemon_ifs.configure_all_Ok [OF assms(1) this Offered(1)] Offered(2,3) show ?thesis
    by (simp add: daemon_ifs.wired_def)
qed simp

text \<open>
  C39. A run that fails after it has renamed an interface leaves the next one to take the
  interface for configured: the addresses of the ENI are handed to the allocator although
  their routing rules are missing, and no later run adds them.
\<close>

theorem half_configured_eni_is_offered:
  assumes "host_tables (mgr_host i) net" "files_apart fs net" "own_node iid lister key w n [Some e]"
    and "Attached e" "interface_name e \<in> host_ifs (net w)" "\<not> pods_routed (net w) (Index e) (elems (IPs e))"
    and "Interfaces (mgr_host i) w = Some (Ok names, w1)"
    and "if_handleNode (daemon_if_controller iid hostIP i fs inst lister) key (s, w) = Some (r, (s', w'))"
  shows "s' = s\<lparr>ENIs := Some [Some e]\<rparr> \<and> \<not> pods_routed (net w') (Index e) (elems (IPs e)) \<and> net w' = net w"
proof -
  have "InterfaceExists i (interface_name e) w = Some (Ok (interface_name e \<in> set names), w1)"
    using assms(7) by (simp add: InterfaceExists_def)
  moreover have "interface_name e \<in> set names"
    using tells_Ok [OF host_tables_tells(4) [OF assms(1)] assms(7)] assms(5) by (simp add: host_ifs_def)
  moreover have w1: "net w1 = net w" by (rule does_Ok [OF host_tables_does(8) [OF assms(1)] assms(7)])
  ultimately have conf: "configure_all (daemon_ifmgr i) hostIP (node_Name n) [Some e] [] (s, w) =
      Some (Ok [Some e], (s, w1))"
    using assms(4) by (simp add: configure_eni_def daemon_ifmgr_def andthen_def)
  from assms(2) assms(8) [unfolded handle_own_node [OF assms(3)]] show ?thesis
  proof (cases rule: offer_enis_run)
    case (Stopped rc)
    then show ?thesis using conf by simp
  next
    case (Offered es v)
    then show ?thesis using conf w1 assms(6) by simp
  qed
qed

end
