(* ===== verification/Daemon_Safety.thy ===== *)
theory Daemon_Safety
  imports Daemon_Theorems
begin

text \<open>
  The daemon's handler does not go wrong on what the ENI controller writes: with a complete
  configuration every run returns, and never panics.
\<close>

section \<open>Calls that return a value or an error\<close>

lemma plain_basic [simp]: "plain_call (ret a)" "plain_call (throw e)"
  by (simp_all add: plain_call_def)

lemma plain_of_sum [simp]: "plain_call (of_sum x)"
  by (cases x) (simp_all add: of_sum_def del: ret_def throw_def)

lemma plain_andthen: "plain_call m \<Longrightarrow> (\<And>a. plain_call (f a)) \<Longrightarrow> plain_call (andthen m f)"
  unfolding plain_call_def by (metis andthen_Ok andthen_Fail)

lemma plain_attempt: "plain_call m \<Longrightarrow> plain_call (attempt m)"
  unfolding plain_call_def by (metis attempt_Ok attempt_Fail)

lemma plain_wrapping: "plain_call m \<Longrightarrow> plain_call (wrapping g m)"
  unfolding wrapping_def by (intro plain_andthen plain_attempt) (auto split: sum.splits simp del: ret_def throw_def)

lemma plain_ignoring: "plain_call m \<Longrightarrow> plain_call (ignoring m)"
  unfolding ignoring_def by (intro plain_andthen plain_attempt) (auto simp del: ret_def)

lemma plain_each: "(\<And>x. x \<in> set xs \<Longrightarrow> plain_call (f x)) \<Longrightarrow> plain_call (each f xs)"
  by (induction xs) (auto intro!: plain_andthen simp del: ret_def)

lemma plain_on_snd: "plain_call m \<Longrightarrow> plain_call (on_snd m)"
  unfolding plain_call_def on_snd_def by fastforce

lemma plain_deref [simp]: "p \<noteq> None \<Longrightarrow> plain_call (deref p)"
  by (auto simp: deref_Some simp del: ret_def)

lemmas plain_intros = plain_andthen plain_attempt plain_wrapping plain_ignoring plain_on_snd plain_basic
  plain_of_sum plain_each

section \<open>The interface manager\<close>

lemma plain_host:
  assumes "host_tables h net"
  shows "plain_call (LinkList h)" "plain_call (LinkByName h n)" "plain_call (LinkSetName h l n)"
    "plain_call (AddrAdd h l a)" "plain_call (LinkSetUp h l)" "plain_call (RouteAdd h r)" "plain_call (RuleAdd h ru)"
    "plain_call (Interfaces h)" "plain_call (EnsureChain h tb c)" "plain_call (EnsureRule h ''-A'' tb c args)"
    "plain_call (host_ReadFile h rt_tables)" "plain_call (OpenAppend h rt_tables)" "plain_call (Fprintln h rt_tables s)"
  using host_tables_does [OF assms] by (simp_all add: does_def)

definition network_complete :: "network \<Rightarrow> bool" where
  "network_complete n \<longleftrightarrow> None \<notin> set (nonmasqNets n)"

lemma plain_gateway: "is_v4 (net_IP sn) \<Longrightarrow> plain_call (gateway (Some sn))"
  by (elim is_v4_cases) (simp add: gateway_Some del: ret_def)

lemma plain_ifmgr:
  assumes "host_tables (mgr_host i) net" "mgr_Network i = Some n" "network_complete n"
  shows "plain_call (InterfaceExists i name)" "plain_call (ConfigureInterface i name mac ip sn)"
    "is_v4 (net_IP blk) \<Longrightarrow> plain_call (ConfigureRoutes i name idx (Some blk) ips)"
    "plain_call (ConfigureIPMasq i hostIP ips)"
proof -
  note host = plain_host [OF assms(1)]
  show "plain_call (InterfaceExists i name)"
    unfolding InterfaceExists_def by (intro plain_intros host)
  show "plain_call (ConfigureInterface i name mac ip sn)"
    unfolding ConfigureInterface_def by (intro plain_intros host) (auto intro!: plain_intros host split: option.splits)
  show "plain_call (ConfigureRoutes i name idx (Some blk) ips)" if "is_v4 (net_IP blk)"
    unfolding ConfigureRoutes_def assms(2) deref_Some ensureTables_def add_route_def
    by (intro plain_intros host plain_gateway that)
      (auto intro!: plain_intros host split: sum.splits simp del: ret_def throw_def)
  have "plain_call (deref p)" if "p \<in> set (nonmasqNets n)" for p :: "ip_net option"
    using that assms(3) by (intro plain_deref notI) (simp add: network_complete_def)
  then show "plain_call (ConfigureIPMasq i hostIP ips)"
    unfolding ConfigureIPMasq_def assms(2) deref_Some append_nat_def
    by (auto intro!: plain_intros host simp del: ret_def)
qed

section \<open>The handler\<close>

text \<open>What the annotation of a node may be: no nil, and an IPv4 subnet for every interface.\<close>

definition annotation_complete :: "eni option list \<Rightarrow> bool" where
  "annotation_complete ps \<longleftrightarrow> (\<forall>p \<in> set ps. \<exists>e blk. p = Some e \<and> CIDRBlock e = Some blk \<and> is_v4 (net_IP blk))"

lemma plain_configure_all:
  assumes "host_tables (mgr_host i) net" "mgr_Network i = Some n" "network_complete n" "annotation_complete ps"
  shows "plain_call (configure_all (daemon_ifmgr i) hostIP nodeName ps acc)"
  using assms(4)
proof (induction ps arbitrary: acc)
  case (Cons p ps)
  then obtain e blk where e: "p = Some e" "CIDRBlock e = Some blk" "is_v4 (net_IP blk)" "annotation_complete ps"
    by (auto simp: annotation_complete_def)
  have "plain_call (configure_eni (daemon_ifmgr i) hostIP nodeName e)"
    unfolding configure_eni_def e(2) deref_Some
    using plain_ifmgr [OF assms(1-3)] e(3)
    by (auto simp: daemon_ifmgr_def intro!: plain_intros simp del: ret_def)
  then show ?case using Cons.IH [OF e(4)] by (auto simp: e(1) intro!: plain_intros)
qed (simp del: ret_def)

definition files_plain :: "'o file_ops \<Rightarrow> bool" where
  "files_plain fs \<longleftrightarrow> (\<forall>p q. plain_call (os_Stat fs p) \<and> plain_call (os_ReadFile fs p) \<and> plain_call (os_MkdirAll fs p) \<and>
     plain_call (os_WriteFile fs p q) \<and> plain_call (os_Open fs p) \<and> plain_call (os_TempFile fs p) \<and>
     plain_call (os_Copy fs p q) \<and> plain_call (os_Close fs p) \<and> plain_call (os_Chmod fs p) \<and>
     plain_call (os_Remove fs p) \<and> plain_call (os_Rename fs p q))"

lemma plain_files:
  assumes "files_plain fs" "Logging (inst_Config c) \<noteq> None"
  shows "plain_call (Write fs s)" "plain_call (Configured fs)" "plain_call (Install fs c)"
  using assms
  unfolding Write_def Configured_def Install_def WriteCNIConfig_def copyFile_def or_remove_def copy_contents_def
    files_plain_def
  by (auto intro!: plain_intros split: sum.splits simp del: ret_def throw_def)

text \<open>
  C14. What the ENI controller writes cannot make the daemon go wrong: for a node whose interfaces
  all have an IPv4 subnet, and with a complete configuration, the handler returns, with or
  without an error; it never panics, whatever calls fail on the way.
\<close>

theorem daemon_never_panics:
  assumes "host_tables (mgr_host i) net" "mgr_Network i = Some n" "network_complete n"
    and "files_plain fs" "Logging (inst_Config inst) \<noteq> None"
    and "own_node iid lister key w nd ps" "annotation_complete ps"
  shows "\<exists>r s' w'. if_handleNode (daemon_if_controller iid hostIP i fs inst lister) key (s, w) = Some (r, (s', w')) \<and>
    (r = Ok () \<or> (\<exists>e. r = Fail e))"
proof -
  have "plain_call (write_state fs)"
  proof (unfold plain_call_def, rule allI)
    fix x :: "alloc_state \<times> 'a"
    have "plain_call (wrapping (\<lambda>e. Wrapf e ''Error writing state'' []) (on_snd (Write fs (fst x)))
        :: (alloc_state \<times> 'a, unit) io)"
      by (intro plain_intros plain_files(1) [OF assms(4,5)])
    then show "\<exists>r w'. write_state fs x = Some (r, w') \<and> ((\<exists>a. r = Ok a) \<or> (\<exists>e. r = Fail e))"
      unfolding plain_call_def write_state_def by (rule spec)
  qed
  then have set: "plain_call (SetENIs fs es)" for es by (simp add: plain_call_def SetENIs_def)
  have "plain_call (offer_enis (daemon_if_controller iid hostIP i fs inst lister) nd ps)"
    unfolding offer_enis_def daemon_if_controller_def NewIfController_def if_controller.simps daemon_installer_def
      cni_installer.simps
    by (intro plain_intros plain_configure_all [OF assms(1-3,7)] set plain_files [OF assms(4,5)])
      (auto intro!: plain_intros plain_files [OF assms(4,5)] simp del: ret_def)
  then show ?thesis
    unfolding handle_own_node [OF assms(6)] plain_call_def by (metis prod.collapse old.unit.exhaust)
qed

end
