(* ===== verification/Reconciler.thy ===== *)
theory Reconciler
  imports Allocator Obj_Util
begin

text \<open>
  cmd/vpcnet-daemon/reconciler: the no-free-ips taint of the node and the eviction of pods.
  The handlers run in any world \<open>'w\<close>; the fields of a \<open>Reconciler\<close> are its configuration,
  its allocator (\<open>FreeAddressCount\<close> behind an interface), and its view of the cluster: the
  node lister's cache, the node client and the deletion of pods.
\<close>

definition taintNoIPs :: string where
  "taintNoIPs = ''k8s-vpcnet/no-free-ips''"

record 'w reconciler =
  rec_config :: config
  rec_count :: "('w, int) io"
  rec_nodeName :: string
  rec_lister :: "string \<Rightarrow> ('w, node) io"
  rec_nodes :: "'w node_client"
  rec_delete_pod :: "string \<Rightarrow> string \<Rightarrow> ('w, unit) io"

section \<open>The handlers\<close>

text \<open>\<open>PoolFull\<close>, \<open>PoolNotFull\<close>, the tick \<open>ipCheck\<close>, and \<open>EvictPod\<close>.\<close>

definition PoolFull :: "'w reconciler \<Rightarrow> ('w, unit) io" where
  "PoolFull r =
     (if \<not> TaintWhenNoIPs (rec_config r) then ret ()
      else andthen (wrapping (\<lambda>e. Wrapf e ''Fetching object with key %q from store failed'' [rec_nodeName r])
             (rec_lister r (rec_nodeName r))) (\<lambda>node.
           if \<not> HasTaint node taintNoIPs TaintEffectNoSchedule then
             wrapping (\<lambda>e. Wrapf e ''Error tainting node'' [])
               (UpdateNode (rec_nodes r) (rec_nodeName r) (AddTaint taintNoIPs TaintEffectNoSchedule))
           else ret ()))"

definition PoolNotFull :: "'w reconciler \<Rightarrow> ('w, unit) io" where
  "PoolNotFull r =
     (if \<not> TaintWhenNoIPs (rec_config r) then ret ()
      else andthen (wrapping (\<lambda>e. Wrapf e ''Fetching object with key %q from store failed'' [rec_nodeName r])
             (rec_lister r (rec_nodeName r))) (\<lambda>node.
           if HasTaint node taintNoIPs TaintEffectNoSchedule then
             wrapping (\<lambda>e. Wrapf e ''Error untainting node'' [])
               (UpdateNode (rec_nodes r) (rec_nodeName r) (RemoveTaint taintNoIPs TaintEffectNoSchedule))
           else ret ()))"

definition ipCheck :: "'w reconciler \<Rightarrow> ('w, unit) io" where
  "ipCheck r =
     (if \<not> TaintWhenNoIPs (rec_config r) then ret ()
      else andthen (rec_count r) (\<lambda>n. if n < 1 then PoolFull r else PoolNotFull r))"

definition EvictPod :: "'w reconciler \<Rightarrow> string \<Rightarrow> string \<Rightarrow> ('w, unit) io" where
  "EvictPod r namespace name =
     andthen (ignoring (ipCheck r)) (\<lambda>_.
     andthen (attempt (rec_delete_pod r namespace name)) (\<lambda>d.
       case d of
         Inl err \<Rightarrow>
           if \<not> is_not_found err
           then throw (Wrapf err ''Error deleting pod %q from namespace %q'' [name, namespace])
           else ret ()
       | Inr _ \<Rightarrow> ret ()))"

section \<open>The reconciler of the daemon\<close>

text \<open>
  The daemon's world is \<open>alloc_state \<times> 'o\<close>; the cluster is outside the program's state, in
  \<open>'o\<close>.
\<close>

record 'o cluster =
  node_lister :: "string \<Rightarrow> ('o, node) io"
  nodes_api :: "'o node_client"
  delete_pod :: "string \<Rightarrow> string \<Rightarrow> ('o, unit) io"

definition lift_nodes :: "'o node_client \<Rightarrow> ('s \<times> 'o) node_client" where
  "lift_nodes nc = \<lparr>nodes_get = \<lambda>name. on_snd (nodes_get nc name), nodes_update = \<lambda>n. on_snd (nodes_update nc n)\<rparr>"

definition daemon_reconciler :: "config \<Rightarrow> string \<Rightarrow> 'o cluster \<Rightarrow> (alloc_state \<times> 'o) reconciler" where
  "daemon_reconciler cfg nodeName cl =
     \<lparr>rec_config = cfg, rec_count = FreeAddressCount, rec_nodeName = nodeName,
      rec_lister = \<lambda>name. on_snd (node_lister cl name), rec_nodes = lift_nodes (nodes_api cl),
      rec_delete_pod = \<lambda>ns name. on_snd (delete_pod cl ns name)\<rparr>"

section \<open>The interface the IPAM service uses\<close>

text \<open>
  \<open>ipamsvc.Evictor\<close>: what the service relies on is that none of its calls touches the
  address pool, of which \<open>pool_view\<close> is everything there is to know.
\<close>

locale evictor =
  fixes evict_pod :: "string \<Rightarrow> string \<Rightarrow> ('w, unit) io"
    and pool_full pool_not_full :: "('w, unit) io"
    and pool_view :: "'w \<Rightarrow> 'v"
  assumes evict_pod_pool: "unchanging pool_view (evict_pod namespace name)"
    and pool_full_pool: "unchanging pool_view pool_full"
    and pool_not_full_pool: "unchanging pool_view pool_not_full"

subsection \<open>Calls that keep a view\<close>

lemma unchanging_update_loop:
  assumes "\<And>n. unchanging v (nodes_update nc n)" "unchanging v (nodes_get nc name)"
  shows "unchanging v (update_loop nc name mutate node)"
proof (rule unchangingI)
  fix w r w' assume run: "update_loop nc name mutate node w = Some (r, w')"
  have "nc = nc \<longrightarrow> name = name \<longrightarrow> mutate = mutate \<longrightarrow> v (snd (r, w')) = v w"
  proof (rule update_loop.raw_induct [where P = "\<lambda>nc' name' mutate' node w r.
      nc' = nc \<longrightarrow> name' = name \<longrightarrow> mutate' = mutate \<longrightarrow> v (snd r) = v w", OF _ run], intro impI, goal_cases)
    case (1 f nc' name' mutate' node w r)
    show ?case
    proof (cases "mutate node")
      case None
      with 1 show ?thesis by auto
    next
      case (Some node')
      with 1 obtain u w1 where u: "nodes_update nc node' w = Some (u, w1)"
        by (auto simp: bind_eq_Some_conv)
      have v1: "v w1 = v w" by (rule unchangingD [OF assms(1) u])
      show ?thesis
      proof (cases "\<exists>e. u = Fail e \<and> is_conflict e")
        case True
        then obtain e where e: "u = Fail e" "is_conflict e" by blast
        with 1 Some u obtain g w2 where g: "nodes_get nc name w1 = Some (g, w2)"
          by (auto simp: bind_eq_Some_conv)
        have v2: "v w2 = v w1" by (rule unchangingD [OF assms(2) g])
        show ?thesis
        proof (cases g)
          case (Ok fresh)
          with 1 Some u e g have "f nc name mutate fresh w2 = Some r" by simp
          with 1(1) [OF this] v1 v2 show ?thesis by simp
        qed (use 1 Some u e g v1 v2 in auto)
      next
        case False
        with 1 Some u v1 show ?thesis by (cases u) auto
      qed
    qed
  qed
  then show "v w' = v w" by simp
qed

lemma unchanging_UpdateNode:
  assumes "\<And>n. unchanging v (nodes_update nc n)" "unchanging v (nodes_get nc name)"
  shows "unchanging v (UpdateNode nc name mutate)"
  unfolding UpdateNode_def
  by (intro unchanging_andthen unchanging_wrapping unchanging_update_loop assms)

lemma unchanging_lift_nodes:
  "unchanging fst (UpdateNode (lift_nodes nc) name mutate)"
  by (rule unchanging_UpdateNode) (simp_all add: lift_nodes_def unchanging_on_snd)

lemma daemon_pool_unchanged:
  "unchanging fst (PoolFull (daemon_reconciler cfg name cl))"
  "unchanging fst (PoolNotFull (daemon_reconciler cfg name cl))"
  by (auto simp: PoolFull_def PoolNotFull_def daemon_reconciler_def
      intro!: unchanging_intros unchanging_lift_nodes)

lemma unchanging_FreeAddressCount: "unchanging v FreeAddressCount"
  by (auto simp: unchanging_def FreeAddressCount_def split: option.splits)

lemma daemon_ipCheck_unchanged: "unchanging fst (ipCheck (daemon_reconciler cfg name cl))"
proof -
  have "rec_count (daemon_reconciler cfg name cl) = FreeAddressCount" by (simp add: daemon_reconciler_def)
  then show ?thesis
    by (auto simp: ipCheck_def intro!: unchanging_andthen unchanging_FreeAddressCount daemon_pool_unchanged)
qed

interpretation daemon_evictor: evictor "EvictPod (daemon_reconciler cfg name cl)"
    "PoolFull (daemon_reconciler cfg name cl)" "PoolNotFull (daemon_reconciler cfg name cl)" fst
  for cfg :: config and name :: string and cl :: "'o cluster"
proof
  fix namespace pod :: string
  have del: "rec_delete_pod (daemon_reconciler cfg name cl) namespace pod = on_snd (delete_pod cl namespace pod)"
    by (simp add: daemon_reconciler_def)
  show "unchanging fst (EvictPod (daemon_reconciler cfg name cl) namespace pod)"
    unfolding EvictPod_def del
    by (intro unchanging_andthen unchanging_ignoring unchanging_attempt unchanging_on_snd daemon_ipCheck_unchanged)
      (auto split: sum.splits)
qed (rule daemon_pool_unchanged)+

section \<open>The taint and the pool\<close>

text \<open>
  A lister whose cache is up to date: it returns the newest version of the node, and
  nobody writes meanwhile.
\<close>

definition fresh_lister :: "(string \<Rightarrow> ('w, node) io) \<Rightarrow> string \<Rightarrow> ('w \<Rightarrow> node list) \<Rightarrow> bool" where
  "fresh_lister lister name versions \<longleftrightarrow>
     (\<forall>w r w'. lister name w = Some (r, w') \<longrightarrow>
        versions w' = versions w \<and> (\<forall>n. r = Ok n \<longrightarrow> (\<exists>vs. versions w = n # vs)))"

lemma fresh_listerD:
  "fresh_lister lister name versions \<Longrightarrow> lister name w = Some (Ok n, w') \<Longrightarrow> \<exists>vs. versions w' = n # vs"
  unfolding fresh_lister_def by metis

definition no_free_taint :: "node \<Rightarrow> bool" where
  "no_free_taint n \<longleftrightarrow> HasTaint n taintNoIPs TaintEffectNoSchedule"

lemma HasTaint_version [simp]: "HasTaint (n\<lparr>ResourceVersion := v\<rparr>) key effect = HasTaint n key effect"
  by (simp add: HasTaint_iff)

lemma HasTaint_AddTaint: "AddTaint key effect n = Some m \<Longrightarrow> HasTaint m key effect"
  by (auto simp: AddTaint_def HasTaint_iff)

lemma HasTaint_RemoveTaint: "RemoveTaint key effect n = Some m \<Longrightarrow> \<not> HasTaint m key effect"
  by (auto simp: RemoveTaint_filter HasTaint_iff)

lemma PoolFull_taints:
  assumes "node_server (rec_nodes r) (rec_nodeName r) versions"
    and "fresh_lister (rec_lister r) (rec_nodeName r) versions" "TaintWhenNoIPs (rec_config r)"
    and run: "PoolFull r w = Some (Ok (), w')"
  shows "\<exists>n vs. versions w' = n # vs \<and> no_free_taint n"
proof -
  from run assms(3) obtain node w1 where get: "rec_lister r (rec_nodeName r) w = Some (Ok node, w1)"
    and rest: "(if \<not> HasTaint node taintNoIPs TaintEffectNoSchedule then
             wrapping (\<lambda>e. Wrapf e ''Error tainting node'' [])
               (UpdateNode (rec_nodes r) (rec_nodeName r) (AddTaint taintNoIPs TaintEffectNoSchedule))
           else ret ()) w1 = Some (Ok (), w')"
    by (auto simp: PoolFull_def andthen_eq_Ok)
  show ?thesis
  proof (cases "HasTaint node taintNoIPs TaintEffectNoSchedule")
    case True
    with rest fresh_listerD [OF assms(2) get] show ?thesis by (auto simp: no_free_taint_def)
  next
    case False
    with rest have "UpdateNode (rec_nodes r) (rec_nodeName r) (AddTaint taintNoIPs TaintEffectNoSchedule) w1 = Some (Ok (), w')"
      by simp
    from UpdateNode_writes [OF assms(1) keeps_version_taints(1) this]
    obtain new old vs m where "versions w' = new # old # vs" "AddTaint taintNoIPs TaintEffectNoSchedule old = Some m"
      "new = m\<lparr>ResourceVersion := ResourceVersion new\<rparr>" by blast
    then show ?thesis using HasTaint_AddTaint HasTaint_version unfolding no_free_taint_def by metis
  qed
qed

lemma PoolNotFull_untaints:
  assumes "node_server (rec_nodes r) (rec_nodeName r) versions"
    and "fresh_lister (rec_lister r) (rec_nodeName r) versions" "TaintWhenNoIPs (rec_config r)"
    and run: "PoolNotFull r w = Some (Ok (), w')"
  shows "\<exists>n vs. versions w' = n # vs \<and> \<not> no_free_taint n"
proof -
  from run assms(3) obtain node w1 where get: "rec_lister r (rec_nodeName r) w = Some (Ok node, w1)"
    and rest: "(if HasTaint node taintNoIPs TaintEffectNoSchedule then
             wrapping (\<lambda>e. Wrapf e ''Error untainting node'' [])
               (UpdateNode (rec_nodes r) (rec_nodeName r) (RemoveTaint taintNoIPs TaintEffectNoSchedule))
           else ret ()) w1 = Some (Ok (), w')"
    by (auto simp: PoolNotFull_def andthen_eq_Ok)
  show ?thesis
  proof (cases "HasTaint node taintNoIPs TaintEffectNoSchedule")
    case False
    with rest fresh_listerD [OF assms(2) get] show ?thesis by (auto simp: no_free_taint_def)
  next
    case True
    with rest have "UpdateNode (rec_nodes r) (rec_nodeName r) (RemoveTaint taintNoIPs TaintEffectNoSchedule) w1 = Some (Ok (), w')"
      by simp
    from UpdateNode_writes [OF assms(1) keeps_version_taints(2) this]
    obtain new old vs m where "versions w' = new # old # vs" "RemoveTaint taintNoIPs TaintEffectNoSchedule old = Some m"
      "new = m\<lparr>ResourceVersion := ResourceVersion new\<rparr>" by blast
    then show ?thesis using HasTaint_RemoveTaint HasTaint_version unfolding no_free_taint_def by metis
  qed
qed

text \<open>
  C22. With tainting configured and an up-to-date cache, a pool check that returns without
  error leaves the node tainted exactly when the pool has no free address.
\<close>

theorem taint_follows_pool:
  assumes "node_server (rec_nodes r) (rec_nodeName r) versions"
    and "fresh_lister (rec_lister r) (rec_nodeName r) versions" "TaintWhenNoIPs (rec_config r)"
    and "rec_count r w = Some (Ok (int free), w)" "ipCheck r w = Some (Ok (), w')"
  shows "\<exists>n vs. versions w' = n # vs \<and> (no_free_taint n \<longleftrightarrow> free = 0)"
  using assms(3-5) PoolFull_taints [OF assms(1-3)] PoolNotFull_untaints [OF assms(1-3)]
  by (cases "free = 0") (auto simp: ipCheck_def)

definition taint_count :: "node \<Rightarrow> nat" where
  "taint_count n = length (filter (is_taint taintNoIPs TaintEffectNoSchedule) (elems (Taints n)))"

text \<open>
  The taint is added without a look at the version it is added to: when the cache still
  shows the node untainted, a second \<open>PoolFull\<close> adds the taint a second time, although it is
  documented as safe to call repeatedly.
\<close>

theorem stale_cache_taints_again:
  assumes "node_server (rec_nodes r) (rec_nodeName r) versions" "TaintWhenNoIPs (rec_config r)"
    and "rec_lister r (rec_nodeName r) w = Some (Ok cached, w1)" "\<not> no_free_taint cached"
    and "PoolFull r w = Some (Ok (), w')"
  shows "\<exists>new old vs. versions w' = new # old # vs \<and> taint_count new = Suc (taint_count old)"
proof -
  have "UpdateNode (rec_nodes r) (rec_nodeName r) (AddTaint taintNoIPs TaintEffectNoSchedule) w1 = Some (Ok (), w')"
    using assms(2-5) by (simp add: PoolFull_def no_free_taint_def)
  from UpdateNode_writes [OF assms(1) keeps_version_taints(1) this]
  obtain new old vs m where new: "versions w' = new # old # vs"
    and m: "AddTaint taintNoIPs TaintEffectNoSchedule old = Some m"
    and eq: "new = m\<lparr>ResourceVersion := ResourceVersion new\<rparr>" by blast
  have "taint_count m = Suc (taint_count old)" using m by (auto simp: AddTaint_def taint_count_def is_taint_def)
  moreover have "taint_count new = taint_count m" by (subst eq) (simp add: taint_count_def)
  ultimately show ?thesis using new by auto
qed

text \<open>
  Without the configuration for it, a pool check does nothing at all, not even count.
\<close>

theorem no_tainting_unless_configured:
  assumes "\<not> TaintWhenNoIPs (rec_config r)"
  shows "ipCheck r = ret () \<and> PoolFull r = ret () \<and> PoolNotFull r = ret ()"
  using assms by (simp add: ipCheck_def PoolFull_def PoolNotFull_def)

text \<open>
  An eviction deletes the pod even if the pool check before it fails, and a pod that is
  already gone is no error; any other failure of the deletion is returned.
\<close>

theorem eviction_deletes_pod:
  assumes "ipCheck r w = Some (c, w1)" "(\<exists>u. c = Ok u) \<or> (\<exists>e. c = Fail e)"
    and "rec_delete_pod r namespace name w1 = Some (d, w2)" "(\<exists>u. d = Ok u) \<or> (\<exists>e. d = Fail e)"
  shows "EvictPod r namespace name w =
    Some (case d of Fail e \<Rightarrow> if is_not_found e then Ok ()
        else Fail (Wrapf e ''Error deleting pod %q from namespace %q'' [name, namespace]) | _ \<Rightarrow> Ok (), w2)"
proof -
  have "ignoring (ipCheck r) w = Some (Ok (), w1)" using assms(1,2) by auto
  then show ?thesis using assms(3,4) by (auto simp: EvictPod_def)
qed

section \<open>A node in a store\<close>

definition demo_config :: config where
  "demo_config = \<lparr>Network = None, Logging = None, TaintWhenNoIPs = True, DeletePodWhenNoIPs = True\<rparr>"

definition demo_cluster :: "(nat \<times> node list) cluster" where
  "demo_cluster = \<lparr>node_lister = nodes_get store_client, nodes_api = store_client,
     delete_pod = \<lambda>ns name. throw (ApiErr NotFound name)\<rparr>"

definition demo_reconciler :: "int \<Rightarrow> (nat \<times> node list) reconciler" where
  "demo_reconciler free = \<lparr>rec_config = demo_config, rec_count = ret free, rec_nodeName = ''node-1'',
     rec_lister = node_lister demo_cluster, rec_nodes = nodes_api demo_cluster,
     rec_delete_pod = delete_pod demo_cluster\<rparr>"

lemma demo_server: "node_server (rec_nodes (demo_reconciler k)) (rec_nodeName (demo_reconciler k)) (\<lambda>w. store_versions (snd w))"
  by (simp add: demo_reconciler_def demo_cluster_def store_is_server)

lemma demo_fresh: "fresh_lister (rec_lister (demo_reconciler k)) (rec_nodeName (demo_reconciler k)) (\<lambda>w. store_versions (snd w))"
  by (auto simp: fresh_lister_def demo_reconciler_def demo_cluster_def store_client_def split: list.splits)

lemmas demo_run = demo_reconciler_def demo_cluster_def demo_config_def store_client_def demo_node_def
  PoolFull_def ipCheck_def UpdateNode_def AddTaint_def HasTaint_def update_loop.simps

lemma demo_check: "\<exists>w'. ipCheck (demo_reconciler 0) (1, [demo_node]) = Some (Ok (), w')"
  by (simp add: demo_run wrapping_def attempt_def andthen_def)

theorem taint_follows_pool_witness:
  "\<exists>w' n vs. ipCheck (demo_reconciler 0) (1, [demo_node]) = Some (Ok (), w') \<and>
     store_versions (snd w') = n # vs \<and> no_free_taint n"
proof -
  obtain w' where w': "ipCheck (demo_reconciler 0) (1, [demo_node]) = Some (Ok (), w')"
    using demo_check by blast
  have "\<exists>n vs. store_versions (snd w') = n # vs \<and> (no_free_taint n \<longleftrightarrow> (0::nat) = 0)"
    by (rule taint_follows_pool [OF demo_server demo_fresh _ _ w'])
      (simp_all add: demo_reconciler_def demo_config_def)
  with w' show ?thesis by blast
qed

text \<open>The same node behind a cache that has not seen the taint.\<close>

definition stale_reconciler :: "(nat \<times> node list) reconciler" where
  "stale_reconciler = (demo_reconciler 0)\<lparr>rec_lister := \<lambda>name. ret demo_node\<rparr>"

theorem stale_cache_taints_again_witness:
  "\<exists>w1 w2 new old vs. PoolFull stale_reconciler (0, [demo_node]) = Some (Ok (), w1) \<and>
     PoolFull stale_reconciler w1 = Some (Ok (), w2) \<and>
     store_versions (snd w2) = new # old # vs \<and> taint_count new = 2"
proof -
  obtain tainted where w1: "PoolFull stale_reconciler (0, [demo_node]) = Some (Ok (), (0, [tainted, demo_node]))"
    and one: "taint_count tainted = 1"
    by (simp add: stale_reconciler_def demo_run wrapping_def attempt_def andthen_def taint_count_def is_taint_def)
  obtain n where w2: "PoolFull stale_reconciler (0, [tainted, demo_node]) = Some (Ok (), (0, [n, tainted, demo_node]))"
    by (simp add: stale_reconciler_def demo_run wrapping_def attempt_def andthen_def)
  have "\<exists>new old vs. (\<lambda>w. store_versions (snd w)) (0 :: nat, [n, tainted, demo_node]) = new # old # vs \<and>
      taint_count new = Suc (taint_count old)"
    by (rule stale_cache_taints_again [OF _ _ _ _ w2, where cached = demo_node and
      versions = "\<lambda>w. store_versions (snd w)"])
      (simp_all add: stale_reconciler_def demo_reconciler_def demo_cluster_def demo_config_def store_is_server
        no_free_taint_def HasTaint_def demo_node_def)
  with one have "\<exists>new old vs. store_versions [n, tainted, demo_node] = new # old # vs \<and> taint_count new = 2"
    by (auto simp: taint_count_def)
  with w1 w2 show ?thesis by (metis snd_conv)
qed

theorem no_tainting_unless_configured_witness:
  "ipCheck ((demo_reconciler 0)\<lparr>rec_config := demo_config\<lparr>TaintWhenNoIPs := False\<rparr>\<rparr>) = ret ()"
  by (rule no_tainting_unless_configured [THEN conjunct1]) (simp add: demo_config_def)

theorem eviction_deletes_pod_witness:
  "\<exists>w'. EvictPod (demo_reconciler 0) ''default'' ''web'' (1, [demo_node]) = Some (Ok (), w')"
proof -
  obtain w' where w': "ipCheck (demo_reconciler 0) (1, [demo_node]) = Some (Ok (), w')"
    using demo_check by blast
  have "rec_delete_pod (demo_reconciler 0) ''default'' ''web'' w' = Some (Fail (ApiErr NotFound ''web''), w')"
    by (simp add: demo_reconciler_def demo_cluster_def)
  from eviction_deletes_pod [OF w' _ this] show ?thesis by simp
qed

end
