(* ===== verification/Ipam_Service.thy ===== *)
theory Ipam_Service
  imports Reconciler
begin

text \<open>
  cmd/vpcnet-daemon/ipamsvc: the gRPC service the CNI plugin calls. \<open>Add\<close> and \<open>Del\<close> see the
  allocator and the evictor behind Go interfaces, records of functions here; what they rely
  on is the locale \<open>ipam\<close>, an \<open>address_pool\<close> and an \<open>evictor\<close> over the same world. It is
  interpreted on the daemon's own allocator and reconciler.
\<close>

section \<open>The service\<close>

record 'w allocator_if =
  al_Allocate :: "string \<Rightarrow> string \<Rightarrow> string \<Rightarrow> ('w, allocation) io"
  al_ReleaseByContainer :: "string \<Rightarrow> ('w, unit) io"
  al_FreeAddressCount :: "('w, int) io"

record 'w evictor_if =
  ev_EvictPod :: "string \<Rightarrow> string \<Rightarrow> ('w, unit) io"
  ev_PoolFull :: "('w, unit) io"
  ev_PoolNotFull :: "('w, unit) io"

record 'w service =
  svc_Allocator :: "'w allocator_if"
  svc_Config :: config
  svc_Evictor :: "'w evictor_if"

text \<open>The messages of ipam.proto.\<close>

record add_request =
  req_ContainerID :: string
  req_PodName :: string
  req_PodNamespace :: string

record add_response =
  resp_AllocatedIP :: string
  resp_ENIIP :: string
  resp_SubnetCIDR :: string

definition NewService :: "config \<Rightarrow> 'w allocator_if \<Rightarrow> 'w evictor_if \<Rightarrow> 'w service" where
  "NewService cfg alloc evict = \<lparr>svc_Allocator = alloc, svc_Config = cfg, svc_Evictor = evict\<rparr>"

definition response_of :: "allocation \<Rightarrow> add_response" where
  "response_of a = \<lparr>resp_AllocatedIP = ip_string (AllocIP a), resp_ENIIP = ip_string (ENIIP a),
     resp_SubnetCIDR = ipnet_string (ENISubnet a)\<rparr>"

definition Add :: "'w service \<Rightarrow> add_request \<Rightarrow> ('w, add_response) io" where
  "Add i req =
     andthen (attempt (al_Allocate (svc_Allocator i) (req_ContainerID req) (req_PodName req) (req_PodNamespace req)))
       (\<lambda>r. case r of
          Inl err \<Rightarrow>
            andthen
              (if err = ErrNoFreeIPs \<and> DeletePodWhenNoIPs (svc_Config i) then
                 andthen (ignoring (ev_PoolFull (svc_Evictor i)))
                   (\<lambda>_. ignoring (ev_EvictPod (svc_Evictor i) (req_PodNamespace req) (req_PodName req)))
               else ret ())
              (\<lambda>_. throw (Status ''Internal'' ''Error allocating address: %q'' err))
        | Inr a \<Rightarrow>
            andthen (al_FreeAddressCount (svc_Allocator i)) (\<lambda>n.
            andthen
              (if n < 1 then ignoring (ev_PoolFull (svc_Evictor i))
               else ignoring (ev_PoolNotFull (svc_Evictor i)))
              (\<lambda>_. ret (response_of a))))"

definition Del :: "'w service \<Rightarrow> string \<Rightarrow> ('w, unit) io" where
  "Del i containerID =
     wrapping (\<lambda>err. Status ''Internal'' ''Error releasing address: %q'' err)
       (al_ReleaseByContainer (svc_Allocator i) containerID)"

section \<open>What the service relies on\<close>

locale ipam =
  address_pool count pool_inv free allocate release owner +
  evictor evict_pod pool_full pool_not_full pool_view
  for count :: "('w, int) io" and pool_inv :: "'w \<Rightarrow> bool" and free :: "'w \<Rightarrow> nat"
    and allocate :: "string \<Rightarrow> string \<Rightarrow> string \<Rightarrow> ('w, allocation) io"
    and release :: "string \<Rightarrow> ('w, unit) io" and owner :: "'w \<Rightarrow> string \<rightharpoonup> string"
    and evict_pod :: "string \<Rightarrow> string \<Rightarrow> ('w, unit) io"
    and pool_full :: "('w, unit) io" and pool_not_full :: "('w, unit) io" and pool_view :: "'w \<Rightarrow> 'v" +
  assumes same_pool: "pool_view w = pool_view w' \<Longrightarrow>
    owner w = owner w' \<and> free w = free w' \<and> pool_inv w = pool_inv w'"
begin

definition svc :: "config \<Rightarrow> 'w service" where
  "svc cfg = NewService cfg
     \<lparr>al_Allocate = allocate, al_ReleaseByContainer = release, al_FreeAddressCount = count\<rparr>
     \<lparr>ev_EvictPod = evict_pod, ev_PoolFull = pool_full, ev_PoolNotFull = pool_not_full\<rparr>"

lemmas svc_simps = svc_def NewService_def

lemma Add_svc:
  "Add (svc cfg) req =
     andthen (attempt (allocate (req_ContainerID req) (req_PodName req) (req_PodNamespace req)))
       (\<lambda>r. case r of
          Inl err \<Rightarrow>
            andthen
              (if err = ErrNoFreeIPs \<and> DeletePodWhenNoIPs cfg then
                 andthen (ignoring pool_full) (\<lambda>_. ignoring (evict_pod (req_PodNamespace req) (req_PodName req)))
               else ret ())
              (\<lambda>_. throw (Status ''Internal'' ''Error allocating address: %q'' err))
        | Inr a \<Rightarrow>
            andthen count (\<lambda>n.
            andthen (if n < 1 then ignoring pool_full else ignoring pool_not_full)
              (\<lambda>_. ret (response_of a))))"
  unfolding Add_def svc_simps service.simps allocator_if.simps evictor_if.simps by (rule refl)

lemma notices_keep_pool:
  "unchanging pool_view (ignoring pool_full)" "unchanging pool_view (ignoring pool_not_full)"
  "unchanging pool_view (ignoring (evict_pod ns name))"
  by (simp_all add: unchanging_ignoring pool_full_pool pool_not_full_pool evict_pod_pool)

text \<open>An invariant of the pool that its operations keep is kept by the service.\<close>

lemma svc_keeps:
  assumes "\<And>cid name ns. keeps (\<lambda>w. P (pool_view w)) (allocate cid name ns)"
    and "\<And>cid. keeps (\<lambda>w. P (pool_view w)) (release cid)" "\<And>w. P (pool_view w) \<Longrightarrow> pool_inv w"
  shows "keeps (\<lambda>w. P (pool_view w)) (Add (svc cfg) req)" "keeps (\<lambda>w. P (pool_view w)) (Del (svc cfg) cid)"
proof -
  have count: "keeps (\<lambda>w. P (pool_view w)) count" by (rule keepsI) (frule assms(3), simp add: count_free)
  show "keeps (\<lambda>w. P (pool_view w)) (Add (svc cfg) req)"
    unfolding Add_svc
    by (intro keeps_intros assms(1)) (auto split: sum.splits
      intro!: keeps_intros count keeps_unchanging [OF notices_keep_pool(1)] keeps_unchanging [OF notices_keep_pool(2)]
        keeps_unchanging [OF notices_keep_pool(3)] simp del: throw_def ret_def)
  show "keeps (\<lambda>w. P (pool_view w)) (Del (svc cfg) cid)"
    by (auto simp: Del_def svc_simps intro!: keeps_intros assms(2))
qed

text \<open>An answer of \<open>Add\<close> is that of an allocation; nothing happens to the pool after it.\<close>

lemma Add_allocates:
  assumes inv: "pool_inv w" and run: "Add (svc cfg) req w = Some (Ok resp, w')"
  obtains a w1 where "allocate (req_ContainerID req) (req_PodName req) (req_PodNamespace req) w = Some (Ok a, w1)"
    "resp = response_of a" "pool_view w' = pool_view w1" "pool_inv w1"
proof -
  let ?al = "allocate (req_ContainerID req) (req_PodName req) (req_PodNamespace req)"
  from run obtain r w1 where r: "attempt ?al w = Some (Ok r, w1)"
    and rest: "(case r of
          Inl err \<Rightarrow>
            andthen
              (if err = ErrNoFreeIPs \<and> DeletePodWhenNoIPs cfg then
                 andthen (ignoring pool_full) (\<lambda>_. ignoring (evict_pod (req_PodNamespace req) (req_PodName req)))
               else ret ())
              (\<lambda>_. throw (Status ''Internal'' ''Error allocating address: %q'' err))
        | Inr a \<Rightarrow>
            andthen count (\<lambda>n.
            andthen (if n < 1 then ignoring pool_full else ignoring pool_not_full)
              (\<lambda>_. ret (response_of a)))) w1 = Some (Ok resp, w')"
    unfolding Add_svc andthen_eq_Ok by blast
  from r show thesis
  proof (cases rule: attempt_cases)
    case (Ok a)
    have inv1: "pool_inv w1" by (rule keepsD [OF allocate_keeps inv Ok(1)])
    from Ok rest count_free [OF inv1] have
      n: "(if free w1 = 0 then ignoring pool_full else ignoring pool_not_full) w1 = Some (outcome.Ok (), w')"
      and resp: "resp = response_of a"
      by (auto simp: andthen_eq_Ok)
    from n have "pool_view w' = pool_view w1"
      by (auto dest: unchangingD [OF notices_keep_pool(1)] unchangingD [OF notices_keep_pool(2)] split: if_splits)
    then show thesis by (rule that [OF Ok(1) resp _ inv1])
  next
    case (Fail e)
    with rest show thesis by (auto simp: andthen_eq_Ok)
  qed auto
qed

text \<open>An address that \<open>Add\<close> reports was free, and is the container's now.\<close>

lemma Add_Ok:
  assumes inv: "pool_inv w" and run: "Add (svc cfg) req w = Some (Ok resp, w')"
  shows "\<exists>a. resp = response_of a \<and> is_v4 (AllocIP a) \<and> owner w (resp_AllocatedIP resp) = None \<and>
    owner w' = (owner w)(resp_AllocatedIP resp \<mapsto> req_ContainerID req) \<and> free w = Suc (free w') \<and> pool_inv w'"
proof -
  obtain a w1 where a: "allocate (req_ContainerID req) (req_PodName req) (req_PodNamespace req) w = Some (Ok a, w1)"
    and resp: "resp = response_of a" and view: "pool_view w' = pool_view w1" and inv1: "pool_inv w1"
    using Add_allocates [OF inv run] .
  from same_pool [OF view] allocate_Ok [OF inv a] inv1 resp show ?thesis by (auto simp: response_of_def)
qed

text \<open>Whatever comes of an \<open>Add\<close>, its allocation is all that happens to the pool.\<close>

lemma Add_any:
  assumes inv: "pool_inv w" and run: "Add (svc cfg) req w = Some (r, w')"
  obtains x w1 where "allocate (req_ContainerID req) (req_PodName req) (req_PodNamespace req) w = Some (x, w1)"
    "pool_view w' = pool_view w1"
proof -
  let ?al = "allocate (req_ContainerID req) (req_PodName req) (req_PodNamespace req)"
  from run [unfolded Add_svc] show thesis
  proof (cases rule: andthen_cases)
    case (Ok y w1)
    from Ok(1) obtain x where x: "?al w = Some (x, w1)" by (cases rule: attempt_cases) auto
    have inv1: "pool_inv w1" by (rule keepsD [OF allocate_keeps inv x])
    have "pool_view w' = pool_view w1"
    proof (cases y)
      case (Inl err)
      let ?m = "if err = ErrNoFreeIPs \<and> DeletePodWhenNoIPs cfg then
          andthen (ignoring pool_full) (\<lambda>_. ignoring (evict_pod (req_PodNamespace req) (req_PodName req))) else ret ()"
      have "unchanging pool_view (andthen ?m
          (\<lambda>_. throw (Status ''Internal'' ''Error allocating address: %q'' err) :: ('w, add_response) io))"
        by (auto intro!: unchanging_andthen notices_keep_pool simp del: ret_def throw_def)
      with Ok(2) Inl show ?thesis by (auto dest: unchangingD)
    next
      case (Inr a)
      have "unchanging pool_view (andthen (if free w1 = 0 then ignoring pool_full else ignoring pool_not_full)
          (\<lambda>_. ret (response_of a)))"
        by (auto intro!: unchanging_andthen notices_keep_pool simp del: ret_def)
      moreover have "andthen (if free w1 = 0 then ignoring pool_full else ignoring pool_not_full)
          (\<lambda>_. ret (response_of a)) w1 = Some (r, w')"
        using Ok(2) Inr count_free [OF inv1] by (simp add: andthen_Ok)
      ultimately show ?thesis by (auto dest: unchangingD)
    qed
    with x that show thesis by blast
  next
    case (Fail e)
    then show thesis by (auto elim: attempt_cases)
  next
    case (Panic s)
    then show thesis using that by (auto elim: attempt_cases)
  next
    case (Exit s)
    then show thesis using that by (auto elim: attempt_cases)
  qed
qed

lemma Add_owner:
  assumes "pool_inv w" "Add (svc cfg) req w = Some (r, w')"
  shows "owner w' = owner w \<or> (\<exists>k. owner w k = None \<and> owner w' = (owner w)(k \<mapsto> req_ContainerID req))"
  by (rule Add_any [OF assms]) (metis allocate_owner assms(1) same_pool)

lemma Del_owner:
  assumes "pool_inv w" "Del (svc cfg) cid w = Some (r, w')"
  shows "if cid \<in> ran (owner w) then \<exists>k. owner w k = Some cid \<and> owner w' = (owner w)(k := None)
    else owner w' = owner w"
proof -
  have "wrapping (\<lambda>err. Status ''Internal'' ''Error releasing address: %q'' err) (release cid) w = Some (r, w')"
    using assms(2) by (simp add: Del_def svc_simps)
  then obtain x where "release cid w = Some (x, w')" by (rule wrapping_run)
  from release_owner [OF assms(1) this] show ?thesis .
qed

text \<open>A full pool: the service answers with an internal error, and the pool is as it was.\<close>

lemma Add_full:
  assumes inv: "pool_inv w" "free w = 0" and run: "Add (svc cfg) req w = Some (r, w')"
  shows "owner w' = owner w \<and> (\<forall>resp. r \<noteq> Ok resp)"
proof -
  let ?m = "if DeletePodWhenNoIPs cfg then
      andthen (ignoring pool_full) (\<lambda>_. ignoring (evict_pod (req_PodNamespace req) (req_PodName req)))
    else ret ()"
  have "attempt (allocate (req_ContainerID req) (req_PodName req) (req_PodNamespace req)) w
      = Some (Ok (Inl ErrNoFreeIPs), w)"
    by (simp add: allocate_full [OF inv])
  with run have step: "andthen ?m (\<lambda>_. throw (Status ''Internal'' ''Error allocating address: %q'' ErrNoFreeIPs)) w
      = Some (r, w')"
    by (simp add: Add_svc)
  have "unchanging pool_view (andthen ?m
      (\<lambda>_. throw (Status ''Internal'' ''Error allocating address: %q'' ErrNoFreeIPs) :: ('w, add_response) io))"
    by (auto intro!: unchanging_andthen notices_keep_pool simp del: ret_def throw_def)
  from unchangingD [OF this step] have "owner w' = owner w" using same_pool by blast
  moreover have "\<forall>resp. r \<noteq> Ok resp" using step by (cases rule: andthen_cases) auto
  ultimately show ?thesis by blast
qed

text \<open>Taking back what was added leaves the pool as it was.\<close>

lemma Del_Add:
  assumes inv: "pool_inv w" and none: "req_ContainerID req \<notin> ran (owner w)"
    and add: "Add (svc cfg) req w = Some (Ok resp, w1)"
    and del: "Del (svc cfg) (req_ContainerID req) w1 = Some (Ok (), w2)"
  shows "owner w2 = owner w"
proof -
  from Add_Ok [OF inv add] obtain ip where ip: "owner w ip = None" "pool_inv w1"
    "owner w1 = (owner w)(ip \<mapsto> req_ContainerID req)" by blast
  have rel: "release (req_ContainerID req) w1 = Some (Ok (), w2)"
    using del by (simp add: Del_def svc_simps)
  have "req_ContainerID req \<in> ran (owner w1)" by (auto simp: ip(3) ran_def)
  then obtain k where k: "owner w1 k = Some (req_ContainerID req)" "owner w2 = (owner w1)(k := None)"
    using release_owner [OF ip(2) rel] by auto
  have "k = ip" using k(1) none by (auto simp: ip(3) ran_def split: if_splits)
  then show ?thesis using k(2) ip by auto
qed

end

section \<open>The service of the daemon\<close>

definition daemon_service ::
  "config \<Rightarrow> string \<Rightarrow> 'o cluster \<Rightarrow> 'o file_ops \<Rightarrow> (string \<Rightarrow> nat) \<Rightarrow> (alloc_state \<times> 'o) service"
where
  "daemon_service cfg nodeName cl fs rank =
     NewService cfg
       \<lparr>al_Allocate = Allocate fs, al_ReleaseByContainer = ReleaseByContainer rank fs,
        al_FreeAddressCount = FreeAddressCount\<rparr>
       \<lparr>ev_EvictPod = EvictPod (daemon_reconciler cfg nodeName cl),
        ev_PoolFull = PoolFull (daemon_reconciler cfg nodeName cl),
        ev_PoolNotFull = PoolNotFull (daemon_reconciler cfg nodeName cl)\<rparr>"

interpretation daemon_ipam: ipam FreeAddressCount world_ok world_free "Allocate fs"
    "ReleaseByContainer rank fs" world_owner "EvictPod (daemon_reconciler cfg name cl)"
    "PoolFull (daemon_reconciler cfg name cl)" "PoolNotFull (daemon_reconciler cfg name cl)" fst
  for fs :: "'o file_ops" and rank :: "string \<Rightarrow> nat" and cfg :: config and name :: string and cl :: "'o cluster"
  by unfold_locales (simp_all add: world_defs)

lemma daemon_service_svc: "daemon_service cfg name cl fs rank = daemon_ipam.svc fs rank cfg name cl cfg"
  by (simp add: daemon_service_def daemon_ipam.svc_def)

end
