(* ===== verification/Alloc_Theorems.thy ===== *)
theory Alloc_Theorems
  imports Allocator
begin

text \<open>
  What the allocator guarantees: who gets which address, under any interleaving of calls;
  when an allocation succeeds; what a release frees and what the next allocation picks;
  and that the state on disk is the state of the next start. The last section is a small
  pool on which every hypothesis is met.
\<close>

section \<open>Files that work\<close>

text \<open>A file system on which reading what exists and writing anything succeeds.\<close>

definition working_files :: "'o file_ops \<Rightarrow> ('o \<Rightarrow> string \<rightharpoonup> string) \<Rightarrow> bool" where
  "working_files fs files \<longleftrightarrow> file_system fs files \<and>
     (\<forall>p w. \<exists>w'. os_MkdirAll fs p w = Some (Ok (), w')) \<and>
     (\<forall>p d w. \<exists>w'. os_WriteFile fs p d w = Some (Ok (), w')) \<and>
     (\<forall>p d w. files w p = Some d \<longrightarrow> (\<exists>w'. os_ReadFile fs p w = Some (Ok d, w')))"

lemma map_files_work: "working_files map_files (\<lambda>f. f)"
  using map_files_system by (simp add: working_files_def map_files_def)

lemma Write_works:
  assumes "working_files fs files" "sendable_state s"
  obtains t w' where "Write fs s w = Some (Ok (), w')" "json_marshal enc_state s = Inr t"
    "json_unmarshal dec_state t = Inr (state_norm s)" "files w' = (files w)(state_path s \<mapsto> t)"
proof -
  obtain t where t: "json_marshal enc_state s = Inr t" "json_unmarshal dec_state t = Inr (state_norm s)"
    using state_json.printed.encE [OF assms(2)] .
  obtain w1 where w1: "os_MkdirAll fs (filepath_dir (state_path s)) w = Some (Ok (), w1)"
    using assms(1) unfolding working_files_def by blast
  obtain w2 where w2: "os_WriteFile fs (state_path s) t w1 = Some (Ok (), w2)"
    using assms(1) unfolding working_files_def by blast
  have fsys: "file_system fs files" using assms(1) by (simp add: working_files_def)
  have "files w1 = files w"
    using fsys w1 by (auto simp: file_system_def unchanging_def)
  moreover have "files w2 = (files w1)(state_path s \<mapsto> t)"
    using fsys w2 unfolding file_system_def by (metis (mono_tags, lifting))
  moreover have "Write fs s w = Some (Ok (), w2)"
    using w1 w2 t(1) by (simp add: Write_def of_sum_def)
  ultimately show thesis using that t by simp
qed

lemma write_state_works:
  assumes "working_files fs files" "sendable_state s"
  shows "\<exists>w'. write_state fs (s, w) = Some (Ok (), (s, w'))"
proof -
  obtain w' where "Write fs s w = Some (Ok (), w')" using Write_works [OF assms] by metis
  then show ?thesis by (simp add: write_state_def)
qed

text \<open>An allocation made from sendable ENIs can be sent.\<close>

lemma sendable_add:
  assumes "sendable_state s" "alloc_ok s" "\<not> allocated s (AllocIP a)" "is_v4 (AllocIP a)"
    and "Some e \<in> set (elems (ENIs s))" "ENIIP a = InterfaceIP e" "CIDRBlock e = Some (ENISubnet a)"
  shows "sendable_state (add_allocation s a)"
proof -
  have e: "sendable_eni (Some e)" using assms(1,5) by (auto simp: sendable_state_def list_all_iff)
  then have "sendable_allocation a"
    using assms(4,6,7) by (auto simp: sendable_allocation_def sendable_eni_def sendable_ip_def sendable_net_def)
  moreover have "ip_string (AllocIP a) \<notin> set (map fst (Allocations s))"
    using assms(3) by (simp add: allocated_def map_of_eq_None_iff)
  ultimately show ?thesis using assms(1) by (auto simp: sendable_state_def map_ok_def add_allocation_def)
qed

text \<open>So can the state after a release.\<close>

lemma sendable_drop:
  assumes "sendable_state s" "alloc_ok s" "owners s k \<noteq> None"
  shows "sendable_state (drop_allocation s k)"
proof -
  obtain a where "(k, a) \<in> set (Allocations s)" using assms(3) by (auto simp: owners_def dest: map_of_SomeD)
  then have "is_v4 (parse_ip k)"
    using assms(2) by (auto simp: alloc_ok_def keys_ok_def parse_ip_string_norm)
  then have "sendable_ip (parse_ip k)" by (simp add: sendable_ip_def)
  moreover have "map_ok sendable_allocation (AList.delete k (Allocations s))"
    using assms(1) by (simp add: sendable_state_def map_ok_def distinct_delete) (auto simp: AList.delete_eq)
  ultimately show ?thesis using assms(1) by (simp add: sendable_state_def drop_allocation_def)
qed

lemma allocate_sendable:
  assumes "sendable_state s" "alloc_ok s" "Allocate fs cid name ns (s, w) = Some (r, (s', w'))"
  shows "sendable_state s'"
proof (rule Allocate_result [OF assms(2,3)])
  fix a e
  assume a: "AllocIP a \<in> set (free_ips s)" "is_v4 (AllocIP a)" "Some e \<in> set (elems (ENIs s))"
    "ENIIP a = InterfaceIP e" "CIDRBlock e = Some (ENISubnet a)" "fst (s', w') = add_allocation s a"
  have "\<not> allocated s (AllocIP a)" using a(1) by (simp add: free_ips_def)
  from sendable_add [OF assms(1,2) this a(2-5)] a(6) show ?thesis by simp
qed (use assms(1) in simp)

lemma release_works:
  assumes "alloc_ok s" "sendable_state s" "working_files fs files"
  shows "\<exists>s' w'. ReleaseByContainer rank fs cid (s, w) = Some (Ok (), (s', w'))"
proof (cases rule: Release_state [OF assms(1), of cid rank fs w])
  case 1
  then show ?thesis using write_state_works [OF assms(3,2), of w] by auto
next
  case (2 k)
  then have "sendable_state (drop_allocation s k)" using sendable_drop [OF assms(2,1)] by simp
  then show ?thesis using write_state_works [OF assms(3), of _ w] 2(2) by metis
qed

section \<open>Allocation\<close>

text \<open>
  C7. An allocation gives its container an address of the pool that nobody had, with the
  primary address and the subnet of the ENI the address belongs to; nobody else's address
  changes, one address fewer is free, and the state stays well-formed.
\<close>

theorem allocate_gives_free_address:
  assumes "alloc_ok s" "Allocate fs cid name ns (s, w) = Some (Ok a, (s', w'))"
  shows "AllocIP a \<in> set (pool s) \<and> owners s (ip_string (AllocIP a)) = None \<and>
    owners s' = (owners s)(ip_string (AllocIP a) \<mapsto> cid) \<and>
    (\<exists>e. Some e \<in> set (elems (ENIs s)) \<and> (\<exists>x \<in> set (elems (IPs e)). ip_equal x (AllocIP a)) \<and>
      ENIIP a = InterfaceIP e \<and> CIDRBlock e = Some (ENISubnet a)) \<and>
    length (free_ips s) = Suc (length (free_ips s')) \<and> alloc_ok s'"
proof (rule Allocate_result [OF assms])
  fix b e
  assume b: "AllocIP b \<in> set (free_ips s)" "is_v4 (AllocIP b)" "ContainerID b = cid"
    "Some e \<in> set (elems (ENIs s))" "\<exists>x \<in> set (elems (IPs e)). ip_equal x (AllocIP b)"
    "ENIIP b = InterfaceIP e" "CIDRBlock e = Some (ENISubnet b)"
    "fst (s', w') = add_allocation s b" "\<And>c. Ok a = Ok c \<Longrightarrow> c = b"
  then have "a = b" by blast
  moreover have "AllocIP b \<in> set (pool s)" "\<not> allocated s (AllocIP b)"
    using b(1) by (simp_all add: free_ips_def)
  ultimately show ?thesis
    using b(2-8) alloc_ok_add [OF assms(1)] free_ips_add [OF assms(1) b(1)]
    by (auto simp: owners_add allocated_owners)
qed simp

lemma allocate_works_if_written:
  assumes "alloc_ok s" "sendable_state s"
    and "\<And>s w. sendable_state s \<Longrightarrow> \<exists>w'. write_state fs (s, w) = Some (Ok (), (s, w'))" "free_ips s \<noteq> []"
  shows "\<exists>a s' w'. Allocate fs cid name ns (s, w) = Some (Ok a, (s', w'))"
proof -
  from allocate_locked_free [OF assms(1,4), of fs cid name ns w]
  obtain a e where a: "allocate_locked fs cid name ns (s, w) = andthen (write_state fs) (\<lambda>_. ret a) (add_allocation s a, w)"
    "AllocIP a \<in> set (free_ips s)" "is_v4 (AllocIP a)"
    "Some e \<in> set (elems (ENIs s))" "ENIIP a = InterfaceIP e" "CIDRBlock e = Some (ENISubnet a)"
    by metis
  have "\<not> allocated s (AllocIP a)" using a(2) by (simp add: free_ips_def)
  then have "sendable_state (add_allocation s a)"
    using sendable_add [OF assms(2,1) _ a(3-6)] by simp
  from assms(3) [OF this, of w]
  obtain w' where "write_state fs (add_allocation s a, w) = Some (Ok (), (add_allocation s a, w'))" by blast
  then show ?thesis using a(1) by (simp add: Allocate_free [OF assms(1,4)])
qed

lemma allocate_works:
  assumes "alloc_ok s" "sendable_state s" "working_files fs files" "free_ips s \<noteq> []"
  shows "\<exists>a s' w'. Allocate fs cid name ns (s, w) = Some (Ok a, (s', w'))"
  by (rule allocate_works_if_written [OF assms(1,2) write_state_works [OF assms(3)] assms(4)])

text \<open>
  C8. On files that work, an allocation succeeds exactly when an address is free; when none
  is, it reports \<open>ErrNoFreeIPs\<close> and changes nothing. In no case does it fail to return.
\<close>

theorem allocate_succeeds_iff_free:
  assumes "alloc_ok s" "sendable_state s" "working_files fs files"
  shows "if free_ips s = [] then Allocate fs cid name ns (s, w) = Some (Fail ErrNoFreeIPs, (s, w))
    else \<exists>a s' w'. Allocate fs cid name ns (s, w) = Some (Ok a, (s', w'))"
  using allocate_works [OF assms] by (simp add: Allocate_full [OF assms(1)])

text \<open>
  Contrary to its documentation, \<open>Allocate\<close> does not report \<open>ErrEmptyPool\<close> for a node
  without addresses: the count that comes first already answers \<open>ErrNoFreeIPs\<close>.
\<close>

theorem empty_pool_is_no_free_ips:
  assumes "alloc_ok s" "pool s = []"
  shows "Allocate fs cid name ns (s, w) = Some (Fail ErrNoFreeIPs, (s, w)) \<and>
    allocate_locked fs cid name ns (s, w) = Some (Fail ErrEmptyPool, (s, w))"
proof -
  obtain es where "live_enis s = Some es" "pool s = pool_ips es"
    using live_enis_ok [OF alloc_ok_state(2) [OF assms(1)]] by metis
  then have "allocate_locked fs cid name ns (s, w) = Some (Fail ErrEmptyPool, (s, w))"
    using assms(2) by (simp add: allocate_locked_def)
  moreover have "free_ips s = []" by (simp add: free_ips_def assms(2))
  ultimately show ?thesis by (simp add: Allocate_full [OF assms(1)])
qed

text \<open>
  The count is outside the lock. A caller that counted a free address and lost it to
  another before it took the lock gets neither of the allocator's two errors, so nothing
  that looks for \<open>ErrNoFreeIPs\<close> recognises it.
\<close>

theorem lost_race_is_no_pool_error:
  assumes "alloc_ok s" "free_ips s = []" "pool s \<noteq> []"
  shows "allocate_locked fs cid name ns (s, w) = Some (Fail (Errorf ''Could not allocate IP'' []), (s, w))"
proof -
  obtain es where es: "live_enis s = Some es" "pool s = pool_ips es"
    using live_enis_ok [OF alloc_ok_state(2) [OF assms(1)]] by metis
  have "\<forall>ip \<in> set (pool s). allocated s ip" using assms(2) by (auto simp: free_ips_def filter_empty_conv)
  then have "reserve s (pool s) = nil_ip" by (rule reserve_full)
  then show ?thesis using es assms(3) by (simp add: allocate_locked_def)
qed

text \<open>
  C37. An allocation that fails for another reason than a full pool, such as a state file
  that cannot be written, has taken an address all the same.
\<close>

theorem failed_allocation_holds_address:
  assumes "alloc_ok s" "Allocate fs cid name ns (s, w) = Some (Fail e, (s', w'))" "e \<noteq> ErrNoFreeIPs"
  shows "\<exists>k. owners s k = None \<and> owners s' = (owners s)(k \<mapsto> cid) \<and>
    length (free_ips s) = Suc (length (free_ips s'))"
proof (rule Allocate_result [OF assms(1,2)])
  fix b
  assume b: "AllocIP b \<in> set (free_ips s)" "ContainerID b = cid" "fst (s', w') = add_allocation s b"
  then have "\<not> allocated s (AllocIP b)" by (simp add: free_ips_def)
  with b free_ips_add [OF assms(1) b(1)] show ?thesis
    by (intro exI [of _ "ip_string (AllocIP b)"]) (simp add: owners_add allocated_owners)
qed (use assms(3) in simp)

section \<open>Interleavings\<close>

text \<open>
  Any number of callers: those that have passed the count but not yet taken the lock are in
  \<open>waiting\<close>; \<open>held\<close> has the addresses given out, until their container is released. The
  pool can be replaced at any time.
\<close>

record 'o traffic =
  world :: "alloc_state \<times> 'o"
  waiting :: "(string \<times> string \<times> string) list"
  held :: "(string \<times> string) list"

inductive traffic_step :: "'o file_ops \<Rightarrow> 'o traffic \<Rightarrow> 'o traffic \<Rightarrow> bool" for fs where
  counted: "count_free (world t) = Some (Ok (), w') \<Longrightarrow>
     traffic_step fs t (t\<lparr>world := w', waiting := (cid, name, ns) # waiting t\<rparr>)"
| turned_away: "count_free (world t) = Some (Fail e, w') \<Longrightarrow> traffic_step fs t (t\<lparr>world := w'\<rparr>)"
| given: "(cid, name, ns) \<in> set (waiting t) \<Longrightarrow>
     allocate_locked fs cid name ns (world t) = Some (Ok a, w') \<Longrightarrow>
     traffic_step fs t (t\<lparr>world := w', waiting := remove1 (cid, name, ns) (waiting t),
       held := (ip_string (AllocIP a), cid) # held t\<rparr>)"
| refused: "(cid, name, ns) \<in> set (waiting t) \<Longrightarrow>
     allocate_locked fs cid name ns (world t) = Some (Fail e, w') \<Longrightarrow>
     traffic_step fs t (t\<lparr>world := w', waiting := remove1 (cid, name, ns) (waiting t)\<rparr>)"
| released: "ReleaseByContainer rank fs cid (world t) = Some (r, w') \<Longrightarrow>
     traffic_step fs t (t\<lparr>world := w', held := filter (\<lambda>h. snd h \<noteq> cid) (held t)\<rparr>)"
| repooled: "enis_ok es \<Longrightarrow> SetENIs fs es (world t) = Some (r, w') \<Longrightarrow>
     traffic_step fs t (t\<lparr>world := w'\<rparr>)"

inductive traffic_reach :: "'o file_ops \<Rightarrow> 'o traffic \<Rightarrow> 'o traffic \<Rightarrow> bool" for fs and t0 where
  start: "traffic_reach fs t0 t0"
| step: "traffic_reach fs t0 t \<Longrightarrow> traffic_step fs t t' \<Longrightarrow> traffic_reach fs t0 t'"

definition traffic_ok :: "'o traffic \<Rightarrow> bool" where
  "traffic_ok t \<longleftrightarrow> alloc_ok (fst (world t)) \<and>
     (\<forall>(k, cid) \<in> set (held t). owners (fst (world t)) k = Some cid) \<and> distinct (map fst (held t))"

lemma SetENIs_state: "SetENIs fs es (s, w) = Some (r, w') \<Longrightarrow> fst w' = s\<lparr>ENIs := es\<rparr>"
  by (auto simp: SetENIs_def dest: write_state_fst)

lemma owners_SetENIs [simp]: "owners (s\<lparr>ENIs := es\<rparr>) = owners s"
  by (simp add: owners_def fun_eq_iff)

lemma alloc_ok_SetENIs: "alloc_ok s \<Longrightarrow> enis_ok es \<Longrightarrow> alloc_ok (s\<lparr>ENIs := es\<rparr>)"
  by (simp add: alloc_ok_def keys_ok_def)

lemma allocate_locked_result:
  assumes ok: "alloc_ok s" and run: "allocate_locked fs cid name ns (s, w) = Some (r, w')"
  obtains (none) "fst w' = s" "\<And>a. r \<noteq> Ok a" "free_ips s = []"
    | (free) a where "\<not> allocated s (AllocIP a)" "is_v4 (AllocIP a)" "ContainerID a = cid"
      "fst w' = add_allocation s a" "\<And>b. r = Ok b \<Longrightarrow> b = a" "AllocIP a \<in> set (pool s)"
proof (cases "free_ips s = []")
  case True
  have "fst w' = s \<and> (\<forall>a. r \<noteq> Ok a)"
  proof (cases "pool s = []")
    case True
    obtain es where "live_enis s = Some es" "pool s = pool_ips es"
      using live_enis_ok [OF alloc_ok_state(2) [OF ok]] by metis
    with True run show ?thesis by (auto simp: allocate_locked_def)
  next
    case False
    obtain es where es: "live_enis s = Some es" "pool s = pool_ips es"
      using live_enis_ok [OF alloc_ok_state(2) [OF ok]] by metis
    have "reserve s (pool s) = nil_ip"
      using True by (intro reserve_full) (auto simp: free_ips_def filter_empty_conv)
    then show ?thesis using es False run by (auto simp: allocate_locked_def)
  qed
  then show thesis using none True by blast
next
  case False
  have run': "Allocate fs cid name ns (s, w) = Some (r, w')" using run by (simp add: Allocate_free [OF ok False])
  show thesis
  proof (cases rule: Allocate_result [OF ok run'])
    case (2 a e)
    then have "\<not> allocated s (AllocIP a)" "AllocIP a \<in> set (pool s)" by (simp_all add: free_ips_def)
    with 2 free show thesis by blast
  qed (use False in simp_all)
qed

lemma traffic_ok_step:
  assumes ok: "traffic_ok t" and step: "traffic_step fs t t'"
  shows "traffic_ok t'"
proof -
  obtain s w where world: "world t = (s, w)" by force
  have s: "alloc_ok s" using ok by (simp add: traffic_ok_def world)
  from step show ?thesis
  proof cases
    case (counted w' cid name ns)
    then show ?thesis using ok count_free_ok [OF s, of w] by (auto simp: traffic_ok_def world split: if_splits)
  next
    case (turned_away e w')
    then show ?thesis using ok count_free_ok [OF s, of w] by (auto simp: traffic_ok_def world split: if_splits)
  next
    case (given cid name ns a w')
    show ?thesis
    proof (cases rule: allocate_locked_result [OF s given(3) [unfolded world]])
      case (2 b)
      then have "b = a" "owners s (ip_string (AllocIP a)) = None" by (auto simp: allocated_owners)
      with 2 given ok s show ?thesis
        by (auto simp: traffic_ok_def world owners_add alloc_ok_add split: prod.splits)
    qed blast
  next
    case (refused cid name ns e w')
    show ?thesis
    proof (cases rule: allocate_locked_result [OF s refused(3) [unfolded world]])
      case 1
      with refused ok show ?thesis by (auto simp: traffic_ok_def world)
    next
      case (2 b)
      then have "owners s (ip_string (AllocIP b)) = None" by (simp add: allocated_owners)
      with 2 refused ok s show ?thesis
        by (auto simp: traffic_ok_def world owners_add alloc_ok_add split: prod.splits)
    qed
  next
    case (released rank cid r w')
    show ?thesis
    proof (cases rule: Release_result [OF s released(2) [unfolded world]])
      case 1
      with released ok show ?thesis by (auto simp: traffic_ok_def world intro: distinct_map_filter)
    next
      case (2 k)
      with released ok s show ?thesis
        by (auto simp: traffic_ok_def world owners_drop alloc_ok_drop intro: distinct_map_filter)
    qed
  next
    case (repooled es r w')
    then show ?thesis using ok s SetENIs_state [of fs es s w r w']
      by (simp add: traffic_ok_def world alloc_ok_SetENIs)
  qed
qed

text \<open>
  C3. However calls interleave, and whichever of them fail, an address is never held by two
  containers, and the allocator's record has every holder.
\<close>

theorem no_double_allocation:
  assumes "traffic_reach fs \<lparr>world = (s, w), waiting = [], held = []\<rparr> t" "alloc_ok s"
  shows "distinct (map fst (held t)) \<and> (\<forall>(k, cid) \<in> set (held t). owners (fst (world t)) k = Some cid)"
proof -
  have "traffic_ok \<lparr>world = (s, w), waiting = [], held = []\<rparr>"
    using assms(2) by (simp add: traffic_ok_def)
  with assms(1) have "traffic_ok t"
    by (induction rule: traffic_reach.induct) (blast intro: traffic_ok_step)+
  then show ?thesis by (simp add: traffic_ok_def)
qed

section \<open>Release\<close>

text \<open>
  C9. Releasing a container frees one of its addresses, if it has any, and remembers it as
  the last freed; a container that has none leaves the state as it was. So a second release,
  or one of a container that was never added, does no harm.
\<close>

theorem release_frees_one:
  assumes "alloc_ok s" "ReleaseByContainer rank fs cid (s, w) = Some (r, (s', w'))"
  shows "(if cid \<in> ran (owners s)
      then \<exists>k. owners s k = Some cid \<and> owners s' = (owners s)(k := None) \<and> LastFreedIP s' = parse_ip k
      else s' = s) \<and> pool s' = pool s \<and> alloc_ok s'"
  by (cases rule: Release_result [OF assms])
    (use assms(1) in \<open>auto simp: owners_drop ranI alloc_ok_drop drop_allocation_def
      pool_def live_enis_def alloc_ok_drop [unfolded drop_allocation_def]
      owners_drop [unfolded drop_allocation_def]\<close>)

subsection \<open>Which address comes next\<close>

lemma shuffle_from_last:
  assumes "j < length ips" "i \<le> j" "ip_equal (ips ! j) freed"
    and "\<And>l. l < length ips \<Longrightarrow> ip_equal (ips ! l) freed \<Longrightarrow> l = j"
  shows "last (shuffle_from freed i ips) = ips ! j"
  using assms
proof (induction freed i ips arbitrary: j rule: shuffle_from.induct)
  case (1 freed i ips)
  show ?case
  proof (cases "i = j")
    case True
    let ?n = "length ips" and ?new = "drop (j + 1) ips @ take (j + 1) ips"
    have at: "?new ! l = (if l < ?n - (j + 1) then ips ! (l + (j + 1)) else ips ! (l - (?n - (j + 1))))"
      if "l < ?n" for l
      using that 1(2) by (auto simp: nth_append add.commute)
    have last: "?new ! (?n - 1) = ips ! j"
    proof -
      have "?n - 1 < ?n" "\<not> ?n - 1 < ?n - (j + 1)" "?n - 1 - (?n - (j + 1)) = j" using 1(2) by arith+
      then show ?thesis using at [of "?n - 1"] by simp
    qed
    have step: "shuffle_from freed i ips = shuffle_from freed (i + 1) ?new"
      using 1(2,4) True by (subst shuffle_from.simps) simp
    show ?thesis
    proof (cases "j + 1 < ?n")
      case False
      then have "shuffle_from freed i ips = ips"
        using step True 1(2) by (subst (asm) (2) shuffle_from.simps) simp
      moreover have "j = ?n - 1" using False 1(2) by simp
      moreover have "ips \<noteq> []" using 1(2) by auto
      ultimately show ?thesis by (simp add: last_conv_nth)
    next
      case more: True
      have "last (shuffle_from freed (i + 1) (if ip_equal (ips ! i) freed then drop (i + 1) ips @ take (i + 1) ips else ips))
          = (if ip_equal (ips ! i) freed then drop (i + 1) ips @ take (i + 1) ips else ips) ! (?n - 1)"
      proof (rule 1(1))
        show "i < ?n" using 1(2) True by simp
        fix l assume l: "l < length (if ip_equal (ips ! i) freed then drop (i + 1) ips @ take (i + 1) ips else ips)"
          "ip_equal ((if ip_equal (ips ! i) freed then drop (i + 1) ips @ take (i + 1) ips else ips) ! l) freed"
        then have ln: "l < ?n" using 1(2) True by (auto split: if_splits)
        have "(if l < ?n - (j + 1) then l + (j + 1) else l - (?n - (j + 1))) = j"
          using l(2) ln at [OF ln] 1(2,4) True by (intro 1(5)) (auto split: if_splits)
        then show "l = ?n - 1" using ln by (auto split: if_splits)
      qed (use 1(2,4) True more last in auto)
      then show ?thesis using step last True 1(4) by simp
    qed
  next
    case False
    then have "i < length ips" "\<not> ip_equal (ips ! i) freed" using 1(2,3) 1(5) [of i] by auto
    then have same: "(if ip_equal (ips ! i) freed then drop (i + 1) ips @ take (i + 1) ips else ips) = ips"
      by simp
    have step: "shuffle_from freed i ips = shuffle_from freed (i + 1) ips"
      using \<open>i < length ips\<close> \<open>\<not> ip_equal (ips ! i) freed\<close> by (subst shuffle_from.simps) simp
    have "last (shuffle_from freed (i + 1) ips) = ips ! j"
      using 1(1) [OF \<open>i < length ips\<close>, of j, unfolded same, OF 1(2) _ 1(4) 1(5)] 1(3) False by simp
    then show ?thesis unfolding step .
  qed
qed

lemma reserve_last_free:
  assumes "walk_order s ips \<noteq> []" "\<not> allocated s (last (walk_order s ips))"
  shows "reserve s ips = last (walk_order s ips)"
proof -
  obtain xs x where "walk_order s ips = xs @ [x]" using assms(1) by (metis append_butlast_last_id)
  with assms(2) show ?thesis by (simp add: reserve_last)
qed

lemma walk_order_last:
  assumes "LastFreedIP s \<noteq> nil_ip" "ip \<in> set ips" "ip_equal ip (LastFreedIP s)"
    and unique: "\<And>x y. x \<in> set ips \<Longrightarrow> y \<in> set ips \<Longrightarrow> ip_equal x y \<Longrightarrow> x = y" and "distinct ips"
  shows "last (walk_order s ips) = ip"
proof -
  obtain j where j: "j < length (sort ips)" "sort ips ! j = ip"
    using assms(2) by (metis in_set_conv_nth set_sort)
  have "last (shuffle_from (LastFreedIP s) 0 (sort ips)) = sort ips ! j"
  proof (rule shuffle_from_last)
    fix l assume l: "l < length (sort ips)" "ip_equal (sort ips ! l) (LastFreedIP s)"
    then have "ip_equal (sort ips ! l) ip" using assms(3) ip_equal_sym ip_equal_trans by metis
    moreover have "sort ips ! l \<in> set ips" using l(1) by (metis nth_mem set_sort)
    ultimately have "sort ips ! l = sort ips ! j" using unique assms(2) j(2) by metis
    then show "l = j" using l(1) j(1) assms(5) by (metis distinct_sort nth_eq_iff_index_eq)
  qed (use j assms(3) in auto)
  then show ?thesis using assms(1) j(2) by (simp add: walk_order_def)
qed

text \<open>
  C36. The address a container has just given back is the one the next allocation gives out:
  the shuffle puts it at the end, and the walk, which does not stop at the first free
  address, ends there. The comments say the opposite: the last freed address is tracked to
  allocate \<^emph>\<open>far away\<close> from it.
\<close>

theorem freed_address_is_reused_next:
  assumes ok: "alloc_ok s" and owned: "owners s k = Some cid" "\<And>l. owners s l = Some cid \<Longrightarrow> l = k"
    and pool: "ip \<in> set (pool s)" "ip_string ip = k"
    and rel: "ReleaseByContainer rank fs cid (s, w) = Some (r, (s1, w1))"
    and alloc: "Allocate fs cid2 name ns (s1, w1) = Some (Ok a, w2)"
  shows "ip_string (AllocIP a) = k"
proof -
  have s1: "s1 = drop_allocation s k"
    by (cases rule: Release_result [OF ok rel]) (use owned in \<open>auto simp: ran_def\<close>)
  have ok1: "alloc_ok s1" unfolding s1 by (rule alloc_ok_drop [OF ok])
  obtain es where es: "distinct (map ip_string (pool s))" "\<And>ip. ip \<in> set (pool s) \<Longrightarrow> is_v4 ip"
    using live_enis_ok [OF alloc_ok_state(2) [OF ok]] by metis
  have "is_v4 ip" using es(2) pool(1) .
  then have freed: "LastFreedIP s1 = ip_norm ip"
    using parse_ip_string_norm by (simp add: s1 drop_allocation_def flip: pool(2))
  have "last (walk_order s1 (pool s)) = ip"
  proof (rule walk_order_last)
    show "LastFreedIP s1 \<noteq> nil_ip" using is_v4_ip_norm [OF \<open>is_v4 ip\<close>] by (auto simp: freed)
    show "ip_equal ip (LastFreedIP s1)"
      unfolding freed using ip_equal_norm [OF \<open>is_v4 ip\<close>] by (simp add: ip_equal_sym)
    show "x = y" if "x \<in> set (pool s)" "y \<in> set (pool s)" "ip_equal x y" for x y
      using that es ip_string_inject [of x y] by (auto simp: distinct_map inj_on_def)
    show "distinct (pool s)" using es(1) by (simp add: distinct_map)
  qed (rule pool(1))
  moreover have "\<not> allocated s1 ip" by (simp add: allocated_owners s1 owners_drop pool(2))
  moreover have "walk_order s1 (pool s) \<noteq> []" using pool(1) by (metis empty_iff list.set(1) set_walk_order)
  ultimately have "reserve s1 (pool s1) = ip" using reserve_last_free [of s1 "pool s"] by (simp add: s1)
  moreover have "AllocIP a = reserve s1 (pool s1)"
  proof (cases "free_ips s1 = []")
    case True
    with alloc show ?thesis by (simp add: Allocate_full [OF ok1])
  next
    case False
    show ?thesis by (cases rule: Allocate_result [OF ok1 alloc]) auto
  qed
  ultimately show ?thesis using pool(2) by simp
qed

section \<open>Restarts\<close>

text \<open>What a state means does not change on its way through the file.\<close>

lemma owners_state_norm:
  "sendable_state s \<Longrightarrow> owners ((state_norm s)\<lparr>state_path := p\<rparr>) = owners s"
  by (simp add: fun_eq_iff owners_def state_norm_def sendable_state_def map_ok_def
      map_of_map_norm option.map_comp comp_def allocation_norm_def)

lemma free_ips_state_norm:
  assumes "sendable_state s" "alloc_ok s"
  shows "map ip_string (free_ips ((state_norm s)\<lparr>state_path := p\<rparr>)) = map ip_string (free_ips s)" (is "_ (free_ips ?s) = _")
proof -
  obtain es where es: "live_enis s = Some es" "pool s = pool_ips es" "\<And>ip. ip \<in> set (pool s) \<Longrightarrow> is_v4 ip"
    using live_enis_ok [OF alloc_ok_state(2) [OF assms(2)]] by metis
  have "elems (ENIs s) = map Some es" using es(1) those_map_Some by (simp add: live_enis_def)
  then have "elems (ENIs ?s) = map Some (map eni_norm es)"
    by (cases "ENIs s") (simp_all add: state_norm_def)
  then have "live_enis ?s = Some (map eni_norm es)" unfolding live_enis_def
    by (simp only: those_map_Some_eq)
  moreover have "elems (IPs (eni_norm e)) = map ip_norm (elems (IPs e))" for e
    by (cases "IPs e") (simp_all add: eni_norm_def)
  ultimately have "pool ?s = map ip_norm (pool s)"
    by (simp add: pool_def es(1) pool_ips_concat map_concat comp_def)
  then show ?thesis
    using es(3) by (simp add: free_ips_owners owners_state_norm [OF assms(1)] filter_map comp_def cong: filter_cong)
qed

text \<open>
  C10. A start from the state file goes on where the last write stopped: every address has
  the owner it had, and the same addresses are free.
\<close>

theorem restart_restores_state:
  assumes "working_files fs files" "sendable_state s" "alloc_ok s" "state_path s \<noteq> []"
  shows "\<exists>w1 w2 s'. Write fs s w = Some (Ok (), w1) \<and>
    New fs (state_path s) w1 = Some (Ok s', w2) \<and>
    owners s' = owners s \<and> map ip_string (free_ips s') = map ip_string (free_ips s) \<and>
    state_path s' = state_path s"
proof -
  obtain t w1 where w1: "Write fs s w = Some (Ok (), w1)" "json_unmarshal dec_state t = Inr (state_norm s)"
    "files w1 = (files w)(state_path s \<mapsto> t)"
    using Write_works [OF assms(1,2)] by metis
  have fsys: "file_system fs files" using assms(1) by (simp add: working_files_def)
  then have "plain_call (os_Stat fs (state_path s))" by (simp add: file_system_def)
  then obtain st w2 where st: "attempt (os_Stat fs (state_path s)) w1 = Some (Ok st, w2)"
    "st = Inr () \<or> (\<exists>e. st = Inl e \<and> os_Stat fs (state_path s) w1 = Some (Fail e, w2))"
    by (rule plain_callE [where w = w1]) (auto simp: attempt_def)
  have "files w2 = files w1" using fsys st by (auto simp: file_system_def unchanging_def attempt_def
      split: option.splits outcome.splits)
  then obtain w3 where w3: "os_ReadFile fs (state_path s) w2 = Some (Ok t, w3)"
    using assms(1) w1(3) unfolding working_files_def by (metis fun_upd_same)
  have exists: "case st of Inl err \<Rightarrow> \<not> is_not_exist err | Inr _ \<Rightarrow> True"
    using st(2) file_system_stat [OF fsys, of "state_path s" w1 _ w2] w1(3) by (auto split: sum.splits)
  let ?s = "(state_norm s)\<lparr>state_path := state_path s\<rparr>"
  have "New fs (state_path s) w1 = Some (Ok ?s, w3)"
    using assms(4) st(1) exists w3 w1(2) by (simp add: New_def of_sum_def Let_def)
  moreover note owners_state_norm [OF assms(2)] free_ips_state_norm [OF assms(2,3)]
  ultimately show ?thesis using w1(1) by (intro exI [of _ w1] exI [of _ w3] exI [of _ ?s]) simp
qed

section \<open>A small pool\<close>

definition demo_subnet :: ip_net where
  "demo_subnet = \<lparr>net_IP = IP [10, 0, 0, 0], net_Mask = [255, 255, 255, 0]\<rparr>"

definition demo_eni :: "net_ip list \<Rightarrow> eni" where
  "demo_eni ips = \<lparr>EniID = ''eni-1'', Attached = True, InterfaceIP = IP [10, 0, 0, 10], Index = 1,
     CIDRBlock = Some demo_subnet, IPs = Some ips, MACAddress = ''0a:00:00:00:00:01''\<rparr>"

definition demo_allocation :: "string \<Rightarrow> net_ip \<Rightarrow> allocation" where
  "demo_allocation cid ip = \<lparr>ContainerID = cid, PodName = ''web'', PodNamespace = ''default'', AllocIP = ip,
     ENIIP = IP [10, 0, 0, 10], ENISubnet = demo_subnet\<rparr>"

text \<open>One ENI with two addresses, both free; and the same with the first one allocated.\<close>

definition demo_free :: alloc_state where
  "demo_free = \<lparr>ENIs = Some [Some (demo_eni [IP [10, 0, 0, 11], IP [10, 0, 0, 12]])],
     Allocations = [], LastFreedIP = nil_ip, state_path = ''/state.json''\<rparr>"

definition demo_busy :: alloc_state where
  "demo_busy = demo_free\<lparr>Allocations :=
     [(''10.0.0.11'', demo_allocation ''c1'' (IP [10, 0, 0, 11]))]\<rparr>"

definition demo_full :: alloc_state where
  "demo_full = demo_busy\<lparr>ENIs := Some [Some (demo_eni [IP [10, 0, 0, 11]])]\<rparr>"

lemmas demo_defs = demo_free_def demo_busy_def demo_full_def demo_eni_def demo_allocation_def demo_subnet_def

lemma demo_v4 [simp]: "is_v4 (IP [a, b, c, d])"
  by (simp add: is_v4_def ip_to4_def)

lemma demo_text [simp]: "ip_string (IP [a, b, c, d]) = dotted a b c d"
  by (rule ip_string_dotted) (simp add: ip_to4_def)

lemma demo_texts [simp]:
  "dotted 10 0 0 11 = ''10.0.0.11''" "dotted 10 0 0 12 = ''10.0.0.12''"
  by code_simp+

lemma demo_ok: "alloc_ok demo_free" "alloc_ok demo_busy" "alloc_ok demo_full"
  by (simp_all add: alloc_ok_def keys_ok_def enis_ok_def demo_defs)

lemma demo_mask: "[255, 255, 255, 0] = cidr_mask 24 32"
  by (simp add: cidr_mask_def mask_byte_def upt_rec)

lemma demo_sendable: "sendable_state demo_free" "sendable_state demo_busy"
proof -
  have "\<exists>l \<le> 32. [255, 255, 255, 0] = cidr_mask l 32"
    using demo_mask by (intro exI [of _ 24]) simp
  then show "sendable_state demo_free" "sendable_state demo_busy"
    by (simp_all add: sendable_state_def sendable_eni_def map_ok_def demo_defs sendable_ip_def int64_def
      sendable_net_def sendable_allocation_def)
qed

lemma demo_pools:
  "pool demo_free = [IP [10, 0, 0, 11], IP [10, 0, 0, 12]]" "pool demo_busy = [IP [10, 0, 0, 11], IP [10, 0, 0, 12]]"
  "pool demo_full = [IP [10, 0, 0, 11]]"
  by (simp_all add: pool_def live_enis_def pool_ips_def demo_defs)

lemma demo_free_ips:
  "free_ips demo_free = [IP [10, 0, 0, 11], IP [10, 0, 0, 12]]" "free_ips demo_busy = [IP [10, 0, 0, 12]]"
  "free_ips demo_full = []"
  by (simp_all add: free_ips_def demo_pools allocated_def) (simp_all add: demo_defs)

lemma demo_owners: "owners demo_busy = [''10.0.0.11'' \<mapsto> ''c1'']"
  by (auto simp: owners_def demo_defs fun_eq_iff)

lemma demo_allocates: "\<exists>a s' w'. Allocate map_files cid name ns (demo_free, f) = Some (Ok a, (s', w'))"
  using allocate_works [OF demo_ok(1) demo_sendable(1) map_files_work] by (simp add: demo_free_ips)

lemma demo_drop_sendable: "sendable_state (drop_allocation demo_busy ''10.0.0.11'')"
proof -
  have "\<exists>l \<le> 32. [255, 255, 255, 0] = cidr_mask l 32"
    using demo_mask by (intro exI [of _ 24]) simp
  moreover have "parse_ip ''10.0.0.11'' = ipv4 10 0 0 11"
    using parse_ip_string [of "IP [10, 0, 0, 11]" 10 0 0 11] by (simp add: ip_to4_def)
  moreover have "is_v4 (ipv4 10 0 0 11)" by (simp add: is_v4_def)
  ultimately show ?thesis
    by (simp add: sendable_state_def sendable_eni_def map_ok_def demo_defs sendable_ip_def int64_def
      sendable_net_def sendable_allocation_def drop_allocation_def)
qed

lemma demo_release:
  "\<exists>w'. ReleaseByContainer rank map_files ''c1'' (demo_busy, f) =
     Some (Ok (), (drop_allocation demo_busy ''10.0.0.11'', w'))"
proof -
  obtain w' where "write_state map_files (drop_allocation demo_busy ''10.0.0.11'', f) =
      Some (Ok (), (drop_allocation demo_busy ''10.0.0.11'', w'))"
    using write_state_works [OF map_files_work demo_drop_sendable] by blast
  then show ?thesis
    by (cases rule: Release_state [OF demo_ok(2), of "''c1''" rank map_files f])
      (auto simp: demo_owners ran_def split: if_splits)
qed

theorem allocate_gives_free_address_witness:
  "\<exists>a s' w'. Allocate map_files ''c2'' ''web'' ''default'' (demo_free, Map.empty) = Some (Ok a, (s', w')) \<and>
     AllocIP a \<in> set (pool demo_free) \<and> owners s' = (owners demo_free)(ip_string (AllocIP a) \<mapsto> ''c2'')"
  using demo_allocates [of "''c2''" "''web''" "''default''" Map.empty] allocate_gives_free_address [OF demo_ok(1)]
  by metis

theorem allocate_succeeds_iff_free_witness:
  "\<exists>a s' w'. Allocate map_files ''c2'' ''web'' ''default'' (demo_busy, Map.empty) = Some (Ok a, (s', w'))"
  using allocate_succeeds_iff_free [OF demo_ok(2) demo_sendable(2) map_files_work,
    of "''c2''" "''web''" "''default''" Map.empty] by (simp add: demo_free_ips)

theorem empty_pool_is_no_free_ips_witness:
  "Allocate map_files ''c'' ''web'' ''default'' (demo_free\<lparr>ENIs := None\<rparr>, Map.empty) =
     Some (Fail ErrNoFreeIPs, (demo_free\<lparr>ENIs := None\<rparr>, Map.empty))"
proof -
  have "alloc_ok (demo_free\<lparr>ENIs := None\<rparr>)" "pool (demo_free\<lparr>ENIs := None\<rparr>) = []"
    by (simp_all add: alloc_ok_def keys_ok_def enis_ok_def demo_defs pool_def live_enis_def pool_ips_def)
  then show ?thesis by (rule empty_pool_is_no_free_ips [THEN conjunct1])
qed

theorem lost_race_is_no_pool_error_witness:
  "allocate_locked map_files ''c2'' ''web'' ''default'' (demo_full, Map.empty) =
     Some (Fail (Errorf ''Could not allocate IP'' []), (demo_full, Map.empty))"
  by (rule lost_race_is_no_pool_error [OF demo_ok(3)]) (simp_all add: demo_free_ips demo_pools)

text \<open>A disk that is full.\<close>

definition full_disk :: "files file_ops" where
  "full_disk = map_files\<lparr>os_WriteFile := \<lambda>p d. throw (ExtErr ''no space left on device'')\<rparr>"

lemma full_disk_write: "\<exists>e. write_state full_disk (s, f) = Some (Fail (Wrapf e ''Error writing state'' []), (s, f))"
  by (cases "json_marshal enc_state s")
    (simp_all add: write_state_def Write_def full_disk_def map_files_def of_sum_def)

lemma full_disk_fails:
  assumes "alloc_ok s" "free_ips s \<noteq> []"
  shows "\<exists>e s'. Allocate full_disk cid name ns (s, f) = Some (Fail e, (s', f)) \<and> e \<noteq> ErrNoFreeIPs"
proof -
  from allocate_locked_free [OF assms, of full_disk cid name ns f]
  obtain a where "allocate_locked full_disk cid name ns (s, f) =
    andthen (write_state full_disk) (\<lambda>_. ret a) (add_allocation s a, f)" by metis
  moreover obtain e where "write_state full_disk (add_allocation s a, f) =
    Some (Fail (Wrapf e ''Error writing state'' []), (add_allocation s a, f))"
    using full_disk_write by metis
  ultimately show ?thesis by (simp add: Allocate_free [OF assms])
qed

theorem failed_allocation_holds_address_witness:
  "\<exists>e s' k. Allocate full_disk ''c2'' ''web'' ''default'' (demo_busy, Map.empty) = Some (Fail e, (s', Map.empty)) \<and>
     owners s' = (owners demo_busy)(k \<mapsto> ''c2'')"
proof -
  obtain e s' where "Allocate full_disk ''c2'' ''web'' ''default'' (demo_busy, Map.empty) = Some (Fail e, (s', Map.empty))"
    "e \<noteq> ErrNoFreeIPs"
    using full_disk_fails [OF demo_ok(2), of "''c2''" "''web''" "''default''" Map.empty] by (auto simp: demo_free_ips)
  with failed_allocation_holds_address [OF demo_ok(2) this] show ?thesis by blast
qed

lemma demo_traffic:
  "\<exists>s w. traffic_reach map_files \<lparr>world = (demo_busy, Map.empty), waiting = [], held = []\<rparr>
     \<lparr>world = (s, w), waiting = [], held = [(''10.0.0.12'', ''c2'')]\<rparr>"
proof -
  let ?t0 = "\<lparr>world = (demo_busy, Map.empty), waiting = [], held = []\<rparr>"
  let ?t1 = "?t0\<lparr>waiting := [(''c2'', ''web'', ''default'')]\<rparr>"
  obtain a s' w' where a: "Allocate map_files ''c2'' ''web'' ''default'' (demo_busy, Map.empty) = Some (Ok a, (s', w'))"
    using allocate_works [OF demo_ok(2) demo_sendable(2) map_files_work, of "''c2''" "''web''" "''default''" Map.empty]
    by (auto simp: demo_free_ips)
  then have locked: "allocate_locked map_files ''c2'' ''web'' ''default'' (world ?t1) = Some (Ok a, (s', w'))"
    using Allocate_free [OF demo_ok(2), of map_files "''c2''" "''web''" "''default''" Map.empty]
    by (simp add: demo_free_ips)
  have ip: "AllocIP a = IP [10, 0, 0, 12]"
    by (cases rule: Allocate_result [OF demo_ok(2) a]) (simp_all add: demo_free_ips)
  have "traffic_step map_files ?t0 (?t0\<lparr>world := world ?t0, waiting := [(''c2'', ''web'', ''default'')]\<rparr>)"
    using traffic_step.counted [of ?t0 "(demo_busy, Map.empty)" map_files "''c2''" "''web''" "''default''"]
      count_free_ok [OF demo_ok(2), of Map.empty] by (simp add: demo_free_ips)
  then have "traffic_reach map_files ?t0 ?t1" by (auto intro: traffic_reach.intros)
  moreover have "traffic_step map_files ?t1
      \<lparr>world = (s', w'), waiting = [], held = [(''10.0.0.12'', ''c2'')]\<rparr>"
    using traffic_step.given [OF _ locked] ip by simp
  ultimately have "traffic_reach map_files ?t0 \<lparr>world = (s', w'), waiting = [], held = [(''10.0.0.12'', ''c2'')]\<rparr>"
    by (rule traffic_reach.step)
  then show ?thesis by blast
qed

theorem no_double_allocation_witness:
  "\<exists>t. traffic_reach map_files \<lparr>world = (demo_busy, Map.empty), waiting = [], held = []\<rparr> t \<and>
     held t = [(''10.0.0.12'', ''c2'')] \<and> owners (fst (world t)) ''10.0.0.12'' = Some ''c2''"
proof -
  obtain s w where reach: "traffic_reach map_files \<lparr>world = (demo_busy, Map.empty), waiting = [], held = []\<rparr>
      \<lparr>world = (s, w), waiting = [], held = [(''10.0.0.12'', ''c2'')]\<rparr>"
    using demo_traffic by blast
  from no_double_allocation [OF this demo_ok(2)] this show ?thesis by fastforce
qed

theorem release_frees_one_witness:
  "\<exists>s' w'. ReleaseByContainer (\<lambda>_. 0) map_files ''c1'' (demo_busy, Map.empty) = Some (Ok (), (s', w')) \<and>
     owners s' = Map.empty \<and> pool s' = pool demo_busy"
proof -
  obtain r s' w' where run: "ReleaseByContainer (\<lambda>_. 0) map_files ''c1'' (demo_busy, Map.empty) = Some (r, (s', w'))" "r = Ok ()"
    using demo_release by metis
  from release_frees_one [OF demo_ok(2) run(1)] run show ?thesis
    by (auto simp: demo_owners ran_def split: if_splits)
qed

theorem freed_address_is_reused_next_witness:
  "\<exists>s1 w1 a w2. ReleaseByContainer (\<lambda>_. 0) map_files ''c1'' (demo_busy, Map.empty) = Some (Ok (), (s1, w1)) \<and>
     Allocate map_files ''c2'' ''web'' ''default'' (s1, w1) = Some (Ok a, w2) \<and> ip_string (AllocIP a) = ''10.0.0.11''"
proof -
  obtain s1 w1 where rel: "ReleaseByContainer (\<lambda>_. 0) map_files ''c1'' (demo_busy, Map.empty) = Some (Ok (), (s1, w1))"
    and s1: "s1 = drop_allocation demo_busy ''10.0.0.11''"
    using demo_release by metis
  obtain a s2 w2 where al: "Allocate map_files ''c2'' ''web'' ''default'' (s1, w1) = Some (Ok a, (s2, w2))"
    using allocate_works [OF alloc_ok_drop [OF demo_ok(2)] demo_drop_sendable map_files_work, of "''c2''" "''web''" "''default''" w1]
    by (auto simp: s1 free_ips_owners owners_drop demo_pools)
  have "ip_string (AllocIP a) = ''10.0.0.11''"
    by (rule freed_address_is_reused_next [OF demo_ok(2) _ _ _ _ rel al, where ip = "IP [10, 0, 0, 11]"])
      (auto simp: demo_owners demo_pools split: if_splits)
  with rel al show ?thesis by blast
qed

theorem restart_restores_state_witness:
  "\<exists>w1 w2 s'. Write map_files demo_busy Map.empty = Some (Ok (), w1) \<and>
     New map_files ''/state.json'' w1 = Some (Ok s', w2) \<and> owners s' = [''10.0.0.11'' \<mapsto> ''c1'']"
  using restart_restores_state [OF map_files_work demo_sendable(2) demo_ok(2), of Map.empty]
  by (auto simp: demo_owners) (auto simp: demo_defs)

end
