(* ===== verification/Ipam_Theorems.thy ===== *)
theory Ipam_Theorems
  imports Ipam_Service Alloc_Theorems
begin

text \<open>
  What the IPAM service guarantees on the daemon's own allocator and reconciler: the facts of
  the locale \<open>ipam\<close>, through its interpretation \<open>daemon_ipam\<close>, with the messages, the order
  of the calls and the taint of the node.
\<close>

section \<open>Add and Del\<close>

text \<open>
  The answer to an \<open>Add\<close> is the text of an address of the pool that nobody had and that
  is now the container's; reading the text gives the address back. One address fewer is free.
\<close>

theorem add_reports_a_new_address:
  assumes "alloc_ok s"
    and "Add (daemon_service cfg name cl fs rank) req (s, w) = Some (Ok resp, (s', w'))"
  shows "owners s (resp_AllocatedIP resp) = None \<and>
    owners s' = (owners s)(resp_AllocatedIP resp \<mapsto> req_ContainerID req) \<and>
    is_v4 (parse_ip (resp_AllocatedIP resp)) \<and>
    ip_string (parse_ip (resp_AllocatedIP resp)) = resp_AllocatedIP resp \<and>
    length (free_ips s) = Suc (length (free_ips s')) \<and> alloc_ok s'"
proof -
  obtain a where "resp = response_of a" "is_v4 (AllocIP a)" "world_owner (s, w) (resp_AllocatedIP resp) = None"
    "world_owner (s', w') = (world_owner (s, w))(resp_AllocatedIP resp \<mapsto> req_ContainerID req)"
    "world_free (s, w) = Suc (world_free (s', w'))" "world_ok (s', w')"
    using daemon_ipam.Add_Ok [of "(s, w)" fs rank cfg name cl cfg req resp "(s', w')"] assms
    by (auto simp: daemon_service_svc world_ok_def)
  then show ?thesis by (simp add: world_defs response_of_def parse_ip_string_norm)
qed

text \<open>
  When the pool is full, \<open>Add\<close> answers with an internal error. If configured to, it has
  first tainted the node and only then deleted the pod, so that its replacement is scheduled
  elsewhere; errors of either are dropped. Nobody's address changes.
\<close>

theorem add_on_full_pool:
  assumes "alloc_ok s" "free_ips s = []"
  shows "Add (daemon_service cfg name cl fs rank) req (s, w) =
    andthen
      (if DeletePodWhenNoIPs cfg then
         andthen (ignoring (PoolFull (daemon_reconciler cfg name cl)))
           (\<lambda>_. ignoring (EvictPod (daemon_reconciler cfg name cl) (req_PodNamespace req) (req_PodName req)))
       else ret ())
      (\<lambda>_. throw (Status ''Internal'' ''Error allocating address: %q'' ErrNoFreeIPs)) (s, w) \<and>
    (\<forall>r w'. Add (daemon_service cfg name cl fs rank) req (s, w) = Some (r, w') \<longrightarrow>
       owners (fst w') = owners s)"
proof -
  have "owners (fst w') = owners s"
    if "Add (daemon_service cfg name cl fs rank) req (s, w) = Some (r, w')" for r w'
    using daemon_ipam.Add_full [of "(s, w)" fs rank cfg name cl cfg req r w'] that assms
    by (simp add: daemon_service_svc world_defs)
  then show ?thesis
    unfolding daemon_service_svc daemon_ipam.Add_svc
    using Allocate_full [OF assms, of fs _ _ _ w] by simp
qed

text \<open>
  A \<open>Del\<close> after the \<open>Add\<close> of a new container leaves every address with the owner it had.
\<close>

theorem del_undoes_add:
  assumes "alloc_ok s" "req_ContainerID req \<notin> ran (owners s)"
    and "Add (daemon_service cfg name cl fs rank) req (s, w) = Some (Ok resp, (s1, w1))"
    and "Del (daemon_service cfg name cl fs rank) (req_ContainerID req) (s1, w1) = Some (Ok (), (s2, w2))"
  shows "owners s2 = owners s"
  using daemon_ipam.Del_Add [of "(s, w)" req fs rank cfg name cl cfg resp "(s1, w1)" "(s2, w2)"] assms
  by (simp add: daemon_service_svc world_defs)

subsection \<open>The cluster in the daemon's world\<close>

lemma snd_server:
  fixes versions :: "'o \<Rightarrow> node list"
  assumes "node_server nc name versions"
  shows "node_server (lift_nodes nc) name (\<lambda>w. versions (snd w))"
  unfolding node_server_def
proof (intro conjI allI impI)
  fix w :: "'s \<times> 'o"
  show "distinct (map ResourceVersion (versions (snd w)))" by (rule node_server_distinct [OF assms])
next
  fix w w' :: "'s \<times> 'o" and r
  assume "nodes_get (lift_nodes nc) name w = Some (r, w')"
  then have get: "nodes_get nc name (snd w) = Some (r, snd w')" by (auto simp: lift_nodes_def on_snd_def)
  show "\<exists>es. versions (snd w') = es @ versions (snd w)" and "\<And>n. r = Ok n \<Longrightarrow> \<exists>vs. versions (snd w') = n # vs"
    using assms get unfolding node_server_def by blast+
next
  fix n and w w' :: "'s \<times> 'o" and r
  assume "nodes_update (lift_nodes nc) n w = Some (r, w')"
  then have up: "nodes_update nc n (snd w) = Some (r, snd w')" by (auto simp: lift_nodes_def on_snd_def)
  from assms [unfolded node_server_def, THEN conjunct2, THEN conjunct2, rule_format, OF up]
  show "case r of
           Ok _ \<Rightarrow> \<exists>es old vs new. es @ versions (snd w) = old # vs \<and> versions (snd w') = new # old # vs \<and>
             ResourceVersion n = ResourceVersion old \<and>
             new = n\<lparr>ResourceVersion := ResourceVersion new\<rparr>
         | _ \<Rightarrow> \<exists>es. versions (snd w') = es @ versions (snd w)" .
qed

lemma snd_lister:
  "fresh_lister lister name versions \<Longrightarrow> fresh_lister (\<lambda>n. on_snd (lister n)) name (\<lambda>w. versions (snd w))"
  unfolding fresh_lister_def by (auto simp: on_snd_def)

text \<open>
  C33. The \<open>Add\<close> that takes the last free address reports the pool full before it answers;
  if that call succeeds, and the cache is up to date, the node is tainted when the answer
  is given, before any allocation has failed.
\<close>

theorem last_address_taints_node:
  assumes "alloc_ok s" "length (free_ips s) = 1" "TaintWhenNoIPs cfg"
    and "node_server (nodes_api cl) name versions" "fresh_lister (node_lister cl) name versions"
    and "Add (daemon_service cfg name cl fs rank) req (s, w) = Some (Ok resp, (s', w'))"
  shows "\<exists>w1 c. PoolFull (daemon_reconciler cfg name cl) (s', w1) = Some (c, (s', w')) \<and>
    (c = Ok () \<longrightarrow> (\<exists>n vs. versions w' = n # vs \<and> no_free_taint n))"
proof -
  let ?r = "daemon_reconciler cfg name cl"
  let ?al = "Allocate fs (req_ContainerID req) (req_PodName req) (req_PodNamespace req)"
  from assms(6) obtain r1 x where r1: "attempt ?al (s, w) = Some (Ok r1, x)"
    and rest: "(case r1 of Inl err \<Rightarrow>
            andthen
              (if err = ErrNoFreeIPs \<and> DeletePodWhenNoIPs cfg then
                 andthen (ignoring (PoolFull ?r)) (\<lambda>_. ignoring (EvictPod ?r (req_PodNamespace req) (req_PodName req)))
               else ret ())
              (\<lambda>_. throw (Status ''Internal'' ''Error allocating address: %q'' err))
        | Inr a \<Rightarrow>
            andthen FreeAddressCount (\<lambda>n.
            andthen (if n < 1 then ignoring (PoolFull ?r) else ignoring (PoolNotFull ?r))
              (\<lambda>_. ret (response_of a)))) x = Some (Ok resp, (s', w'))"
    unfolding daemon_service_svc daemon_ipam.Add_svc andthen_eq_Ok by blast
  from r1 show ?thesis
  proof (cases rule: attempt_cases)
    case (Ok a)
    obtain s1 w1 where x: "x = (s1, w1)" by force
    have "free_ips s1 = []" "alloc_ok s1"
    proof -
      have "world_free (s, w) = Suc (world_free x)" "world_ok x"
        using alloc_pool.allocate_Ok [of "(s, w)" fs _ _ _ a x] Ok(1)
          keepsD [OF alloc_pool.allocate_keeps _ Ok(1)] assms(1) by (auto simp: world_ok_def)
      then show "free_ips s1 = []" "alloc_ok s1" using assms(2) by (simp_all add: x world_defs)
    qed
    with Ok rest have full: "ignoring (PoolFull ?r) (s1, w1) = Some (outcome.Ok (), (s', w'))"
      using FreeAddressCount_ok [OF alloc_ok_state(2), of s1 w1] by (auto simp: x andthen_eq_Ok)
    then obtain c where c: "PoolFull ?r (s1, w1) = Some (c, (s', w'))"
      unfolding ignoring_def by (auto simp: andthen_eq_Ok elim!: attempt_cases)
    have "s' = s1" using unchangingD [OF daemon_pool_unchanged(1) c] by simp
    moreover have "\<exists>n vs. versions w' = n # vs \<and> no_free_taint n" if "c = outcome.Ok ()"
    proof -
      have "node_server (rec_nodes ?r) (rec_nodeName ?r) (\<lambda>w. versions (snd w))"
        "fresh_lister (rec_lister ?r) (rec_nodeName ?r) (\<lambda>w. versions (snd w))" "TaintWhenNoIPs (rec_config ?r)"
        using snd_server [OF assms(4)] snd_lister [OF assms(5)] assms(3) by (simp_all add: daemon_reconciler_def)
      from PoolFull_taints [OF this, of "(s1, w1)" "(s', w')"] c that show ?thesis by simp
    qed
    ultimately show ?thesis using c by blast
  next
    case (Fail e)
    with rest show ?thesis by (auto simp: andthen_eq_Ok)
  qed auto
qed

section \<open>A service with a small pool\<close>

definition quiet_config :: config where
  "quiet_config = demo_config\<lparr>TaintWhenNoIPs := False\<rparr>"

definition no_cluster :: "'o cluster" where
  "no_cluster = \<lparr>node_lister = \<lambda>name. throw (ApiErr NotFound name),
     nodes_api = \<lparr>nodes_get = \<lambda>name. throw (ApiErr NotFound name), nodes_update = \<lambda>n. throw (ApiErr NotFound [])\<rparr>,
     delete_pod = \<lambda>ns name. ret ()\<rparr>"

definition demo_service :: "(alloc_state \<times> files) service" where
  "demo_service = daemon_service quiet_config ''node-1'' no_cluster map_files (\<lambda>_. 0)"

definition demo_request :: add_request where
  "demo_request = \<lparr>req_ContainerID = ''c2'', req_PodName = ''web'', req_PodNamespace = ''default''\<rparr>"

lemma quiet_notices:
  "PoolFull (daemon_reconciler quiet_config name cl) = ret ()"
  "PoolNotFull (daemon_reconciler quiet_config name cl) = ret ()"
  "ipCheck (daemon_reconciler quiet_config name cl) = ret ()"
  by (simp_all add: PoolFull_def PoolNotFull_def ipCheck_def daemon_reconciler_def quiet_config_def)

lemma demo_add_from:
  assumes "alloc_ok s" "sendable_state s" "free_ips s \<noteq> []"
  shows "\<exists>resp s' w'. Add demo_service demo_request (s, w) = Some (Ok resp, (s', w')) \<and>
     alloc_ok s' \<and> sendable_state s' \<and> length (free_ips s) = Suc (length (free_ips s'))"
proof -
  obtain a s' w' where a: "Allocate map_files ''c2'' ''web'' ''default'' (s, w) = Some (Ok a, (s', w'))"
    using allocate_works [OF assms(1,2) map_files_work assms(3)] by blast
  have ok: "alloc_ok s'" "length (free_ips s) = Suc (length (free_ips s'))"
    using keepsD [OF alloc_pool.allocate_keeps _ a] alloc_pool.allocate_Ok [OF _ a] assms(1) by (auto simp: world_defs)
  have "Add demo_service demo_request (s, w) = Some (Ok (response_of a), (s', w'))"
    using FreeAddressCount_ok [OF alloc_ok_state(2) [OF ok(1)], of w'] a
    unfolding demo_service_def daemon_service_svc daemon_ipam.Add_svc
    by (simp add: demo_request_def quiet_notices ignoring_def attempt_def)
  with ok allocate_sendable [OF assms(2,1) a] show ?thesis by blast
qed

lemma demo_add:
  "\<exists>resp s' w'. Add demo_service demo_request (demo_busy, Map.empty) = Some (Ok resp, (s', w')) \<and>
     alloc_ok s' \<and> sendable_state s'"
  using demo_add_from [OF demo_ok(2) demo_sendable(2), of Map.empty] demo_free_ips by auto

theorem add_reports_a_new_address_witness:
  "\<exists>resp s' w'. Add demo_service demo_request (demo_busy, Map.empty) = Some (Ok resp, (s', w')) \<and>
     owners s' = (owners demo_busy)(resp_AllocatedIP resp \<mapsto> ''c2'')"
proof -
  obtain resp s' w' where run: "Add demo_service demo_request (demo_busy, Map.empty) = Some (Ok resp, (s', w'))"
    using demo_add by blast
  from add_reports_a_new_address [OF demo_ok(2) run [unfolded demo_service_def]] run
  show ?thesis by (auto simp: demo_request_def)
qed

theorem add_on_full_pool_witness:
  "Add demo_service demo_request (demo_full, Map.empty) =
     Some (Fail (Status ''Internal'' ''Error allocating address: %q'' ErrNoFreeIPs), (demo_full, Map.empty))"
  using add_on_full_pool [OF demo_ok(3) demo_free_ips(3), of quiet_config "''node-1''" no_cluster map_files
      "\<lambda>_. 0" demo_request Map.empty, THEN conjunct1]
  by (simp add: demo_service_def quiet_config_def demo_config_def quiet_notices [unfolded quiet_config_def demo_config_def]
    EvictPod_def ignoring_def attempt_def andthen_def no_cluster_def daemon_reconciler_def
    ipCheck_def PoolFull_def)

theorem del_undoes_add_witness:
  "\<exists>resp s1 w1 s2 w2. Add demo_service demo_request (demo_busy, Map.empty) = Some (Ok resp, (s1, w1)) \<and>
     Del demo_service ''c2'' (s1, w1) = Some (Ok (), (s2, w2)) \<and> owners s2 = owners demo_busy"
proof -
  obtain resp s1 w1 where add: "Add demo_service demo_request (demo_busy, Map.empty) = Some (Ok resp, (s1, w1))"
    and s1: "alloc_ok s1" "sendable_state s1"
    using demo_add by blast
  obtain s2 w2 where "ReleaseByContainer (\<lambda>_. 0) map_files ''c2'' (s1, w1) = Some (Ok (), (s2, w2))"
    using release_works [OF s1 map_files_work, of "\<lambda>_. 0" "''c2''" w1] by blast
  then have del: "Del demo_service ''c2'' (s1, w1) = Some (Ok (), (s2, w2))"
    by (simp add: Del_def demo_service_def daemon_service_def NewService_def)
  have "owners s2 = owners demo_busy"
    by (rule del_undoes_add [OF demo_ok(2) _ add [unfolded demo_service_def]])
      (use del in \<open>simp_all add: demo_request_def demo_service_def demo_owners ran_def\<close>)
  with add del show ?thesis by blast
qed

text \<open>The same with a cluster, and a disk that keeps nothing.\<close>

definition null_files :: "'o file_ops" where
  "null_files = \<lparr>os_Stat = \<lambda>p. throw (no_such_file p), os_ReadFile = \<lambda>p. throw (no_such_file p),
     os_MkdirAll = \<lambda>p. ret (), os_WriteFile = \<lambda>p d. ret (), os_Open = \<lambda>p. throw (no_such_file p),
     os_TempFile = \<lambda>d. throw (no_such_file d), os_Copy = \<lambda>p q. ret (), os_Close = \<lambda>p. ret (),
     os_Chmod = \<lambda>p. ret (), os_Remove = \<lambda>p. ret (), os_Rename = \<lambda>p q. ret ()\<rparr>"

lemma null_write: "sendable_state s \<Longrightarrow> write_state null_files (s, w) = Some (Ok (), (s, w))"
proof -
  assume "sendable_state s"
  then obtain t where "json_marshal enc_state s = Inr t" by (rule state_json.printed.encE)
  then show ?thesis by (simp add: write_state_def Write_def null_files_def of_sum_def)
qed

definition tainting_service :: "(alloc_state \<times> (nat \<times> node list)) service" where
  "tainting_service = daemon_service demo_config ''node-1'' demo_cluster null_files (\<lambda>_. 0)"

lemma tainting_full:
  "\<exists>x. ignoring (PoolFull (daemon_reconciler demo_config ''node-1'' demo_cluster)) (s, (0, [demo_node])) =
     Some (Ok (), (s, x))"
  by (simp add: demo_run daemon_reconciler_def lift_nodes_def ignoring_def wrapping_def attempt_def andthen_def)

lemma tainting_add:
  "\<exists>resp s' w'. Add tainting_service demo_request (demo_busy, (0 :: nat, [demo_node])) = Some (Ok resp, (s', w'))"
proof -
  obtain a s' w' where a: "Allocate null_files ''c2'' ''web'' ''default'' (demo_busy, (0 :: nat, [demo_node])) =
      Some (Ok a, (s', w'))"
    using allocate_works_if_written [OF demo_ok(2) demo_sendable(2), of null_files "''c2''" "''web''" "''default''"
      "(0 :: nat, [demo_node])"] null_write by (fastforce simp: demo_free_ips)
  have "fst (s', w') = s'" by simp
  have s': "world_ok (s', w')" "world_free (demo_busy, (0 :: nat, [demo_node])) = Suc (world_free (s', w'))"
    using keepsD [OF alloc_pool.allocate_keeps _ a] alloc_pool.allocate_Ok [OF _ a] demo_ok(2)
    by (auto simp: world_ok_def)
  then have ok: "alloc_ok s'" "free_ips s' = []" by (simp_all add: world_defs demo_free_ips)
  have w': "w' = (0, [demo_node])"
  proof -
    from allocate_locked_free [OF demo_ok(2), of null_files "''c2''" "''web''" "''default''" "(0 :: nat, [demo_node])"]
    obtain b where "allocate_locked null_files ''c2'' ''web'' ''default'' (demo_busy, (0 :: nat, [demo_node])) =
        andthen (write_state null_files) (\<lambda>_. ret b) (add_allocation demo_busy b, (0, [demo_node]))"
      by (auto simp: demo_free_ips)
    moreover have "write_state null_files (t, w) = Some (r, x) \<Longrightarrow> snd x = w" for t r x and w :: "nat \<times> node list"
      by (auto simp: write_state_def Write_def null_files_def wrapping_def attempt_def andthen_def of_sum_def on_snd_def
        split: sum.splits outcome.splits option.splits)
    ultimately show ?thesis
      using a Allocate_free [OF demo_ok(2), of null_files "''c2''" "''web''" "''default''" "(0 :: nat, [demo_node])"]
      by (fastforce simp: demo_free_ips elim!: andthen_cases)
  qed
  obtain x where "ignoring (PoolFull (daemon_reconciler demo_config ''node-1'' demo_cluster)) (s', w') = Some (Ok (), (s', x))"
    using tainting_full unfolding w' by blast
  then show ?thesis
    using FreeAddressCount_ok [OF alloc_ok_state(2) [OF ok(1)], of w'] a ok(2)
    unfolding tainting_service_def daemon_service_svc daemon_ipam.Add_svc
    by (simp add: demo_request_def)
qed

theorem last_address_taints_node_witness:
  "\<exists>resp s' w' w1 c. Add tainting_service demo_request (demo_busy, (0 :: nat, [demo_node])) = Some (Ok resp, (s', w')) \<and>
     PoolFull (daemon_reconciler demo_config ''node-1'' demo_cluster) (s', w1) = Some (c, (s', w'))"
proof -
  obtain resp s' w' where run: "Add tainting_service demo_request (demo_busy, (0 :: nat, [demo_node])) = Some (Ok resp, (s', w'))"
    using tainting_add by blast
  have "node_server (nodes_api demo_cluster) ''node-1'' (\<lambda>w. store_versions (snd w))"
    "fresh_lister (node_lister demo_cluster) ''node-1'' (\<lambda>w. store_versions (snd w))"
    using demo_server [of 0] demo_fresh [of 0] by (simp_all add: demo_reconciler_def)
  from last_address_taints_node [OF demo_ok(2) _ _ this run [unfolded tainting_service_def]] run
  show ?thesis by (fastforce simp: demo_free_ips demo_config_def)
qed

end
