(* ===== verification/Daemon_Witness.thy ===== *)
theory Daemon_Witness
  imports Daemon_Safety Ipam_Theorems Eni_Convergence
begin

text \<open>
  A node with one attached ENI, on the host of \<open>Working_Host\<close>: the witnesses for the daemon's
  run, one from scratch and one after a run that stopped half-way.
\<close>

section \<open>The node and its daemon\<close>

definition wired_eni :: eni where
  "wired_eni = \<lparr>EniID = ''eni-a'', Attached = True, InterfaceIP = ipv4 10 1 0 8, Index = 1,
     CIDRBlock = Some \<lparr>net_IP = ipv4 10 1 0 0, net_Mask = cidr_mask 16 32\<rparr>,
     IPs = Some [ipv4 10 1 0 9], MACAddress = ''02:01''\<rparr>"

definition eni_text :: string where
  "eni_text = (case marshal_enis (Some [Some wired_eni]) of Inl _ \<Rightarrow> [] | Inr t \<Rightarrow> t)"

definition eni_node :: node where
  "eni_node = cloud_node\<lparr>Annotations := Some [IFSKey \<mapsto> eni_text]\<rparr>"

definition eni_lister :: "string \<Rightarrow> (tables, node) io" where
  "eni_lister key = ret eni_node"

definition ready_files :: "'o file_ops" where
  "ready_files = null_files\<lparr>os_Stat := \<lambda>p. ret ()\<rparr>"

definition ready_installer :: installer where
  "ready_installer = \<lparr>inst_IPAMSocketPath = ''/run/ipam.sock'', inst_Config = demo_config\<lparr>Logging := Some \<lparr>CNIVLevel = 2\<rparr>\<rparr>\<rparr>"

lemma wired_eni_norm: "eni_norm wired_eni = wired_eni"
  by (simp add: eni_norm_def wired_eni_def net_norm_def ip_norm_v4)

lemma reattached: "wired_eni\<lparr>Attached := True\<rparr> = wired_eni"
  by (rule eni.equality) (simp_all add: wired_eni_def)

lemma wired_eni_sendable: "sendable_eni (Some wired_eni)"
proof -
  have "\<exists>l \<le> 32. cidr_mask 16 32 = cidr_mask l 32" by (rule exI [of _ 16]) simp
  then show ?thesis
    by (simp add: sendable_eni_def wired_eni_def sendable_ip_def sendable_net_def int64_def)
qed

lemma eni_node_written: "marshal_enis (Some [Some wired_eni]) = Inr eni_text" "list_all sendable_eni [Some wired_eni]"
proof -
  have "list_all sendable_eni (elems (Some [Some wired_eni]))" using wired_eni_sendable by simp
  then obtain t where "json_marshal (enc_slice enc_eni) (Some [Some wired_eni]) = Inr t"
    by (rule enis_json.printed.encE)
  then have "marshal_enis (Some [Some wired_eni]) = Inr t" by (simp add: marshal_enis_def)
  then show "marshal_enis (Some [Some wired_eni]) = Inr eni_text" by (simp add: eni_text_def)
qed (simp add: wired_eni_sendable)

lemma eni_node_list: "ENIConfigFromAnnotations (Annotations eni_node) = Inr (Some [Some wired_eni])"
  using ENIConfig_of_marshal [OF _ eni_node_written(1), of "Annotations eni_node"] eni_node_written(2)
  by (simp add: eni_node_def go_lookup_def wired_eni_norm)

lemma eni_node_own: "own_node ''i-1'' eni_lister key t eni_node [Some wired_eni]"
  by (simp add: own_node_def eni_lister_def eni_node_list) (simp add: eni_node_def cloud_node_def cloud_node_id)

lemma ready_files_apart: "files_apart ready_files (net :: tables \<Rightarrow> tables)"
  by (auto simp: files_apart_def ready_files_def null_files_def intro: unchanging_basic)

lemma ready_write: "sendable_state s \<Longrightarrow> write_state ready_files (s, w) = Some (Ok (), (s, w))"
  using null_write [of s w] by (simp add: write_state_def Write_def ready_files_def null_files_def)

lemma demo_offered: "SetENIs ready_files (Some [Some wired_eni]) (demo_free, w) =
    Some (Ok (), (demo_free\<lparr>ENIs := Some [Some wired_eni]\<rparr>, w))"
proof -
  have "sendable_state (demo_free\<lparr>ENIs := Some [Some wired_eni]\<rparr>)"
    using demo_sendable(1) wired_eni_sendable by (simp add: sendable_state_def)
  from ready_write [OF this] show ?thesis by (simp add: SetENIs_def)
qed

abbreviation demo_daemon where
  "demo_daemon \<equiv> daemon_if_controller ''i-1'' nil_ip demo_mgr ready_files ready_installer eni_lister"

text \<open>When the interface is up, the run goes through.\<close>

lemma wired_run_ok:
  assumes "own_node ''i-1'' lister key t n [Some wired_eni]"
    and "configure_eni (daemon_ifmgr demo_mgr) nil_ip (node_Name n) wired_eni (demo_free, t) = Some (Ok (), (demo_free, t'))"
  shows "if_handleNode (daemon_if_controller ''i-1'' nil_ip demo_mgr ready_files ready_installer lister) key (demo_free, t) =
    Some (Ok (), (demo_free\<lparr>ENIs := Some [Some wired_eni]\<rparr>, t'))"
proof -
  have att: "Attached wired_eni" by (simp add: wired_eni_def)
  have ready: "Configured ready_files = ret True"
    by (simp add: Configured_def ready_files_def fun_eq_iff)
  show ?thesis
    unfolding handle_own_node [OF assms(1)] offer_enis_def
    using assms(2) by (simp add: daemon_if_controller_def NewIfController_def att demo_offered daemon_installer_def ready
      andthen_def)
qed

lemma demo_run_ok:
  assumes "configure_eni (daemon_ifmgr demo_mgr) nil_ip ''node-1'' wired_eni (demo_free, t) = Some (Ok (), (demo_free, t'))"
  shows "if_handleNode demo_daemon ''node-1'' (demo_free, t) =
    Some (Ok (), (demo_free\<lparr>ENIs := Some [Some wired_eni]\<rparr>, t'))"
  by (rule wired_run_ok [OF eni_node_own]) (use assms in \<open>simp add: eni_node_def cloud_node_def\<close>)

section \<open>From scratch, and after half a run\<close>

theorem half_configured_eni_is_offered_witness:
  "\<exists>s t. if_handleNode demo_daemon ''node-1'' (demo_free, demo_tables) = Some (Ok (), (s, t)) \<and>
     ENIs s = Some [Some wired_eni] \<and> t = demo_tables \<and> \<not> pods_routed t 1 [ipv4 10 1 0 9]"
proof -
  have eni: "Index wired_eni = 1" "elems (IPs wired_eni) = [ipv4 10 1 0 9]" "Attached wired_eni"
    "interface_name wired_eni = ''eni1''"
    by (simp_all add: wired_eni_def interface_name_def) code_simp
  have ifs: "interface_name wired_eni \<in> host_ifs demo_tables"
    by (simp add: eni host_ifs_def demo_tables_def demo_links_def)
  have names: "Interfaces (mgr_host demo_mgr) demo_tables = Some (Ok [''eth0'', ''eni1''], demo_tables)"
    by (simp add: tables_host_def demo_tables_def demo_links_def)
  have rules: "\<not> pods_routed demo_tables (Index wired_eni) (elems (IPs wired_eni))"
    by (simp add: eni pods_routed_def pod_rules_def demo_tables_def)
  have "configure_eni (daemon_ifmgr demo_mgr) nil_ip ''node-1'' wired_eni (demo_free, demo_tables) =
      Some (Ok (), (demo_free, demo_tables))"
    using names by (simp add: configure_eni_def daemon_ifmgr_def InterfaceExists_def eni)
  note run = demo_run_ok [OF this]
  from half_configured_eni_is_offered [OF demo_mgr_tables ready_files_apart eni_node_own eni(3) ifs rules names run]
  show ?thesis using run eni by auto
qed

definition fresh_tables :: tables where
  "fresh_tables = demo_tables\<lparr>t_links := [\<lparr>link_Name = ''eth1'', link_HardwareAddr = ''02:01'', link_Index = 3\<rparr>]\<rparr>"

lemma fresh_configured:
  "\<exists>t. configure_eni (daemon_ifmgr demo_mgr) nil_ip ''node-1'' wired_eni (demo_free, fresh_tables) =
     Some (Ok (), (demo_free, t))"
proof -
  have eni: "interface_name wired_eni = ''eni1''"
    by (simp add: wired_eni_def interface_name_def) code_simp
  let ?ip = "\<lparr>net_IP = ipv4 10 1 0 8, net_Mask = cidr_mask 16 32\<rparr>"
  let ?sn = "Some \<lparr>net_IP = ipv4 10 1 0 0, net_Mask = cidr_mask 16 32\<rparr>"
  let ?l = "\<lparr>link_Name = ''eth1'', link_HardwareAddr = ''02:01'', link_Index = 3\<rparr>"
  let ?t1 = "link_up ?l (add_addr ?l ?ip (rename_link ?l ''eni1'' fresh_tables))"
  have 1: "ConfigureInterface demo_mgr ''eni1'' ''02:01'' ?ip ?sn fresh_tables = Some (Ok (), ?t1)"
    by (rule tables_host_ConfigureInterface) (simp_all add: fresh_tables_def last_such_def)
  have t1: "find (\<lambda>l. link_Name l = ''eni1'') (t_links ?t1) =
        Some \<lparr>link_Name = ''eni1'', link_HardwareAddr = ''02:01'', link_Index = 3\<rparr>"
      "t_rules ?t1 = []" "nat_rules ?t1 ''POSTROUTING'' = Some []"
    by (simp_all add: fresh_tables_def demo_tables_def nat_rules_def rename_link_def add_addr_def link_up_def)
  have gw: "gateway ?sn = (ret (IP [10, 1, 0, 1]) :: (tables, net_ip) io)"
    using gateway_Some [of "the ?sn" 10 1 0 0] by simp
  have "\<exists>names new. ConfigureRoutes demo_mgr ''eni1'' 1 ?sn [ipv4 10 1 0 9] ?t1 = Some (Ok (),
      ?t1\<lparr>t_names := names, t_routes := t_routes ?t1 @ new, t_rules := t_rules ?t1 @ pod_rules 1 [ipv4 10 1 0 9]\<rparr>)"
    by (rule tables_host_ConfigureRoutes [OF t1(1) demo_mgr_simps _ gw])
      (simp_all add: t1 demo_network_def pod_rules_def)
  then obtain names new where 2: "ConfigureRoutes demo_mgr ''eni1'' 1 ?sn [ipv4 10 1 0 9] ?t1 = Some (Ok (),
      ?t1\<lparr>t_names := names, t_routes := t_routes ?t1 @ new, t_rules := t_rules ?t1 @ pod_rules 1 [ipv4 10 1 0 9]\<rparr>)"
    by blast
  let ?t2 = "?t1\<lparr>t_names := names, t_routes := t_routes ?t1 @ new, t_rules := t_rules ?t1 @ pod_rules 1 [ipv4 10 1 0 9]\<rparr>"
  have 3: "ConfigureIPMasq demo_mgr nil_ip [ipv4 10 1 0 9] ?t2 =
      Some (Ok (), masqueraded demo_network nil_ip [ipv4 10 1 0 9] ?t2)"
    by (rule tables_host_ConfigureIPMasq) (use t1 in \<open>auto simp: demo_network_def nonmasqNets_def nat_rules_def\<close>)
  have 0: "InterfaceExists demo_mgr ''eni1'' fresh_tables = Some (Ok False, fresh_tables)"
    by (simp add: InterfaceExists_def tables_host_def fresh_tables_def)
  have "ifm_InterfaceExists (daemon_ifmgr demo_mgr) ''eni1'' (demo_free, fresh_tables) =
      Some (Ok False, (demo_free, fresh_tables))"
    using 0 by (simp add: daemon_ifmgr_def)
  note exists = andthen_Ok [where m = "ifm_InterfaceExists (daemon_ifmgr demo_mgr) ''eni1''", OF this]
  show ?thesis
    unfolding configure_eni_def eni exists by (simp add: daemon_ifmgr_def wired_eni_def deref_Some 1 2 3)
qed

theorem daemon_offers_wired_enis_witness:
  "\<exists>s t. if_handleNode demo_daemon ''node-1'' (demo_free, fresh_tables) = Some (Ok (), (s, t)) \<and>
     ENIs s = Some [Some wired_eni] \<and> pods_routed t 1 [ipv4 10 1 0 9] \<and> pods_natted t [ipv4 10 1 0 9]"
proof -
  have eni: "Index wired_eni = 1" "elems (IPs wired_eni) = [ipv4 10 1 0 9]" "attached_enis [Some wired_eni] = [wired_eni]"
    "interface_name wired_eni = ''eni1''"
    by (simp_all add: wired_eni_def interface_name_def) code_simp
  obtain t where "configure_eni (daemon_ifmgr demo_mgr) nil_ip ''node-1'' wired_eni (demo_free, fresh_tables) =
      Some (Ok (), (demo_free, t))"
    using fresh_configured by blast
  note run = demo_run_ok [OF this]
  have "\<forall>e \<in> set (attached_enis [Some wired_eni]). interface_name e \<in> host_ifs fresh_tables \<longrightarrow>
      pods_routed fresh_tables (Index e) (elems (IPs e)) \<and> pods_natted fresh_tables (elems (IPs e))"
    by (simp add: eni host_ifs_def fresh_tables_def)
  from daemon_offers_wired_enis [OF demo_mgr_tables ready_files_apart eni_node_own _ this run]
  show ?thesis using run eni by auto
qed

text \<open>A host without any interface: an error, but no panic.\<close>

theorem daemon_never_panics_witness:
  "\<exists>r s t. if_handleNode demo_daemon ''node-1'' (demo_free, demo_tables\<lparr>t_links := []\<rparr>) = Some (r, (s, t)) \<and>
     (r = Ok () \<or> (\<exists>e. r = Fail e))"
proof (rule daemon_never_panics)
  show "host_tables (mgr_host demo_mgr) (\<lambda>t. t)" by (rule demo_mgr_tables)
  show "mgr_Network demo_mgr = Some demo_network" by simp
  show "network_complete demo_network" by (simp add: network_complete_def nonmasqNets_def demo_network_def)
  show "files_plain ready_files"
    by (auto simp: files_plain_def ready_files_def null_files_def simp del: ret_def throw_def)
  show "Logging (inst_Config ready_installer) \<noteq> None" by (simp add: ready_installer_def)
  show "own_node ''i-1'' eni_lister ''node-1'' (demo_tables\<lparr>t_links := []\<rparr>) eni_node [Some wired_eni]"
    by (rule eni_node_own)
  show "annotation_complete [Some wired_eni]"
    by (simp add: annotation_complete_def wired_eni_def is_v4_def)
qed

end
