(* ===== verification/Cni_Plugin.thy ===== *)
theory Cni_Plugin
  imports Cni_Config Ipam_Service
begin

text \<open>
  cmd/cni-vpcnet/main.go: the CNI plugin that the kubelet runs for every pod. It parses its
  configuration and arguments, asks the daemon for an address and prints the result. What it
  calls (the flag package, gRPC, the printing of the result) is a record of operations over
  the world; the locale \<open>ipam_server\<close> states what it relies on behind the socket.
\<close>

section \<open>Arguments\<close>

text \<open>\<open>strings.Split\<close> with a separator of one byte.\<close>

fun go_split :: "char \<Rightarrow> string \<Rightarrow> string list" where
  "go_split c [] = [[]]"
| "go_split c (x # s) =
     (if x = c then [] # go_split c s
      else (case go_split c s of [] \<Rightarrow> [[x]] | w # ws \<Rightarrow> (x # w) # ws))"

definition unmarshal_bool :: "string \<Rightarrow> error + bool" where
  "unmarshal_bool data =
     (let s = map lower data in
      if s = ''1'' \<or> s = ''true'' then Inr True
      else if s = ''0'' \<or> s = ''false'' then Inr False
      else Inl (Errorf ''Boolean unmarshal error: invalid input %s'' [s]))"

record kube_args =
  IgnoreUnknown :: bool
  ka_IP :: net_ip
  K8S_POD_NAME :: string
  K8S_POD_NAMESPACE :: string
  K8S_POD_INFRA_CONTAINER_ID :: string

definition zero_kube_args :: kube_args where
  "zero_kube_args = \<lparr>IgnoreUnknown = False, ka_IP = nil_ip, K8S_POD_NAME = [], K8S_POD_NAMESPACE = [],
     K8S_POD_INFRA_CONTAINER_ID = []\<rparr>"

text \<open>
  One key with its value: nothing when the struct has no such field. The embedded struct
  is a field of its own, which cannot be set from a text.
\<close>

definition set_arg :: "string \<Rightarrow> string \<Rightarrow> string \<Rightarrow> kube_args \<Rightarrow> (error + kube_args) option" where
  "set_arg pair key v a =
     (let bad = (\<lambda>e. Wrapf e ''ARGS: error parsing value of pair %q: %v)'' [pair]) in
      if key = ''IgnoreUnknown'' then Some (case unmarshal_bool v of
          Inl e \<Rightarrow> Inl (bad e) | Inr b \<Rightarrow> Inr (a\<lparr>IgnoreUnknown := b\<rparr>))
      else if key = ''IP'' then Some (case unmarshal_ip v of
          Inl e \<Rightarrow> Inl (bad e) | Inr ip \<Rightarrow> Inr (a\<lparr>ka_IP := ip\<rparr>))
      else if key = ''K8S_POD_NAME'' then Some (Inr (a\<lparr>K8S_POD_NAME := v\<rparr>))
      else if key = ''K8S_POD_NAMESPACE'' then Some (Inr (a\<lparr>K8S_POD_NAMESPACE := v\<rparr>))
      else if key = ''K8S_POD_INFRA_CONTAINER_ID'' then Some (Inr (a\<lparr>K8S_POD_INFRA_CONTAINER_ID := v\<rparr>))
      else if key = ''CommonArgs'' then Some (Inl (Errorf
          ''ARGS: cannot unmarshal into field %s - type %s does not implement encoding.TextUnmarshaler'' [key]))
      else None)"

fun load_pairs :: "string list \<Rightarrow> string list \<Rightarrow> kube_args \<Rightarrow> error + (string list \<times> kube_args)" where
  "load_pairs [] unknown a = Inr (unknown, a)"
| "load_pairs (pair # ps) unknown a =
     (case go_split (CHR ''='') pair of
        [key, v] \<Rightarrow>
          (case set_arg pair key v a of
             None \<Rightarrow> load_pairs ps (unknown @ [pair]) a
           | Some (Inl e) \<Rightarrow> Inl e
           | Some (Inr a') \<Rightarrow> load_pairs ps unknown a')
      | _ \<Rightarrow> Inl (Errorf ''ARGS: invalid pair %q'' [pair]))"

definition LoadArgs :: "string \<Rightarrow> kube_args \<Rightarrow> error + kube_args" where
  "LoadArgs args a =
     (if args = [] then Inr a
      else case load_pairs (go_split (CHR '';'') args) [] a of
        Inl e \<Rightarrow> Inl e
      | Inr (unknown, a') \<Rightarrow>
          if unknown \<noteq> [] \<and> \<not> IgnoreUnknown a' then Inl (Errorf ''ARGS: unknown args %q'' unknown)
          else Inr a')"

subsection \<open>What the kubelet passes\<close>

lemma go_split_free: "c \<notin> set s \<Longrightarrow> go_split c s = [s]"
  by (induction s) auto

lemma go_split_append: "c \<notin> set s \<Longrightarrow> go_split c (s @ c # t) = s # go_split c t"
  by (induction s) auto

lemma load_pair:
  assumes "CHR ''='' \<notin> set key" "CHR ''='' \<notin> set v" "set_arg (key @ ''='' @ v) key v a = Some (Inr a')"
  shows "load_pairs ((key @ ''='' @ v) # ps) unknown a = load_pairs ps unknown a'"
proof -
  have "go_split (CHR ''='') (key @ ''='' @ v) = [key, v]"
    using go_split_append [OF assms(1), of v] go_split_free [OF assms(2)] by simp
  then show ?thesis using assms(3) by simp
qed

text \<open>A name, a namespace and a container ID without separators get through.\<close>

lemma LoadArgs_kubelet:
  assumes "\<And>s c. s \<in> {ns, name, cid} \<Longrightarrow> c \<in> {CHR '';'', CHR ''=''} \<Longrightarrow> c \<notin> set s"
  shows "LoadArgs (''IgnoreUnknown=1;K8S_POD_NAMESPACE='' @ ns @ '';K8S_POD_NAME='' @ name @
      '';K8S_POD_INFRA_CONTAINER_ID='' @ cid) zero_kube_args =
    Inr \<lparr>IgnoreUnknown = True, ka_IP = nil_ip, K8S_POD_NAME = name, K8S_POD_NAMESPACE = ns,
      K8S_POD_INFRA_CONTAINER_ID = cid\<rparr>"
proof -
  let ?p1 = "''IgnoreUnknown'' @ ''='' @ ''1''" and ?p2 = "''K8S_POD_NAMESPACE'' @ ''='' @ ns"
    and ?p3 = "''K8S_POD_NAME'' @ ''='' @ name" and ?p4 = "''K8S_POD_INFRA_CONTAINER_ID'' @ ''='' @ cid"
  have free: "CHR '';'' \<notin> set ?p1" "CHR '';'' \<notin> set ?p2" "CHR '';'' \<notin> set ?p3" "CHR '';'' \<notin> set ?p4"
    using assms by auto
  have "go_split (CHR '';'') (?p1 @ CHR '';'' # ?p2 @ CHR '';'' # ?p3 @ CHR '';'' # ?p4) = [?p1, ?p2, ?p3, ?p4]"
    by (simp only: go_split_append [OF free(1)] go_split_append [OF free(2)] go_split_append [OF free(3)]
      go_split_free [OF free(4)])
  moreover have "load_pairs [?p1, ?p2, ?p3, ?p4] [] zero_kube_args = Inr ([], \<lparr>IgnoreUnknown = True,
      ka_IP = nil_ip, K8S_POD_NAME = name, K8S_POD_NAMESPACE = ns, K8S_POD_INFRA_CONTAINER_ID = cid\<rparr>)"
    by (subst load_pair load_pairs.simps(1); (use assms in \<open>simp add: set_arg_def unmarshal_bool_def lower_def
      zero_kube_args_def; fail\<close>)?)+
  ultimately show ?thesis by (simp add: LoadArgs_def)
qed

section \<open>The commands\<close>

text \<open>\<open>skel.CmdArgs\<close>, the fields that the plugin reads.\<close>

record cmd_args =
  ca_ContainerID :: string
  ca_Args :: string
  ca_StdinData :: string

record 'w ipam_client =
  client_Add :: "add_request \<Rightarrow> ('w, add_response) io"
  client_Del :: "string \<Rightarrow> ('w, unit) io"

text \<open>\<open>current.Result\<close> with the fields that the plugin sets.\<close>

record ip_config =
  ipc_Address :: ip_net
  ipc_Gateway :: net_ip

record cni_result =
  res_IPs :: "ip_config list"
  res_Routes :: "ip_net list"

text \<open>A connection is named by the path of its socket.\<close>

record 'w plugin_env =
  flag_Set :: "string \<Rightarrow> string \<Rightarrow> ('w, unit) io"
  flag_Parse :: "('w, unit) io"
  grpc_Dial :: "string \<Rightarrow> ('w, unit) io"
  conn_Close :: "string \<Rightarrow> ('w, unit) io"
  NewIPAMClient :: "string \<Rightarrow> 'w ipam_client"
  PrintResult :: "cni_result \<Rightarrow> string \<Rightarrow> ('w, unit) io"

definition initGlog :: "'w plugin_env \<Rightarrow> cni_net \<Rightarrow> ('w, unit) io" where
  "initGlog env cfg =
     andthen (ignoring (flag_Set env ''logtostderr'' ''true'')) (\<lambda>_.
     andthen (deref (cni_IPAM cfg)) (\<lambda>ipam.
     andthen (ignoring (flag_Set env ''v'' (itoa (LogVerbosity ipam)))) (\<lambda>_.
     flag_Parse env)))"

definition ipamConn :: "'w plugin_env \<Rightarrow> string \<Rightarrow> ('w, unit) io" where
  "ipamConn env sockPath =
     wrapping (\<lambda>e. Wrapf e ''Error connecting to IPAM socket at %s'' [sockPath]) (grpc_Dial env sockPath)"

text \<open>\<open>defer conn.Close()\<close>, whose error is dropped.\<close>

definition closing :: "('w, unit) io \<Rightarrow> ('w, 'a) io \<Rightarrow> ('w, 'a) io" where
  "closing c m = andthen (attempt m) (\<lambda>r. andthen (ignoring c) (\<lambda>_. of_sum r))"

definition result_of :: "add_response \<Rightarrow> ip_net \<Rightarrow> ip_net \<Rightarrow> cni_result" where
  "result_of resp subnet defNet =
     \<lparr>res_IPs = [\<lparr>ipc_Address = \<lparr>net_IP = parse_ip (resp_AllocatedIP resp), net_Mask = net_Mask subnet\<rparr>,
        ipc_Gateway = parse_ip (resp_ENIIP resp)\<rparr>],
      res_Routes = [defNet]\<rparr>"

definition invalid_cidr :: "string \<Rightarrow> error" where
  "invalid_cidr s = ExtErr (''invalid CIDR address: '' @ s)"

definition of_cidr :: "string \<Rightarrow> ('w, ip_net) io" where
  "of_cidr s = of_sum (case parse_cidr s of None \<Rightarrow> Inl (invalid_cidr s) | Some (_, n) \<Rightarrow> Inr n)"

text \<open>The second half of \<open>cmdAdd\<close>: from the daemon's answer to the printed result.\<close>

definition print_allocation :: "'w plugin_env \<Rightarrow> add_response \<Rightarrow> ('w, unit) io" where
  "print_allocation env allocResp =
     andthen (wrapping (\<lambda>e. Wrapf e ''Unexpected error parsing 0.0.0.0/0 !!!'' []) (of_cidr ''0.0.0.0/0'')) (\<lambda>defNet.
     andthen (wrapping (\<lambda>e. Wrapf e ''Error parsing returned subnet CIDR %s'' [resp_SubnetCIDR allocResp])
       (of_cidr (resp_SubnetCIDR allocResp))) (\<lambda>subnet.
     wrapping (\<lambda>e. Wrapf e ''Error printing result'' [])
       (PrintResult env (result_of allocResp subnet defNet) current_version)))"

definition cmdAdd :: "'w plugin_env \<Rightarrow> cmd_args \<Rightarrow> ('w, unit) io" where
  "cmdAdd env args =
     andthen (wrapping (\<lambda>e. Wrapf e ''Error unmarshaling config'' [])
       (of_sum (json_unmarshal dec_cni_net (ca_StdinData args)))) (\<lambda>cfg.
     andthen (wrapping (\<lambda>e. Wrapf e ''Error loading CNI arguments'' [])
       (of_sum (LoadArgs (ca_Args args) zero_kube_args))) (\<lambda>ka.
     andthen (initGlog env cfg) (\<lambda>_.
     andthen (deref (cni_IPAM cfg)) (\<lambda>ipam.
     andthen (ipamConn env (IPAMSocketPath ipam)) (\<lambda>_.
     closing (conn_Close env (IPAMSocketPath ipam))
       (andthen (client_Add (NewIPAMClient env (IPAMSocketPath ipam))
          \<lparr>req_ContainerID = ca_ContainerID args, req_PodName = K8S_POD_NAME ka,
           req_PodNamespace = K8S_POD_NAMESPACE ka\<rparr>)
        (print_allocation env)))))))"

definition cmdDel :: "'w plugin_env \<Rightarrow> cmd_args \<Rightarrow> ('w, unit) io" where
  "cmdDel env args =
     andthen (wrapping (\<lambda>e. Wrapf e ''Error unmarshaling config'' [])
       (of_sum (json_unmarshal dec_cni_net (ca_StdinData args)))) (\<lambda>cfg.
     andthen (initGlog env cfg) (\<lambda>_.
     andthen (deref (cni_IPAM cfg)) (\<lambda>ipam.
     andthen (ipamConn env (IPAMSocketPath ipam)) (\<lambda>_.
     closing (conn_Close env (IPAMSocketPath ipam))
       (ignoring (client_Del (NewIPAMClient env (IPAMSocketPath ipam)) (ca_ContainerID args)))))))"

end
