(* ===== verification/Plugin_Theorems.thy ===== *)
theory Plugin_Theorems
  imports Cni_Plugin Ipam_Theorems
begin

text \<open>
  The CNI plugin and the daemon as two processes: the plugin's own calls act on its part of
  the world, those over the socket on the daemon's. What the plugin prints for a pod is the
  daemon's allocation.
\<close>

section \<open>Two processes\<close>

text \<open>A plugin process whose client reaches the daemon.\<close>

definition served :: "'d ipam_client \<Rightarrow> 'p plugin_env \<Rightarrow> ('d \<times> 'p) plugin_env" where
  "served client penv =
     \<lparr>flag_Set = \<lambda>k v. on_snd (flag_Set penv k v), flag_Parse = on_snd (flag_Parse penv),
      grpc_Dial = \<lambda>s. on_snd (grpc_Dial penv s), conn_Close = \<lambda>s. on_snd (conn_Close penv s),
      NewIPAMClient = \<lambda>_. \<lparr>client_Add = \<lambda>req. on_fst (client_Add client req),
        client_Del = \<lambda>cid. on_fst (client_Del client cid)\<rparr>,
      PrintResult = \<lambda>r v. on_snd (PrintResult penv r v)\<rparr>"

text \<open>Only \<open>PrintResult\<close> writes results to standard output, and then the whole of one.\<close>

definition prints :: "'p plugin_env \<Rightarrow> ('p \<Rightarrow> cni_result list) \<Rightarrow> bool" where
  "prints env out \<longleftrightarrow>
     (\<forall>k v. unchanging out (flag_Set env k v)) \<and> unchanging out (flag_Parse env) \<and>
     (\<forall>s. unchanging out (grpc_Dial env s) \<and> unchanging out (conn_Close env s)) \<and>
     (\<forall>r v w x w'. PrintResult env r v w = Some (x, w') \<longrightarrow>
        out w' = (if x = Ok () then out w @ [r] else out w))"

lemma printsD:
  assumes "prints env out"
  shows "unchanging out (flag_Set env k v)" "unchanging out (flag_Parse env)"
    "unchanging out (grpc_Dial env s)" "unchanging out (conn_Close env s)"
    "PrintResult env r v w = Some (Ok (), w') \<Longrightarrow> out w' = out w @ [r]"
  using assms by (simp_all add: prints_def)

lemma unchanging_on_fst: "unchanging snd (on_fst m)"
  by (auto simp: unchanging_def on_fst_def)

lemma unchanging_both: "unchanging out m \<Longrightarrow> unchanging (\<lambda>w. (fst w, out (snd w))) (on_snd m)"
  by (auto simp: unchanging_def on_snd_def)

lemma own_calls_apart:
  assumes "prints penv out"
  shows "unchanging (\<lambda>w. (fst w, out (snd w))) (initGlog (served client penv) cfg)"
    "unchanging (\<lambda>w. (fst w, out (snd w))) (ipamConn (served client penv) s)"
    "unchanging (\<lambda>w. (fst w, out (snd w))) (conn_Close (served client penv) s)"
  unfolding initGlog_def ipamConn_def served_def
  by (auto intro!: unchanging_intros unchanging_both printsD [OF assms])

lemma closing_Ok:
  assumes "closing c m w = Some (Ok a, w')"
  obtains v where "m w = Some (Ok a, v)" "ignoring c v = Some (Ok (), w')"
proof -
  obtain r v where r: "attempt m w = Some (Ok r, v)" and
    rest: "andthen (ignoring c) (\<lambda>_. of_sum r) v = Some (Ok a, w')"
    using assms unfolding closing_def andthen_eq_Ok by blast
  from r show thesis
  proof (cases rule: attempt_cases)
    case (Ok b)
    then show thesis using rest that by (auto simp: andthen_eq_Ok of_sum_def)
  next
    case (Fail e)
    then show thesis using rest by (auto simp: andthen_eq_Ok of_sum_def)
  qed auto
qed

lemma default_net:
  "parse_cidr ''0.0.0.0/0'' = Some (ipv4 0 0 0 0, \<lparr>net_IP = IP [0, 0, 0, 0], net_Mask = cidr_mask 0 32\<rparr>)"
proof -
  have "''0.0.0.0/0'' = dotted 0 0 0 0 @ ''/'' @ uitoa 0" by code_simp
  moreover have "ip_mask (ipv4 0 0 0 0) (cidr_mask 0 32) = IP [0, 0, 0, 0]" by code_simp
  ultimately show ?thesis using parse_cidr_dotted [of 0 0 0 0 0] by simp
qed

lemma closing_ignoring:
  assumes "closing c (ignoring m) w = Some (r, w')"
  obtains x v where "m w = Some (x, v)" "w' = v \<or> (\<exists>y. c v = Some (y, w'))" "\<And>e. r \<noteq> Fail e"
  using assms
  by (auto simp: closing_def ignoring_def attempt_def andthen_def of_sum_def split: option.splits outcome.splits)

text \<open>A successful \<open>cmdAdd\<close>: one answer of the daemon, one result printed.\<close>

lemma cmdAdd_Ok:
  fixes client :: "'d ipam_client" and penv :: "'p plugin_env"
  assumes prints: "prints penv out"
    and run: "cmdAdd (served client penv) args (d, p) = Some (Ok (), (d', p'))"
  obtains ka resp ip subnet where
    "LoadArgs (ca_Args args) zero_kube_args = Inr ka"
    "client_Add client \<lparr>req_ContainerID = ca_ContainerID args, req_PodName = K8S_POD_NAME ka,
       req_PodNamespace = K8S_POD_NAMESPACE ka\<rparr> d = Some (Ok resp, d')"
    "parse_cidr (resp_SubnetCIDR resp) = Some (ip, subnet)"
    "out p' = out p @ [result_of resp subnet \<lparr>net_IP = IP [0, 0, 0, 0], net_Mask = cidr_mask 0 32\<rparr>]"
proof -
  let ?env = "served client penv"
  let ?v = "\<lambda>w :: 'd \<times> 'p. (fst w, out (snd w))"
  let ?req = "\<lambda>ka. \<lparr>req_ContainerID = ca_ContainerID args, req_PodName = K8S_POD_NAME ka,
           req_PodNamespace = K8S_POD_NAMESPACE ka\<rparr>"
  let ?add = "\<lambda>(ipam :: cni_ipam) (ka :: kube_args). client_Add (NewIPAMClient ?env (IPAMSocketPath ipam)) (?req ka)"
  obtain cfg ka and ipam :: cni_ipam and w1 w2 where ka: "LoadArgs (ca_Args args) zero_kube_args = Inr ka"
    and w1: "initGlog ?env cfg (d, p) = Some (Ok (), w1)"
    and w2: "ipamConn ?env (IPAMSocketPath ipam) w1 = Some (Ok (), w2)"
    and rest: "closing (conn_Close ?env (IPAMSocketPath ipam)) (andthen (?add ipam ka) (print_allocation ?env)) w2 =
      Some (Ok (), (d', p'))"
    using run unfolding cmdAdd_def andthen_eq_Ok wrapping_eq_Ok of_sum_Ok deref_Ok
    by (simp del: split_paired_Ex split_paired_All) blast
  have v2: "?v w2 = ?v (d, p)"
    using unchangingD [OF own_calls_apart(1) [OF prints] w1] unchangingD [OF own_calls_apart(2) [OF prints] w2]
    by simp
  obtain w3 where w3: "andthen (?add ipam ka) (print_allocation ?env) w2 = Some (Ok (), w3)"
    and close: "ignoring (conn_Close ?env (IPAMSocketPath ipam)) w3 = Some (Ok (), (d', p'))"
    using closing_Ok [OF rest] .
  have v3: "?v (d', p') = ?v w3"
    by (rule unchangingD [OF unchanging_ignoring [OF own_calls_apart(3) [OF prints]] close])
  let ?def = "\<lparr>net_IP = IP [0, 0, 0, 0], net_Mask = cidr_mask 0 32\<rparr>"
  obtain resp w4 where resp: "?add ipam ka w2 = Some (Ok resp, w4)" and "print_allocation ?env resp w4 = Some (Ok (), w3)"
    using w3 unfolding andthen_eq_Ok by blast
  then obtain ip subnet where cidr: "parse_cidr (resp_SubnetCIDR resp) = Some (ip, subnet)"
    and print: "PrintResult ?env (result_of resp subnet ?def) current_version w4 = Some (Ok (), w3)"
    by (auto simp: print_allocation_def andthen_eq_Ok wrapping_eq_Ok of_cidr_def default_net of_sum_Ok
      split: option.splits prod.splits)
  have "client_Add client (?req ka) (fst w2) = Some (Ok resp, fst w4)" "snd w4 = snd w2"
    using resp by (auto simp: served_def on_fst_def)
  moreover have "PrintResult penv (result_of resp subnet ?def)
        current_version (snd w4) = Some (Ok (), snd w3)" "fst w3 = fst w4"
    using print by (auto simp: served_def on_snd_def)
  ultimately show thesis
    using that [OF ka _ cidr] v2 v3 printsD(5) [OF prints] by simp
qed

text \<open>
  A run of the plugin, whatever comes of it: at most one call to the daemon, and the plugin's own
  calls leave the daemon alone.
\<close>

lemma closing_run:
  assumes "closing c m w = Some (r, w')"
  obtains x v where "m w = Some (x, v)" "w' = v \<or> (\<exists>y. c v = Some (y, w'))"
  using assms
  by (auto simp: closing_def ignoring_def attempt_def andthen_def of_sum_def split: option.splits outcome.splits)

lemma own_calls_fst:
  fixes client :: "'d ipam_client" and penv :: "'p plugin_env"
  assumes "prints penv out"
  shows "unchanging fst (initGlog (served client penv) cfg)" "unchanging fst (ipamConn (served client penv) s)"
    "unchanging fst (conn_Close (served client penv) s)" "unchanging fst (print_allocation (served client penv) resp)"
proof -
  have apart: "unchanging fst m" if "unchanging (\<lambda>w. (fst w, out (snd w))) m" for m :: "('d \<times> 'p, unit) io"
    using that by (auto simp: unchanging_def)
  show "unchanging fst (initGlog (served client penv) cfg)" "unchanging fst (ipamConn (served client penv) s)"
    "unchanging fst (conn_Close (served client penv) s)"
    by (rule own_calls_apart [OF assms, THEN apart])+
  have "unchanging fst (PrintResult (served client penv) x v)" for x v
    by (auto simp: served_def unchanging_def on_snd_def)
  then show "unchanging fst (print_allocation (served client penv) resp)"
    by (auto simp: print_allocation_def of_cidr_def intro!: unchanging_intros unchanging_of_sum)
qed

lemma cmdAdd_any:
  fixes client :: "'d ipam_client" and penv :: "'p plugin_env"
  assumes "prints penv out" and run: "cmdAdd (served client penv) args (d, p) = Some (r, (d', p'))"
  shows "d' = d \<or> (\<exists>x req. req_ContainerID req = ca_ContainerID args \<and> client_Add client req d = Some (x, d'))"
proof -
  let ?env = "served client penv"
  let ?pre = "andthen (wrapping (\<lambda>e. Wrapf e ''Error unmarshaling config'' [])
       (of_sum (json_unmarshal dec_cni_net (ca_StdinData args)))) (\<lambda>cfg.
     andthen (wrapping (\<lambda>e. Wrapf e ''Error loading CNI arguments'' [])
       (of_sum (LoadArgs (ca_Args args) zero_kube_args))) (\<lambda>ka.
     andthen (initGlog ?env cfg) (\<lambda>_.
     andthen (deref (cni_IPAM cfg)) (\<lambda>ipam.
     andthen (ipamConn ?env (IPAMSocketPath ipam)) (\<lambda>_. ret (ka, IPAMSocketPath ipam))))))"
  let ?add = "\<lambda>(ka :: kube_args, s). client_Add (NewIPAMClient ?env s)
       \<lparr>req_ContainerID = ca_ContainerID args, req_PodName = K8S_POD_NAME ka, req_PodNamespace = K8S_POD_NAMESPACE ka\<rparr>"
  note own = own_calls_fst [OF assms(1)]
  have pre: "unchanging fst ?pre" by (intro unchanging_intros unchanging_of_sum unchanging_deref own)
  have "cmdAdd ?env args = andthen ?pre (\<lambda>x. closing (conn_Close ?env (snd x)) (andthen (?add x) (print_allocation ?env)))"
    by (simp add: cmdAdd_def andthen_assoc del: ret_def)
  from run [unfolded this] show ?thesis
  proof (cases rule: andthen_cases)
    case (Ok x w1)
    have w1: "fst w1 = d" using unchangingD [OF pre Ok(1)] by simp
    obtain y v where y: "andthen (?add x) (print_allocation ?env) w1 = Some (y, v)"
      and close: "(d', p') = v \<or> (\<exists>z. conn_Close ?env (snd x) v = Some (z, (d', p')))"
      using closing_run [OF Ok(2)] .
    have d': "d' = fst v" using close unchangingD [OF own(3)] by fastforce
    obtain z u where z: "?add x w1 = Some (z, u)" and u: "fst v = fst u"
      using y unchangingD [OF own(4)] by (cases rule: andthen_cases) blast+
    have "client_Add client \<lparr>req_ContainerID = ca_ContainerID args, req_PodName = K8S_POD_NAME (fst x),
        req_PodNamespace = K8S_POD_NAMESPACE (fst x)\<rparr> d = Some (z, fst u)"
      using z by (cases x) (auto simp: served_def on_fst_def w1)
    then show ?thesis by (auto simp: d' u)
  qed (use unchangingD [OF pre] in fastforce)+
qed

lemma cmdDel_any:
  fixes client :: "'d ipam_client" and penv :: "'p plugin_env"
  assumes "prints penv out"
    and "cmdDel (served client penv) args (d, p) = Some (r, (d', p'))"
  shows "d' = d \<and> r \<noteq> Ok () \<or> (\<exists>x. client_Del client (ca_ContainerID args) d = Some (x, d') \<and> (\<forall>e. r \<noteq> Fail e))"
proof -
  let ?env = "served client penv"
  let ?pre = "andthen (wrapping (\<lambda>e. Wrapf e ''Error unmarshaling config'' [])
       (of_sum (json_unmarshal dec_cni_net (ca_StdinData args)))) (\<lambda>cfg.
     andthen (initGlog ?env cfg) (\<lambda>_.
     andthen (deref (cni_IPAM cfg)) (\<lambda>ipam.
     andthen (ipamConn ?env (IPAMSocketPath ipam)) (\<lambda>_. ret ipam))))"
  let ?del = "\<lambda>ipam. client_Del (NewIPAMClient ?env (IPAMSocketPath ipam)) (ca_ContainerID args)"
  note own = own_calls_fst [OF assms(1)]
  have pre: "unchanging fst ?pre" by (intro unchanging_intros unchanging_of_sum unchanging_deref own)
  have "cmdDel ?env args = andthen ?pre (\<lambda>ipam. closing (conn_Close ?env (IPAMSocketPath ipam)) (ignoring (?del ipam)))"
    by (simp add: cmdDel_def andthen_assoc del: ret_def)
  from assms(2) [unfolded this] show ?thesis
  proof (cases rule: andthen_cases)
    case (Ok ipam w1)
    have w1: "fst w1 = d" using unchangingD [OF pre Ok(1)] by simp
    show ?thesis
    proof (rule closing_ignoring [OF Ok(2)])
      fix x v
      assume x: "?del ipam w1 = Some (x, v)" "\<And>e. r \<noteq> Fail e"
        and v: "(d', p') = v \<or> (\<exists>y. conn_Close ?env (IPAMSocketPath ipam) v = Some (y, (d', p')))"
      from v have "fst v = d'"
      proof (elim disjE exE)
        fix y assume "conn_Close ?env (IPAMSocketPath ipam) v = Some (y, (d', p'))"
        from unchangingD [OF own(3) this] show "fst v = d'" by simp
      qed auto
      moreover have "client_Del client (ca_ContainerID args) d = Some (x, fst v)"
        using x(1) by (auto simp: served_def on_fst_def w1)
      ultimately show ?thesis using x(2) by blast
    qed
  qed (use unchangingD [OF pre] in fastforce)+
qed

section \<open>What the plugin relies on\<close>

locale ipam_server =
  fixes client :: "'d ipam_client"
    and inv :: "'d \<Rightarrow> bool"
    and owner :: "'d \<Rightarrow> string \<rightharpoonup> string"
    and ifaces :: "'d \<Rightarrow> eni set"
    and reached :: bool
  assumes add_law: "inv d \<Longrightarrow> client_Add client req d = Some (Ok resp, d') \<Longrightarrow>
      \<exists>ip e blk. is_v4 ip \<and> owner d (ip_string ip) = None \<and>
        owner d' = (owner d)(ip_string ip \<mapsto> req_ContainerID req) \<and>
        e \<in> ifaces d \<and> (\<exists>x \<in> set (elems (IPs e)). ip_equal x ip) \<and> sendable_ip (InterfaceIP e) \<and>
        CIDRBlock e = Some blk \<and> sendable_net blk \<and>
        resp = \<lparr>resp_AllocatedIP = ip_string ip, resp_ENIIP = ip_string (InterfaceIP e),
          resp_SubnetCIDR = ipnet_string blk\<rparr>"
    and add_owner: "inv d \<Longrightarrow> client_Add client req d = Some (x, d') \<Longrightarrow>
      owner d' = owner d \<or> (\<exists>k. owner d k = None \<and> owner d' = (owner d)(k \<mapsto> req_ContainerID req))"
    and del_owner: "inv d \<Longrightarrow> client_Del client cid d = Some (y, d') \<Longrightarrow> reached \<Longrightarrow>
      (if cid \<in> ran (owner d) then \<exists>k. owner d k = Some cid \<and> owner d' = (owner d)(k := None)
       else owner d' = owner d)"
    and not_reached: "\<not> reached \<Longrightarrow> client_Add client req d = Some (x, d') \<Longrightarrow> d' = d"
      "\<not> reached \<Longrightarrow> client_Del client cid d = Some (y, d') \<Longrightarrow> d' = d"
    and add_keeps: "keeps inv (client_Add client req)"
    and del_keeps: "keeps inv (client_Del client cid)"
begin

lemma cmdAdd_prints:
  assumes "prints penv out" "inv d"
    and run: "cmdAdd (served client penv) args (d, p) = Some (Ok (), (d', p'))"
  shows "inv d' \<and> (\<exists>ip e blk. is_v4 ip \<and> owner d (ip_string ip) = None \<and>
    owner d' = (owner d)(ip_string ip \<mapsto> ca_ContainerID args) \<and>
    e \<in> ifaces d \<and> (\<exists>x \<in> set (elems (IPs e)). ip_equal x ip) \<and> CIDRBlock e = Some blk \<and>
    out p' = out p @ [\<lparr>res_IPs = [\<lparr>ipc_Address = \<lparr>net_IP = ip_norm ip, net_Mask = net_Mask blk\<rparr>,
        ipc_Gateway = ip_norm (InterfaceIP e)\<rparr>],
      res_Routes = [\<lparr>net_IP = IP [0, 0, 0, 0], net_Mask = cidr_mask 0 32\<rparr>]\<rparr>])"
proof (rule cmdAdd_Ok [OF assms(1) run])
  fix ka resp ip0 subnet
  let ?req = "\<lparr>req_ContainerID = ca_ContainerID args, req_PodName = K8S_POD_NAME ka, req_PodNamespace = K8S_POD_NAMESPACE ka\<rparr>"
  assume add: "client_Add client ?req d = Some (Ok resp, d')"
    and cidr: "parse_cidr (resp_SubnetCIDR resp) = Some (ip0, subnet)"
    and out: "out p' = out p @ [result_of resp subnet \<lparr>net_IP = IP [0, 0, 0, 0], net_Mask = cidr_mask 0 32\<rparr>]"
  obtain ip e blk where ip: "is_v4 ip" "owner d (ip_string ip) = None"
      "owner d' = (owner d)(ip_string ip \<mapsto> ca_ContainerID args)"
      "e \<in> ifaces d" "\<exists>x \<in> set (elems (IPs e)). ip_equal x ip" "CIDRBlock e = Some blk"
    and sendable: "sendable_ip (InterfaceIP e)" "sendable_net blk"
    and resp: "resp = \<lparr>resp_AllocatedIP = ip_string ip, resp_ENIIP = ip_string (InterfaceIP e),
        resp_SubnetCIDR = ipnet_string blk\<rparr>"
    using add_law [OF assms(2) add] by auto
  have "net_Mask subnet = net_Mask blk" using parse_cidr_sendable [OF sendable(2)] cidr by (auto simp: resp)
  then have "result_of resp subnet n = \<lparr>res_IPs = [\<lparr>ipc_Address = \<lparr>net_IP = ip_norm ip, net_Mask = net_Mask blk\<rparr>,
      ipc_Gateway = ip_norm (InterfaceIP e)\<rparr>], res_Routes = [n]\<rparr>" for n
    using ip(1) sendable(1) by (simp add: result_of_def resp parse_ip_string_norm parse_ip_string_sendable)
  with ip out keepsD [OF add_keeps assms(2) add] show ?thesis by auto
qed

text \<open>What a command of any outcome does to the owners.\<close>

lemma cmdAdd_owner:
  assumes "prints penv out" "inv d" "cmdAdd (served client penv) args (d, p) = Some (r, (d', p'))"
  shows "inv d' \<and> (owner d' = owner d \<or>
    (\<exists>k. owner d k = None \<and> owner d' = (owner d)(k \<mapsto> ca_ContainerID args)))"
  using cmdAdd_any [OF assms(1,3)] assms(2) add_owner [OF assms(2)] keepsD [OF add_keeps assms(2)] by metis

lemma cmdDel_owner:
  assumes "prints penv out" "inv d" "cmdDel (served client penv) args (d, p) = Some (r, (d', p'))"
  shows "inv d' \<and> (owner d' = owner d \<and> (r \<noteq> Ok () \<or> \<not> reached) \<or> reached \<and>
    (if ca_ContainerID args \<in> ran (owner d)
     then \<exists>k. owner d k = Some (ca_ContainerID args) \<and> owner d' = (owner d)(k := None)
     else owner d' = owner d))"
  using cmdDel_any [OF assms(1,3)] assms(2) del_owner [OF assms(2)] not_reached(2) keepsD [OF del_keeps assms(2)] by metis

end

section \<open>The daemon behind the socket\<close>

text \<open>
  What becomes of the one call that a plugin process makes. \<open>grpc.Dial\<close> returns before it has
  connected, so a call may fail without reaching the daemon, whose socket may have no listener; and
  a call that the daemon has served may fail on its way back.
\<close>

datatype delivery = Delivered | Unreached error | Reply_lost error

fun over_link :: "delivery \<Rightarrow> ('d, 'a) io \<Rightarrow> ('d, 'a) io" where
  "over_link Delivered m = m"
| "over_link (Unreached e) m = throw e"
| "over_link (Reply_lost e) m = andthen (attempt m) (\<lambda>_. throw e)"

definition reaches :: "delivery \<Rightarrow> bool" where
  "reaches l \<longleftrightarrow> (case l of Unreached _ \<Rightarrow> False | _ \<Rightarrow> True)"

text \<open>A message that arrives is the one that was sent; \<open>g\<close> is what gRPC makes of the service's error.\<close>

definition grpc_client :: "(error \<Rightarrow> error) \<Rightarrow> 'd service \<Rightarrow> delivery \<Rightarrow> 'd ipam_client" where
  "grpc_client g svc l =
     \<lparr>client_Add = \<lambda>req. over_link l (wrapping g (Add svc req)), client_Del = \<lambda>cid. over_link l (wrapping g (Del svc cid))\<rparr>"

lemma over_link_run:
  assumes "over_link l m d = Some (x, d')"
  obtains (unreached) "\<not> reaches l" "d' = d" "\<And>a. x \<noteq> Ok a" | (reached) y where "reaches l" "m d = Some (y, d')" "\<And>a. x = Ok a \<Longrightarrow> y = x"
proof (cases l)
  case Delivered
  with assms reached show thesis by (simp add: reaches_def)
next
  case (Unreached e)
  with assms unreached show thesis by (auto simp: reaches_def)
next
  case (Reply_lost e)
  then have "andthen (attempt m) (\<lambda>_. throw e) d = Some (x, d')" using assms by simp
  then show thesis
  proof (cases rule: andthen_cases)
    case (Ok a w')
    from Ok(1) have "\<exists>y. m d = Some (y, w')" by (auto elim: attempt_cases)
    with Ok(2) Reply_lost reached show thesis by (auto simp: reaches_def)
  qed (use Reply_lost reached in \<open>auto elim!: attempt_cases simp: reaches_def\<close>)
qed

lemma over_link_Ok: "over_link l m d = Some (Ok a, d') \<Longrightarrow> m d = Some (Ok a, d')"
  by (erule over_link_run) auto

lemma keeps_over_link: "keeps P m \<Longrightarrow> keeps P (over_link l m)"
  by (cases l) (auto intro!: keeps_intros)

definition server_ok :: "alloc_state \<times> 'o \<Rightarrow> bool" where
  "server_ok d \<longleftrightarrow> alloc_ok (fst d) \<and> sendable_state (fst d)"

lemma pool_keeps_server:
  "keeps (\<lambda>d. alloc_ok (fst d) \<and> sendable_state (fst d)) (Allocate fs cid name ns)"
  "keeps (\<lambda>d. alloc_ok (fst d) \<and> sendable_state (fst d)) (ReleaseByContainer rank fs cid)"
proof -
  show "keeps (\<lambda>d. alloc_ok (fst d) \<and> sendable_state (fst d)) (Allocate fs cid name ns)"
  proof (rule keepsI)
    fix d r d' assume d: "alloc_ok (fst d) \<and> sendable_state (fst d)" and run: "Allocate fs cid name ns d = Some (r, d')"
    show "alloc_ok (fst d') \<and> sendable_state (fst d')"
      using keepsD [OF alloc_pool.allocate_keeps _ run] d allocate_sendable [of "fst d" fs cid name ns "snd d" r "fst d'" "snd d'"] run
      by (simp add: world_ok_def)
  qed
  show "keeps (\<lambda>d. alloc_ok (fst d) \<and> sendable_state (fst d)) (ReleaseByContainer rank fs cid)"
  proof (rule keepsI)
    fix d r d' assume d: "alloc_ok (fst d) \<and> sendable_state (fst d)" and run: "ReleaseByContainer rank fs cid d = Some (r, d')"
    then have run': "ReleaseByContainer rank fs cid (fst d, snd d) = Some (r, d')" by simp
    show "alloc_ok (fst d') \<and> sendable_state (fst d')"
      by (cases rule: Release_result [OF conjunct1 [OF d] run'])
        (use d in \<open>auto simp: alloc_ok_drop sendable_drop\<close>)
  qed
qed

definition server_enis :: "alloc_state \<times> 'o \<Rightarrow> eni set" where
  "server_enis d = {e. Some e \<in> set (elems (ENIs (fst d)))}"

interpretation daemon_server: ipam_server "grpc_client g (daemon_service cfg name cl fs rank) l" server_ok
    world_owner server_enis "reaches l"
  for g :: "error \<Rightarrow> error" and cfg name and cl :: "'o cluster" and fs rank l
proof
  fix d d' :: "alloc_state \<times> 'o" and req :: add_request and resp
  assume ok: "server_ok d"
    and "client_Add (grpc_client g (daemon_service cfg name cl fs rank) l) req d = Some (Ok resp, d')"
  then have run: "Add (daemon_ipam.svc fs rank cfg name cl cfg) req d = Some (Ok resp, d')"
    by (auto simp: grpc_client_def daemon_service_svc dest!: over_link_Ok)
  have w: "world_ok d" "alloc_ok (fst d)" "sendable_state (fst d)" using ok by (simp_all add: server_ok_def world_ok_def)
  obtain a w1 where al: "Allocate fs (req_ContainerID req) (req_PodName req) (req_PodNamespace req) d = Some (Ok a, w1)"
    and resp: "resp = response_of a" and same: "fst d' = fst w1"
    using daemon_ipam.Add_allocates [OF w(1) run] .
  from al have al': "Allocate fs (req_ContainerID req) (req_PodName req) (req_PodNamespace req) (fst d, snd d) =
    Some (Ok a, w1)" by simp
  show "\<exists>ip e blk. is_v4 ip \<and> world_owner d (ip_string ip) = None \<and>
        world_owner d' = (world_owner d)(ip_string ip \<mapsto> req_ContainerID req) \<and>
        e \<in> server_enis d \<and> (\<exists>x \<in> set (elems (IPs e)). ip_equal x ip) \<and> sendable_ip (InterfaceIP e) \<and>
        CIDRBlock e = Some blk \<and> sendable_net blk \<and>
        resp = \<lparr>resp_AllocatedIP = ip_string ip, resp_ENIIP = ip_string (InterfaceIP e),
          resp_SubnetCIDR = ipnet_string blk\<rparr>"
  proof (cases rule: Allocate_result [OF w(2) al'])
    case (2 b e)
    have "sendable_eni (Some e)" using w(3) 2(5) by (auto simp: sendable_state_def list_all_iff)
    then have "sendable_ip (InterfaceIP e)" "sendable_net (ENISubnet b)"
      using 2(8) by (simp_all add: sendable_eni_def)
    moreover have "\<not> allocated (fst d) (AllocIP b)" using 2(1) by (simp add: free_ips_def)
    ultimately show ?thesis
      using 2 resp same
      by (intro exI [of _ "AllocIP b"] exI [of _ e] exI [of _ "ENISubnet b"])
        (simp add: world_owner_def owners_add allocated_owners server_enis_def response_of_def)
  qed simp
next
  fix d d' :: "alloc_state \<times> 'o" and req :: add_request and x
  assume ok: "server_ok d"
    and "client_Add (grpc_client g (daemon_service cfg name cl fs rank) l) req d = Some (x, d')"
  then have "over_link l (wrapping g (Add (daemon_ipam.svc fs rank cfg name cl cfg) req)) d = Some (x, d')"
    by (simp add: grpc_client_def daemon_service_svc)
  then show "world_owner d' = world_owner d \<or>
      (\<exists>k. world_owner d k = None \<and> world_owner d' = (world_owner d)(k \<mapsto> req_ContainerID req))"
  proof (cases rule: over_link_run)
    case (reached y)
    then obtain z where run: "Add (daemon_ipam.svc fs rank cfg name cl cfg) req d = Some (z, d')" by (auto elim: wrapping_run)
    have "world_ok d" using ok by (simp add: server_ok_def world_ok_def)
    from daemon_ipam.Add_owner [OF this run] show ?thesis .
  qed simp
next
  fix d d' :: "alloc_state \<times> 'o" and cid :: string and x
  assume ok: "server_ok d" and l: "reaches l"
    and "client_Del (grpc_client g (daemon_service cfg name cl fs rank) l) cid d = Some (x, d')"
  then have "over_link l (wrapping g (Del (daemon_ipam.svc fs rank cfg name cl cfg) cid)) d = Some (x, d')"
    by (simp add: grpc_client_def daemon_service_svc)
  then show "if cid \<in> ran (world_owner d) then \<exists>k. world_owner d k = Some cid \<and> world_owner d' = (world_owner d)(k := None)
      else world_owner d' = world_owner d"
  proof (cases rule: over_link_run)
    case (reached y)
    then obtain z where run: "Del (daemon_ipam.svc fs rank cfg name cl cfg) cid d = Some (z, d')" by (auto elim: wrapping_run)
    have "world_ok d" using ok by (simp add: server_ok_def world_ok_def)
    from daemon_ipam.Del_owner [OF this run] show ?thesis .
  qed (use l in simp)
next
  fix d d' :: "alloc_state \<times> 'o" and req cid x y
  assume l: "\<not> reaches l"
  show "client_Add (grpc_client g (daemon_service cfg name cl fs rank) l) req d = Some (x, d') \<Longrightarrow> d' = d"
    "client_Del (grpc_client g (daemon_service cfg name cl fs rank) l) cid d = Some (y, d') \<Longrightarrow> d' = d"
    using l by (auto simp: grpc_client_def elim!: over_link_run)
next
  fix req cid
  have ok: "server_ok = (\<lambda>d. alloc_ok (fst d) \<and> sendable_state (fst d))" by (auto simp: fun_eq_iff server_ok_def)
  have "world_ok w" if "alloc_ok (fst w) \<and> sendable_state (fst w)" for w :: "alloc_state \<times> 'o"
    using that by (simp add: world_ok_def)
  note keeps = daemon_ipam.svc_keeps [where P = "\<lambda>s. alloc_ok s \<and> sendable_state s", OF pool_keeps_server this]
  show "keeps server_ok (client_Add (grpc_client g (daemon_service cfg name cl fs rank) l) req)"
    "keeps server_ok (client_Del (grpc_client g (daemon_service cfg name cl fs rank) l) cid)"
    unfolding ok grpc_client_def daemon_service_svc by (simp_all add: keeps_over_link keeps_wrapping keeps)
qed

section \<open>The printed result\<close>

text \<open>
  C32. What the plugin prints for a container is the daemon's allocation: an address that
  nobody had and that is now the container's, with the mask of its ENI's subnet and the
  ENI's own address as the gateway, whatever the texts in between. Nothing else is printed.
\<close>

theorem plugin_prints_its_allocation:
  assumes "alloc_ok s" "sendable_state s" "prints penv out"
    and "cmdAdd (served (grpc_client g (daemon_service cfg name cl fs rank) l) penv) args ((s, w), p) =
      Some (Ok (), ((s', w'), p'))"
  shows "\<exists>ip e blk. owners s (ip_string ip) = None \<and>
    owners s' = (owners s)(ip_string ip \<mapsto> ca_ContainerID args) \<and>
    Some e \<in> set (elems (ENIs s)) \<and> (\<exists>x \<in> set (elems (IPs e)). ip_equal x ip) \<and> CIDRBlock e = Some blk \<and>
    out p' = out p @ [\<lparr>res_IPs = [\<lparr>ipc_Address = \<lparr>net_IP = ip_norm ip, net_Mask = net_Mask blk\<rparr>,
        ipc_Gateway = ip_norm (InterfaceIP e)\<rparr>],
      res_Routes = [\<lparr>net_IP = IP [0, 0, 0, 0], net_Mask = cidr_mask 0 32\<rparr>]\<rparr>] \<and>
    alloc_ok s' \<and> sendable_state s'"
  using daemon_server.cmdAdd_prints [OF assms(3) _ assms(4)] assms(1,2)
  by (auto simp: server_ok_def world_owner_def server_enis_def)

text \<open>
  C34. The plugin drops the result of a release: when \<open>cmdDel\<close> returns an error it has not
  reached the daemon, and when it returns none the release may have failed.
\<close>

theorem plugin_drops_release_errors:
  fixes client :: "'d ipam_client" and penv :: "'p plugin_env"
  assumes "prints penv out"
    and "cmdDel (served client penv) args (d, p) = Some (r, (d', p'))"
  shows "d' = d \<and> r \<noteq> Ok () \<or> (\<exists>x. client_Del client (ca_ContainerID args) d = Some (x, d') \<and> (\<forall>e. r \<noteq> Fail e))"
  using cmdDel_any [OF assms] .

section \<open>A pod\<close>

definition demo_cni :: cni_net where
  "demo_cni = cni_config \<lparr>CNIVLevel = 2\<rparr> ''/run/ipam.sock''"

definition demo_stdin :: string where
  "demo_stdin = (case json_marshal enc_cni_net demo_cni of Inl _ \<Rightarrow> [] | Inr t \<Rightarrow> t)"

definition demo_cmd :: cmd_args where
  "demo_cmd = \<lparr>ca_ContainerID = ''c2'', ca_Args = ''IgnoreUnknown=1;K8S_POD_NAMESPACE='' @ ''default'' @
     '';K8S_POD_NAME='' @ ''web'' @ '';K8S_POD_INFRA_CONTAINER_ID='' @ ''c2'', ca_StdinData = demo_stdin\<rparr>"

definition demo_penv :: "cni_result list plugin_env" where
  "demo_penv = \<lparr>flag_Set = \<lambda>k v. ret (), flag_Parse = ret (), grpc_Dial = \<lambda>s. ret (), conn_Close = \<lambda>s. ret (),
     NewIPAMClient = \<lambda>s. \<lparr>client_Add = \<lambda>req. throw (ExtErr s), client_Del = \<lambda>cid. throw (ExtErr s)\<rparr>,
     PrintResult = \<lambda>r v out. Some (Ok (), out @ [r])\<rparr>"

lemma demo_penv_prints: "prints demo_penv (\<lambda>out. out)"
  by (auto simp: prints_def demo_penv_def intro: unchanging_basic)

lemma demo_stdin_cni: "json_unmarshal dec_cni_net demo_stdin = Inr demo_cni"
proof -
  have "sendable_cni demo_cni" by (simp add: sendable_cni_def demo_cni_def cni_config_def int64_def)
  then obtain t where "json_marshal enc_cni_net demo_cni = Inr t" "json_unmarshal dec_cni_net t = Inr demo_cni"
    by (rule cni_json.printed.encE)
  then show ?thesis by (simp add: demo_stdin_def)
qed

lemma demo_cmd_args: "LoadArgs (ca_Args demo_cmd) zero_kube_args = Inr \<lparr>IgnoreUnknown = True, ka_IP = nil_ip,
    K8S_POD_NAME = ''web'', K8S_POD_NAMESPACE = ''default'', K8S_POD_INFRA_CONTAINER_ID = ''c2''\<rparr>"
  unfolding demo_cmd_def cmd_args.simps by (rule LoadArgs_kubelet) auto

lemma demo_cmd_run:
  assumes "client_Add client demo_request d = Some (Ok resp, d')" "parse_cidr (resp_SubnetCIDR resp) = Some (ip, n)"
  shows "cmdAdd (served client demo_penv) demo_cmd (d, out) =
    Some (Ok (), (d', out @ [result_of resp n \<lparr>net_IP = IP [0, 0, 0, 0], net_Mask = cidr_mask 0 32\<rparr>]))"
proof -
  have "ca_StdinData demo_cmd = demo_stdin" "ca_ContainerID demo_cmd = ''c2''" by (simp_all add: demo_cmd_def)
  then show ?thesis
    using assms demo_stdin_cni demo_cmd_args
    by (simp add: cmdAdd_def initGlog_def ipamConn_def served_def demo_penv_def demo_cni_def cni_config_def deref_def
      closing_def print_allocation_def of_cidr_def default_net of_sum_def demo_request_def)
qed

lemma demo_cmd_works:
  assumes "alloc_ok s" "sendable_state s" "free_ips s \<noteq> []"
  obtains r s' w' where "cmdAdd (served (grpc_client (\<lambda>e. e) demo_service Delivered) demo_penv) demo_cmd ((s, w), out) =
      Some (Ok (), ((s', w'), out @ [r]))" "alloc_ok s'" "sendable_state s'" "length (free_ips s) = Suc (length (free_ips s'))"
proof -
  let ?client = "grpc_client (\<lambda>e. e) demo_service Delivered"
  obtain resp s' w' where "Add demo_service demo_request (s, w) = Some (Ok resp, (s', w'))"
    and s': "alloc_ok s'" "sendable_state s'" "length (free_ips s) = Suc (length (free_ips s'))"
    using demo_add_from [OF assms] by blast
  then have add: "client_Add ?client demo_request (s, w) = Some (Ok resp, (s', w'))"
    by (simp add: grpc_client_def)
  have ok: "server_ok (s, w)" using assms by (simp add: server_ok_def)
  obtain blk where "sendable_net blk" "resp_SubnetCIDR resp = ipnet_string blk"
    using daemon_server.add_law [OF ok add [unfolded demo_service_def]] by auto
  then obtain ip n where "parse_cidr (resp_SubnetCIDR resp) = Some (ip, n)"
    using parse_cidr_sendable [of blk] by metis
  from demo_cmd_run [OF add this, of out] s' show thesis by (rule that)
qed

theorem plugin_prints_its_allocation_witness:
  "\<exists>s' w' ip. cmdAdd (served (grpc_client (\<lambda>e. e) demo_service Delivered) demo_penv) demo_cmd ((demo_busy, Map.empty), []) =
      Some (Ok (), ((s', w'), [\<lparr>res_IPs = [\<lparr>ipc_Address = \<lparr>net_IP = ip_norm ip, net_Mask = [255, 255, 255, 0]\<rparr>,
        ipc_Gateway = ip_norm (IP [10, 0, 0, 10])\<rparr>],
      res_Routes = [\<lparr>net_IP = IP [0, 0, 0, 0], net_Mask = cidr_mask 0 32\<rparr>]\<rparr>])) \<and>
    owners s' = (owners demo_busy)(ip_string ip \<mapsto> ''c2'')"
proof -
  obtain r s1 w1 where run: "cmdAdd (served (grpc_client (\<lambda>e. e) demo_service Delivered) demo_penv) demo_cmd ((demo_busy, Map.empty), []) =
      Some (Ok (), ((s1, w1), [] @ [r]))"
    using demo_cmd_works [OF demo_ok(2) demo_sendable(2)] demo_free_ips by (metis list.distinct(1))
  have "ca_ContainerID demo_cmd = ''c2''" by (simp add: demo_cmd_def)
  with plugin_prints_its_allocation [OF demo_ok(2) demo_sendable(2) demo_penv_prints run [unfolded demo_service_def]] run
  show ?thesis by (auto simp: demo_defs)
qed

theorem plugin_drops_release_errors_witness:
  "cmdDel (served \<lparr>client_Add = \<lambda>req. throw (ExtErr ''down''), client_Del = \<lambda>cid. throw (ExtErr ''down'')\<rparr> demo_penv)
     demo_cmd ((), []) = Some (Ok (), ((), [])) \<and>
   (\<exists>e. client_Del \<lparr>client_Add = \<lambda>req. throw (ExtErr ''down''), client_Del = \<lambda>cid. throw (ExtErr ''down'')\<rparr>
     (ca_ContainerID demo_cmd) () = Some (Fail e, ()))"
proof -
  let ?client = "\<lparr>client_Add = \<lambda>req. throw (ExtErr ''down''), client_Del = \<lambda>cid. throw (ExtErr ''down'')\<rparr> :: unit ipam_client"
  have "ca_StdinData demo_cmd = demo_stdin" by (simp add: demo_cmd_def)
  then have run: "cmdDel (served ?client demo_penv) demo_cmd ((), []) = Some (Ok (), ((), []))"
    using demo_stdin_cni
    by (simp add: cmdDel_def initGlog_def ipamConn_def served_def demo_penv_def demo_cni_def cni_config_def deref_def
      closing_def of_sum_def)
  from plugin_drops_release_errors [OF demo_penv_prints run] run show ?thesis by auto
qed

end
