(* ===== verification/Pod_Wiring.thy ===== *)
theory Pod_Wiring
  imports Daemon_Witness Plugin_Theorems
begin

text \<open>
  The way of an address on its node: from the interface list in the annotation of the node
  object, through a run of the daemon's handler and a call of the plugin, to the printed result.
\<close>

lemma attached_norm: "attached_enis (map (map_option eni_norm) nc) = map eni_norm (attached_enis nc)"
  by (induction nc rule: attached_enis.induct) (simp_all add: eni_norm_def)

lemma ip_norm_idem [simp]: "ip_norm (ip_norm ip) = ip_norm ip"
  by (simp add: ip_norm_def canon_def v4_in_v6_prefix_def)

lemma ip_equal_norms: "ip_equal a b \<longleftrightarrow> ip_norm a = ip_norm b"
  by (simp add: ip_norm_def ip_equal_canon)

lemma set_attached: "e \<in> set (attached_enis ps) \<longleftrightarrow> Some e \<in> set ps \<and> Attached e"
  by (auto simp: set_attached_enis)

text \<open>One run of the daemon on a node, then one of the plugin.\<close>

lemma pod_from_own_node:
  assumes tables: "host_tables (mgr_host i) net" "files_apart fs net"
    and own: "own_node iid lister key w nd ps"
    and enis: "list_all sendable_eni (map Some (attached_enis ps))" "distinct (map interface_name (attached_enis ps))"
      "enis_ok (Some (map Some (attached_enis ps)))"
    and fresh: "\<forall>e \<in> set (attached_enis ps). interface_name e \<notin> host_ifs (net w)"
    and pool: "alloc_ok s" "sendable_state s"
    and handled: "if_handleNode (daemon_if_controller iid hostIP i fs inst lister) key (s, w) = Some (Ok (), (s1, w1))"
    and plugin: "prints penv out"
      "cmdAdd (served (grpc_client g (daemon_service cfg name cl fs rank) l) penv) args ((s1, w1), p) =
        Some (Ok (), ((s2, w2), p'))"
  obtains e ip blk where "e \<in> set (attached_enis ps)" "owners s (ip_string ip) = None"
    "owners s2 = (owners s)(ip_string ip \<mapsto> ca_ContainerID args)"
    "\<exists>x \<in> set (elems (IPs e)). ip_equal x ip" "CIDRBlock e = Some blk"
    "out p' = out p @ [\<lparr>res_IPs = [\<lparr>ipc_Address = \<lparr>net_IP = ip_norm ip, net_Mask = net_Mask blk\<rparr>,
        ipc_Gateway = ip_norm (InterfaceIP e)\<rparr>],
      res_Routes = [\<lparr>net_IP = IP [0, 0, 0, 0], net_Mask = cidr_mask 0 32\<rparr>]\<rparr>]"
    "pods_routed (net w1) (Index e) (elems (IPs e))" "pods_natted (net w1) (elems (IPs e))"
proof -
  let ?es = "attached_enis ps"
  have sane: "daemon_ifs.sane net (s, w) ps"
    using enis(2) fresh by (simp add: daemon_ifs.sane_def)
  from tables(2) handled [unfolded handle_own_node [OF own]]
  obtain v where s1: "s1 = s\<lparr>ENIs := Some (map Some ?es)\<rparr>" "net w1 = net v"
    and wired: "\<forall>e \<in> set ?es. pods_routed (net v) (Index e) (elems (IPs e)) \<and> pods_natted (net v) (elems (IPs e))"
  proof (cases rule: offer_enis_run)
    case (Offered es v)
    from daemon_ifs.configure_all_Ok [OF tables(1) sane Offered(1)] Offered that show ?thesis
      by (auto simp: daemon_ifs.wired_def)
  qed simp
  have "alloc_ok s1" "sendable_state s1"
    using pool enis(1,3) by (simp_all add: s1(1) alloc_ok_SetENIs sendable_state_def)
  then have server: "server_ok (s1, w1)" by (simp add: server_ok_def)
  have "owners s1 = owners s" by (simp add: s1(1))
  with daemon_server.cmdAdd_prints [OF plugin(1) server plugin(2)]
  obtain ip e blk where "owners s (ip_string ip) = None" "owners s2 = (owners s)(ip_string ip \<mapsto> ca_ContainerID args)"
      "\<exists>x \<in> set (elems (IPs e)). ip_equal x ip" "CIDRBlock e = Some blk" "e \<in> set ?es"
    and "out p' = out p @ [\<lparr>res_IPs = [\<lparr>ipc_Address = \<lparr>net_IP = ip_norm ip, net_Mask = net_Mask blk\<rparr>,
        ipc_Gateway = ip_norm (InterfaceIP e)\<rparr>],
      res_Routes = [\<lparr>net_IP = IP [0, 0, 0, 0], net_Mask = cidr_mask 0 32\<rparr>]\<rparr>]"
    by (auto simp: world_owner_def server_enis_def s1(1))
  with wired s1(2) show thesis by (intro that [of e ip blk]) simp_all
qed

text \<open>A pod on the node of \<open>Daemon_Witness\<close>, from the daemon's first run to the printed result.\<close>

lemma wired_state:
  "alloc_ok (demo_free\<lparr>ENIs := Some [Some wired_eni]\<rparr>)" "sendable_state (demo_free\<lparr>ENIs := Some [Some wired_eni]\<rparr>)"
  "free_ips (demo_free\<lparr>ENIs := Some [Some wired_eni]\<rparr>) \<noteq> []"
proof -
  have "enis_ok (Some [Some wired_eni])" by (simp add: enis_ok_def wired_eni_def)
  then show "alloc_ok (demo_free\<lparr>ENIs := Some [Some wired_eni]\<rparr>)" by (rule alloc_ok_SetENIs [OF demo_ok(1)])
  show "sendable_state (demo_free\<lparr>ENIs := Some [Some wired_eni]\<rparr>)"
    using demo_sendable(1) wired_eni_sendable by (simp add: sendable_state_def)
  have "pool (demo_free\<lparr>ENIs := Some [Some wired_eni]\<rparr>) = [ipv4 10 1 0 9]"
    by (simp add: pool_def live_enis_def pool_ips_def wired_eni_def)
  then show "free_ips (demo_free\<lparr>ENIs := Some [Some wired_eni]\<rparr>) \<noteq> []"
    by (simp add: free_ips_def allocated_def) (simp add: demo_defs)
qed

lemma wired_add:
  "\<exists>resp d ip n. client_Add (grpc_client (\<lambda>e. e) (daemon_service quiet_config ''node-1'' no_cluster ready_files (\<lambda>_. 0)) Delivered)
     demo_request (demo_free\<lparr>ENIs := Some [Some wired_eni]\<rparr>, t) = Some (Ok resp, d) \<and>
     parse_cidr (resp_SubnetCIDR resp) = Some (ip, n)"
proof -
  let ?s = "demo_free\<lparr>ENIs := Some [Some wired_eni]\<rparr>"
  let ?svc = "daemon_service quiet_config ''node-1'' no_cluster ready_files (\<lambda>_. 0)"
  obtain a s' w' where a: "Allocate ready_files ''c2'' ''web'' ''default'' (?s, t) = Some (Ok a, (s', w'))"
    using allocate_works_if_written [OF wired_state(1,2) _ wired_state(3), of ready_files] ready_write by metis
  have "alloc_ok s'" using keepsD [OF alloc_pool.allocate_keeps _ a] wired_state(1) by (auto simp: world_ok_def)
  then have "Add ?svc demo_request (?s, t) = Some (Ok (response_of a), (s', w'))"
    using FreeAddressCount_ok [OF alloc_ok_state(2), of s' w'] a
    unfolding daemon_service_svc daemon_ipam.Add_svc
    by (simp add: demo_request_def quiet_notices ignoring_def attempt_def)
  then have add: "client_Add (grpc_client (\<lambda>e. e) ?svc Delivered) demo_request (?s, t) = Some (Ok (response_of a), (s', w'))"
    by (simp add: grpc_client_def)
  have "server_ok (?s, t)" using wired_state by (simp add: server_ok_def)
  from daemon_server.add_law [OF this add]
  obtain blk where "sendable_net blk" "resp_SubnetCIDR (response_of a) = ipnet_string blk" by auto
  then obtain ip n where "parse_cidr (resp_SubnetCIDR (response_of a)) = Some (ip, n)"
    using parse_cidr_sendable [of blk] by metis
  with add show ?thesis by blast
qed

end
