(* ===== verification/New_Node.thy ===== *)
theory New_Node
  imports Pod_Wiring
begin

text \<open>
  A node that the ENI controller is done with, as the daemon of that node finds it: its
  interface list can be read, each interface has a name of its own on the host, and the
  allocator takes the list.
\<close>

definition node_addresses :: "node \<Rightarrow> net_ip list" where
  "node_addresses n = concat (map (\<lambda>e. elems (IPs e)) (attached_enis (interfaces_of n)))"

definition eni_names :: "int \<Rightarrow> string set" where
  "eni_names k = {''eni'' @ itoa j | j. 1 \<le> j \<and> j < k}"

lemma itoa_inj: "int64 i \<Longrightarrow> int64 j \<Longrightarrow> itoa i = itoa j \<Longrightarrow> i = j"
  unfolding int64_def using parse_int64_itoa by (metis option.inject)

lemma attached_all_enis: "\<forall>e \<in> set es. Attached e \<Longrightarrow> attached_enis (map Some es) = es"
  by (induction es) simp_all

text \<open>What the last run has left in the annotation.\<close>

lemma done_list:
  assumes "node_good itype k n" "todo k n = 0" "InstanceENIsAvailable itype = Some k"
  obtains es where "ENIConfigFromAnnotations (Annotations n) = Inr (Some (map Some es))"
    "interfaces_of n = map Some es" "attached_enis (map Some es) = es" "length es = nat (k - 1)"
    "\<forall>i < length es. Index (es ! i) = int i + 1" "list_all usable_eni (map Some es)"
proof -
  have k: "2 \<le> k" using InstanceENIsAvailable_bounds [OF assms(3)] by simp
  obtain cfg where cfg: "ENIConfigFromAnnotations (Annotations n) = Inr cfg"
    using assms(1) by (auto simp: node_good_def)
  then have ifs: "interfaces_of n = elems cfg" by (simp add: interfaces_of_def)
  note list = todo_zero [OF assms(1,2)]
  have some: "cfg = Some (interfaces_of n)" using list k ifs by (cases cfg) auto
  define es where "es = map the (interfaces_of n)"
  have es: "interfaces_of n ! i = Some (es ! i) \<and> Attached (es ! i) \<and> Index (es ! i) = int i + 1" if "i < nat (k - 1)" for i
    using list that by (auto simp: es_def)
  have len: "length es = nat (k - 1)" using list by (simp add: es_def)
  have map: "interfaces_of n = map Some es"
    using es list len by (intro nth_equalityI) auto
  have "\<forall>e \<in> set es. Attached e" using es len by (metis in_set_conv_nth)
  then have att: "attached_enis (map Some es) = es" by (rule attached_all_enis)
  have "list_all usable_eni (map Some es)"
    using assms(1) unfolding map [symmetric] by (simp add: node_good_def)
  with cfg some map att len es show thesis by (intro that [of es]) simp_all
qed

lemma done_names:
  assumes "length es = nat (k - 1)" "\<forall>i < length es. Index (es ! i) = int i + 1" "k \<le> 15"
  shows "distinct (map interface_name es)" "interface_name ` set es \<subseteq> eni_names k"
    "\<And>e. e \<in> set es \<Longrightarrow> 1 \<le> Index e \<and> Index e < k"
proof -
  show idx: "1 \<le> Index e \<and> Index e < k" if "e \<in> set es" for e
    using that assms(1,2) by (auto simp: in_set_conv_nth)
  then show "interface_name ` set es \<subseteq> eni_names k"
    by (auto simp: eni_names_def interface_name_def)
  have "interface_name (es ! i) \<noteq> interface_name (es ! j)" if "i < length es" "j < length es" "i \<noteq> j" for i j
    using that assms(2) idx [of "es ! i"] idx [of "es ! j"] itoa_inj [of "Index (es ! i)" "Index (es ! j)"] assms(3)
    by (auto simp: interface_name_def int64_def)
  then show "distinct (map interface_name es)" by (simp add: distinct_conv_nth)
qed

lemma done_offer:
  assumes "list_all usable_eni (map Some es)" "distinct (map ip_string (concat (map (\<lambda>e. elems (IPs e)) es)))"
  shows "enis_ok (Some (map Some es))"
  using assms by (auto simp: enis_ok_def list_all_iff usable_eni_def comp_def)

text \<open>
  The daemon of that node, and a pod on it. The host has no interface yet whose name the daemon
  would give to one of the new ones.
\<close>

lemma pod_from_done_node:
  assumes node: "node_good itype k n" "todo k n = 0" "InstanceENIsAvailable itype = Some k"
      "ProviderID n \<noteq> []" "ProviderIDToAWSInstanceID (ProviderID n) = Inr iid"
    and ips: "distinct (map ip_string (node_addresses n))"
    and seen: "lister key w = Some (Ok n, w)"
    and tables: "host_tables (mgr_host i) net" "files_apart fs net" "eni_names k \<inter> host_ifs (net w) = {}"
    and pool: "alloc_ok s" "sendable_state s"
    and handled: "if_handleNode (daemon_if_controller iid hostIP i fs inst lister) key (s, w) = Some (Ok (), (s1, w1))"
    and plugin: "prints penv out"
      "cmdAdd (served (grpc_client g (daemon_service cfg name cl fs rank) l) penv) args ((s1, w1), p) =
        Some (Ok (), ((s2, w2), p'))"
  obtains e ip blk where "Some e \<in> set (interfaces_of n)" "1 \<le> Index e \<and> Index e < k" "owners s (ip_string ip) = None"
    "owners s2 = (owners s)(ip_string ip \<mapsto> ca_ContainerID args)"
    "\<exists>x \<in> set (elems (IPs e)). ip_equal x ip" "CIDRBlock e = Some blk"
    "out p' = out p @ [\<lparr>res_IPs = [\<lparr>ipc_Address = \<lparr>net_IP = ip_norm ip, net_Mask = net_Mask blk\<rparr>,
        ipc_Gateway = ip_norm (InterfaceIP e)\<rparr>],
      res_Routes = [\<lparr>net_IP = IP [0, 0, 0, 0], net_Mask = cidr_mask 0 32\<rparr>]\<rparr>]"
    "pods_routed (net w1) (Index e) (elems (IPs e))" "pods_natted (net w1) (elems (IPs e))"
proof -
  obtain es where es: "ENIConfigFromAnnotations (Annotations n) = Inr (Some (map Some es))"
    "interfaces_of n = map Some es" "attached_enis (map Some es) = es" "length es = nat (k - 1)"
    "\<forall>i < length es. Index (es ! i) = int i + 1" "list_all usable_eni (map Some es)"
    by (rule done_list [OF node(1-3)])
  have k: "k \<le> 15" using InstanceENIsAvailable_bounds [OF node(3)] by simp
  note names = done_names [OF es(4,5) k]
  have own: "own_node iid lister key w n (map Some es)"
    using seen node(4,5) es(1) by (simp add: own_node_def)
  have ok: "list_all sendable_eni (map Some (attached_enis (map Some es)))"
    "distinct (map interface_name (attached_enis (map Some es)))"
    "enis_ok (Some (map Some (attached_enis (map Some es))))"
    "\<forall>e \<in> set (attached_enis (map Some es)). interface_name e \<notin> host_ifs (net w)"
    unfolding es(3) using usable_sendable [OF es(6)] names(1,2) tables(3) done_offer [OF es(6)] ips
    by (auto simp: node_addresses_def es(2,3))
  show thesis
    by (rule pod_from_own_node [OF tables(1,2) own ok pool handled plugin], unfold es(3),
        rule that, simp_all add: es(2) names(3))
qed

section \<open>A small cluster\<close>

text \<open>The four runs of \<open>cloud\<close> for its node, each with the node object it leaves.\<close>

definition cloud_info :: aws_instance_info where
  "cloud_info = \<lparr>InstanceType = ''t2.nano'', SubnetID = ''subnet-1'',
     SubnetCIDR = Some \<lparr>net_IP = ip_mask (ipv4 10 1 0 0) (cidr_mask 16 32), net_Mask = cidr_mask 16 32\<rparr>,
     SecurityGroupIDs = Some [''sg-1'']\<rparr>"

definition info_text :: string where
  "info_text = (case marshal_info cloud_info of Inl _ \<Rightarrow> [] | Inr t \<Rightarrow> t)"

lemma cloud_info_written: "sendable_info cloud_info" "marshal_info cloud_info = Inr info_text"
proof -
  show ok: "sendable_info cloud_info" using cloud_net by (simp add: sendable_info_def cloud_info_def)
  then obtain t where "marshal_info cloud_info = Inr t"
    using info_json.printed.encE by (metis marshal_info_def)
  then show "marshal_info cloud_info = Inr info_text" by (simp add: info_text_def)
qed

definition cloud_node_at :: "string list \<Rightarrow> (string \<rightharpoonup> string) \<Rightarrow> (string \<rightharpoonup> string) \<Rightarrow> node" where
  "cloud_node_at vs labels annotations = cloud_node\<lparr>ResourceVersion := concat vs, Labels := Some labels,
     Annotations := Some annotations\<rparr>"

lemma cloud_node_at_simps [simp]:
  "node_Name (cloud_node_at vs l a) = ''node-1''" "Labels (cloud_node_at vs l a) = Some l"
  "Annotations (cloud_node_at vs l a) = Some a" "ProviderID (cloud_node_at vs l a) = ''i-1''"
  by (simp_all add: cloud_node_at_def cloud_node_def)

lemma cloud_write:
  "UpdateNode (ec_nodes cloud) name (set_annotation key t) (cloud_node_at vs l a) =
     Some (Ok (), cloud_node_at (vs @ [''v'']) l (a(key \<mapsto> t)))"
  "UpdateNode (ec_nodes cloud) name (set_label key t) (cloud_node_at vs l a) =
     Some (Ok (), cloud_node_at (vs @ [''v'']) (l(key \<mapsto> t)) a)"
  by (simp_all add: UpdateNode_def update_loop.simps cloud_def set_annotation_def set_label_def go_assign_def cloud_node_at_def)

lemma cloud_handle:
  assumes "AWSInstanceInfoFromAnnotations (Some a) = Inr info"
  shows "handleNode cloud ''node-1'' (cloud_node_at vs l a) =
    (case info of None \<Rightarrow> save_instance_info cloud (cloud_node_at vs l a) ''i-1'' (cloud_node_at vs l a)
     | Some i \<Rightarrow> configure_enis cloud (cloud_node_at vs l a) ''i-1'' i (cloud_node_at vs l a))"
  by (rule handleNode_info [OF cloud_cooperates]) (simp_all add: assms cloud_node_id)

lemma cloud_saves:
  "handleNode cloud ''node-1'' (cloud_node_at vs l Map.empty) =
     Some (Ok (), cloud_node_at (vs @ [''v'']) l [EC2InfoKey \<mapsto> info_text])"
proof -
  let ?w = "cloud_node_at vs l Map.empty"
  have "AWSInstanceInfoFromAnnotations (Some Map.empty) = Inr None"
    by (simp add: AWSInstanceInfoFromAnnotations_def go_lookup_def)
  moreover have "getInstance cloud ''node-1'' ''i-1'' ?w = Some (Ok (Some \<lparr>inst_InstanceType = Some ''t2.nano'',
      inst_SubnetId = Some ''subnet-1'', inst_SecurityGroups = [Some ''sg-1'']\<rparr>), ?w)"
    by (simp add: getInstance_def cloud_def cloud_ec2_def)
  moreover have "DescribeSubnets (ec_ec2 cloud) ''subnet-1'' ?w = Some (Ok [Some ''10.1.0.0/16''], ?w)"
    by (simp add: cloud_def cloud_ec2_def)
  ultimately show ?thesis
    using cloud_info_written(2)
    by (simp add: cloud_handle save_instance_info_def of_sum_def deref_def cloud_texts append_slice_def
      cloud_info_def cloud_write)
qed

lemma cloud_info_read:
  "a EC2InfoKey = Some info_text \<Longrightarrow> AWSInstanceInfoFromAnnotations (Some a) = Inr (Some (info_norm cloud_info))"
  by (rule AWSInstanceInfo_of_marshal [OF cloud_info_written]) (simp add: go_lookup_def)

lemma cloud_info_norm: "info_norm cloud_info = cloud_info\<lparr>SubnetCIDR := CIDRBlock wired_eni\<rparr>"
proof -
  have "ip_mask (ipv4 10 1 0 0) (cidr_mask 16 32) = IP [10, 1, 0, 0]"
    by (simp add: ip_mask_def ipv4_def cidr_mask_def mask_byte_def upt_rec ip_to4_def v4_in_v6_prefix_def)
  then have "ip_norm (ip_mask (ipv4 10 1 0 0) (cidr_mask 16 32)) = ipv4 10 1 0 0"
    by (simp add: ip_norm_def canon_def ipv4_def)
  then show ?thesis by (simp add: info_norm_def cloud_info_def wired_eni_def net_norm_def)
qed

abbreviation new_eni :: eni where
  "new_eni \<equiv> wired_eni\<lparr>Attached := False\<rparr>"

definition new_text :: string where
  "new_text = (case marshal_enis (Some [Some new_eni]) of Inl _ \<Rightarrow> [] | Inr t \<Rightarrow> t)"

lemma new_eni_written:
  "list_all sendable_eni (elems (Some [Some new_eni]))" "marshal_enis (Some [Some new_eni]) = Inr new_text"
proof -
  show ok: "list_all sendable_eni (elems (Some [Some new_eni]))"
    using wired_eni_sendable by (simp add: sendable_eni_def)
  obtain t where "marshal_enis (Some [Some new_eni]) = Inr t"
    using enis_json.printed.encE [OF ok] by (auto simp: marshal_enis_def)
  then show "marshal_enis (Some [Some new_eni]) = Inr new_text" by (simp add: new_text_def)
qed

lemma new_eni_norm: "eni_norm new_eni = new_eni"
  by (simp add: eni_norm_def wired_eni_def net_norm_def ip_norm_v4)

abbreviation cloud_label :: "string \<rightharpoonup> string" where
  "cloud_label \<equiv> [LabelAWSInstanceID \<mapsto> ''i-1'']"

abbreviation cloud_annotations :: "string \<Rightarrow> string \<rightharpoonup> string" where
  "cloud_annotations t \<equiv> [EC2InfoKey \<mapsto> info_text, IFSKey \<mapsto> t]"

text \<open>A run after the first, for any interface list.\<close>

lemma cloud_configures:
  assumes "a EC2InfoKey = Some info_text" "ENIConfigFromAnnotations (Some a) = Inr cfg"
  shows "handleNode cloud ''node-1'' (cloud_node_at vs l a) =
    (if l LabelAWSInstanceID = None
     then UpdateNode (ec_nodes cloud) ''node-1'' (set_label LabelAWSInstanceID ''i-1'')
     else case find_unattached 0 (elems cfg) of
        None \<Rightarrow> go_panic ''nil pointer dereference''
      | Some (Some (i, e)) \<Rightarrow> attach_one cloud (cloud_node_at vs l a) ''i-1'' (elems cfg) i e
      | Some None \<Rightarrow>
          if int (length (elems cfg)) < 1
          then create_one cloud (cloud_node_at vs l a) (info_norm cloud_info) 2 (elems cfg)
          else ret ()) (cloud_node_at vs l a)"
proof -
  have ty: "InstanceType (info_norm cloud_info) = ''t2.nano''"
    by (simp only: cloud_info_norm) (simp add: cloud_info_def)
  have tables: "InstanceENIsAvailable ''t2.nano'' = Some 2" "InstanceIPsAvailable ''t2.nano'' = Some 2"
    by (simp_all add: InstanceENIsAvailable_def enis_table_def InstanceIPsAvailable_def ips_table_def)
  show ?thesis
    unfolding cloud_handle [OF cloud_info_read [of a, OF assms(1)]] configure_enis_def ty tables option.case
    using assms(2) by (simp add: cloud_write of_sum_def go_lookup_def Let_def)
qed

text \<open>The label, the interface, its attachment.\<close>

lemma annotation_list:
  assumes "list_all sendable_eni [Some e]" "marshal_enis (Some [Some e]) = Inr t" "eni_norm e = e"
  shows "ENIConfigFromAnnotations (Some (cloud_annotations t)) = Inr (Some [Some e])"
  using ENIConfig_of_marshal [OF _ assms(2), of "Some (cloud_annotations t)"] assms(1,3) by (simp add: go_lookup_def)

lemma cloud_runs:
  "runs 4 cloud ''node-1'' cloud_node =
     Some (Ok (), cloud_node_at [''v'', ''v'', ''v'', ''v''] cloud_label (cloud_annotations eni_text))"
proof -
  let ?at = "\<lambda>vs l a. cloud_node_at (map (\<lambda>_. ''v'') vs) l a"
  have n0: "cloud_node = ?at ([] :: nat list) Map.empty Map.empty" by (simp add: cloud_node_at_def cloud_node_def)
  have 1: "handleNode cloud ''node-1'' cloud_node =
      Some (Ok (), cloud_node_at [''v''] Map.empty [EC2InfoKey \<mapsto> info_text])"
    using cloud_saves [of "[]" Map.empty] by (simp add: n0)
  have none: "ENIConfigFromAnnotations (Some [EC2InfoKey \<mapsto> info_text]) = Inr None"
    by (simp add: ENIConfigFromAnnotations_def go_lookup_def annotation_keys)
  note later = cloud_configures [of "[EC2InfoKey \<mapsto> info_text]", OF _ none]
  have 2: "handleNode cloud ''node-1'' (cloud_node_at [''v''] Map.empty [EC2InfoKey \<mapsto> info_text]) =
      Some (Ok (), cloud_node_at [''v'', ''v''] cloud_label [EC2InfoKey \<mapsto> info_text])"
    by (simp add: later cloud_write)
  have made: "createENI cloud ''node-1'' i k w = Some (Ok (new_eni\<lparr>Index := 0, CIDRBlock := None\<rparr>), w)" for i k w
    by (simp add: createENI_def cloud_def cloud_ec2_def cloud_interface_def deref_def cloud_texts wired_eni_def)
  have "new_eni\<lparr>Index := 1, CIDRBlock := SubnetCIDR (info_norm cloud_info)\<rparr> = new_eni"
    by (simp add: cloud_info_norm) (simp add: wired_eni_def)
  then have 3: "handleNode cloud ''node-1'' (cloud_node_at [''v'', ''v''] cloud_label [EC2InfoKey \<mapsto> info_text]) =
      Some (Ok (), cloud_node_at [''v'', ''v'', ''v''] cloud_label (cloud_annotations new_text))"
    using new_eni_written(2) by (simp add: later create_one_def made Let_def of_sum_def cloud_write)
  have "ENIConfigFromAnnotations (Some (cloud_annotations new_text)) = Inr (Some [Some new_eni])"
    using new_eni_written new_eni_norm by (intro annotation_list) simp_all
  moreover have attaches: "AttachNetworkInterface (ec_ec2 cloud) iid i eniID = ret (Some ''eni-attach-1'')"
    "ModifyNetworkInterfaceAttribute (ec_ec2 cloud) eniID att p = ret ()" for iid i eniID att p
    by (simp_all add: cloud_def cloud_ec2_def)
  note cloud_configures [of "cloud_annotations new_text"]
  ultimately have
    4: "handleNode cloud ''node-1'' (cloud_node_at [''v'', ''v'', ''v''] cloud_label (cloud_annotations new_text)) =
      Some (Ok (), cloud_node_at [''v'', ''v'', ''v'', ''v''] cloud_label (cloud_annotations eni_text))"
    using eni_node_written(1)
    by (simp add: annotation_keys attach_one_def attachENI_def attaches of_sum_def reattached cloud_write)
  have "runs 4 cloud ''node-1'' = runs (Suc (Suc (Suc (Suc 0)))) cloud ''node-1''" by (simp add: eval_nat_numeral)
  then show ?thesis by (simp add: 1 2 3 4)
qed

text \<open>The node after its runs, as the daemon finds it.\<close>

definition served_node :: node where
  "served_node = cloud_node_at [''v'', ''v'', ''v'', ''v''] cloud_label (cloud_annotations eni_text)"

lemma served_node_list: "ENIConfigFromAnnotations (Annotations served_node) = Inr (Some [Some wired_eni])"
  unfolding served_node_def cloud_node_at_simps
  by (rule annotation_list [OF eni_node_written(2,1) wired_eni_norm])

lemma served_node_ifs: "interfaces_of served_node = [Some wired_eni]"
  by (simp add: interfaces_of_def served_node_list)

lemma served_node_addresses: "node_addresses served_node = [ipv4 10 1 0 9]"
  by (simp add: node_addresses_def served_node_ifs) (simp add: wired_eni_def)

lemma served_node_own: "own_node ''i-1'' (\<lambda>key. ret served_node) key t served_node [Some wired_eni]"
  using served_node_list by (simp add: own_node_def) (simp add: served_node_def cloud_node_id)

lemma fresh_names: "eni_names k \<inter> host_ifs fresh_tables = {}"
  by (auto simp: eni_names_def host_ifs_def fresh_tables_def)

end
