(* ===== verification/Pool_Refinement.thy ===== *)
theory Pool_Refinement
  imports Alloc_Theorems
begin

text \<open>
  What the allocator promises to all its callers together, as an abstract machine: a set of
  addresses, who owns which, and the requests that have passed the count. One that does not is \<open>Denied\<close>. Its events are the calls with
  their replies. The allocator's critical sections are steps of that machine.
\<close>

section \<open>The specification\<close>

type_synonym request = "string \<times> string \<times> string"

datatype pool_event =
    Asks request
  | Denied
  | Gets request string
  | Fails request
  | Returns string
  | Repools "string set"

record pool_state =
  addresses :: "string set"
  owned :: "string \<rightharpoonup> string"
  asking :: "request list"

text \<open>A failed request may have taken an address; \<open>Returns\<close> is a release, of one address at most.\<close>

inductive pool_step :: "pool_event \<Rightarrow> pool_state \<Rightarrow> pool_state \<Rightarrow> bool" where
  asks: "k \<in> addresses p \<Longrightarrow> owned p k = None \<Longrightarrow> pool_step (Asks r) p (p\<lparr>asking := r # asking p\<rparr>)"
| denied: "addresses p \<subseteq> dom (owned p) \<Longrightarrow> pool_step Denied p p"
| gets: "r \<in> set (asking p) \<Longrightarrow> k \<in> addresses p \<Longrightarrow> owned p k = None \<Longrightarrow>
     pool_step (Gets r k) p (p\<lparr>owned := (owned p)(k \<mapsto> fst r), asking := remove1 r (asking p)\<rparr>)"
| full: "r \<in> set (asking p) \<Longrightarrow> addresses p \<subseteq> dom (owned p) \<Longrightarrow>
     pool_step (Fails r) p (p\<lparr>asking := remove1 r (asking p)\<rparr>)"
| fails: "r \<in> set (asking p) \<Longrightarrow> k \<in> addresses p \<Longrightarrow> owned p k = None \<Longrightarrow>
     pool_step (Fails r) p (p\<lparr>owned := (owned p)(k \<mapsto> fst r), asking := remove1 r (asking p)\<rparr>)"
| returns: "owned p k = Some c \<Longrightarrow> pool_step (Returns c) p (p\<lparr>owned := (owned p)(k := None)\<rparr>)"
| nothing: "c \<notin> ran (owned p) \<Longrightarrow> pool_step (Returns c) p p"
| repools: "pool_step (Repools A) p (p\<lparr>addresses := A\<rparr>)"

inductive pool_run :: "pool_state \<Rightarrow> pool_event list \<Rightarrow> pool_state \<Rightarrow> bool" where
  stop: "pool_run p [] p"
| more: "pool_run p evs q \<Longrightarrow> pool_step ev q q' \<Longrightarrow> pool_run p (evs @ [ev]) q'"

text \<open>What the callers hold after an event, by its reply.\<close>

fun held_after :: "(string \<times> string) list \<Rightarrow> pool_event \<Rightarrow> (string \<times> string) list" where
  "held_after hs (Gets r k) = (k, fst r) # hs"
| "held_after hs (Returns c) = filter (\<lambda>h. snd h \<noteq> c) hs"
| "held_after hs ev = hs"

section \<open>The allocator implements it\<close>

definition pool_view :: "alloc_state \<Rightarrow> request list \<Rightarrow> pool_state" where
  "pool_view s rs = \<lparr>addresses = ip_string ` set (pool s), owned = owners s, asking = rs\<rparr>"

lemma pool_view_simps [simp]:
  "addresses (pool_view s rs) = ip_string ` set (pool s)" "owned (pool_view s rs) = owners s"
  "asking (pool_view s rs) = rs"
  "(pool_view s rs)\<lparr>asking := rs'\<rparr> = pool_view s rs'"
  by (simp_all add: pool_view_def)

lemma pool_view_add:
  assumes "\<not> allocated s (AllocIP a)" "ContainerID a = fst r"
  shows "pool_view (add_allocation s a) rs =
    (pool_view s rs')\<lparr>owned := (owners s)(ip_string (AllocIP a) \<mapsto> fst r), asking := rs\<rparr>"
  using assms by (simp add: pool_view_def owners_add)

lemma pool_view_drop:
  "pool_view (drop_allocation s k) rs = (pool_view s rs)\<lparr>owned := (owners s)(k := None)\<rparr>"
  by (simp add: pool_view_def owners_drop)

lemma pool_view_repool:
  "pool_view (s\<lparr>ENIs := es\<rparr>) rs = (pool_view s rs)\<lparr>addresses := ip_string ` set (pool (s\<lparr>ENIs := es\<rparr>))\<rparr>"
  by (simp add: pool_view_def)

lemma no_free_owned: "free_ips s = [] \<longleftrightarrow> ip_string ` set (pool s) \<subseteq> dom (owners s)"
  by (auto simp: free_ips_owners filter_empty_conv)

lemma allocation_refines:
  assumes ok: "alloc_ok s" and r: "(cid, name, ns) \<in> set rs"
    and run: "allocate_locked fs cid name ns (s, w) = Some (reply, w')"
  shows "(\<forall>a. reply = Ok a \<longrightarrow> pool_step (Gets (cid, name, ns) (ip_string (AllocIP a))) (pool_view s rs)
      (pool_view (fst w') (remove1 (cid, name, ns) rs))) \<and>
    ((\<forall>a. reply \<noteq> Ok a) \<longrightarrow> pool_step (Fails (cid, name, ns)) (pool_view s rs)
      (pool_view (fst w') (remove1 (cid, name, ns) rs)))"
proof (cases rule: allocate_locked_result [OF ok run])
  case 1
  then have "pool_step (Fails (cid, name, ns)) (pool_view s rs) (pool_view s (remove1 (cid, name, ns) rs))"
    using pool_step.full [of "(cid, name, ns)" "pool_view s rs"] r by (simp add: no_free_owned)
  with 1 show ?thesis by simp
next
  case (2 a)
  let ?k = "ip_string (AllocIP a)"
  have k: "?k \<in> addresses (pool_view s rs)" "owned (pool_view s rs) ?k = None" "(cid, name, ns) \<in> set (asking (pool_view s rs))"
    using 2 r by (simp_all add: allocated_owners)
  have "pool_view (fst w') (remove1 (cid, name, ns) rs) =
      (pool_view s rs)\<lparr>owned := (owned (pool_view s rs))(?k \<mapsto> fst (cid, name, ns)),
        asking := remove1 (cid, name, ns) (asking (pool_view s rs))\<rparr>"
    using 2 pool_view_add [of s a "(cid, name, ns)"] by simp
  then show ?thesis using pool_step.gets [OF k(3,1,2)] pool_step.fails [OF k(3,1,2)] 2(5) by auto
qed

lemma traffic_step_refines:
  assumes ok: "traffic_ok t" and step: "traffic_step fs t t'"
  shows "\<exists>ev. pool_step ev (pool_view (fst (world t)) (waiting t)) (pool_view (fst (world t')) (waiting t')) \<and>
    held t' = held_after (held t) ev"
proof -
  obtain s w where world: "world t = (s, w)" by force
  have s: "alloc_ok s" using ok by (simp add: traffic_ok_def world)
  from step show ?thesis
  proof cases
    case (turned_away e w')
    then have "free_ips s = []" "w' = (s, w)"
      using count_free_ok [OF s, of w] by (auto simp: world split: if_splits)
    then have "pool_step Denied (pool_view s (waiting t)) (pool_view s (waiting t))"
      by (intro pool_step.denied) (simp add: no_free_owned)
    with turned_away \<open>w' = (s, w)\<close> show ?thesis by (intro exI [of _ Denied]) (simp add: world)
  next
    case (counted w' cid name ns)
    then have "free_ips s \<noteq> []" "w' = (s, w)"
      using count_free_ok [OF s, of w] by (auto simp: world split: if_splits)
    then obtain k where "k \<in> ip_string ` set (pool s)" "owners s k = None" by (auto simp: no_free_owned)
    then have "pool_step (Asks (cid, name, ns)) (pool_view s (waiting t)) (pool_view s ((cid, name, ns) # waiting t))"
      using pool_step.asks [of k "pool_view s (waiting t)" "(cid, name, ns)"] by simp
    with counted \<open>w' = (s, w)\<close> show ?thesis by (intro exI [of _ "Asks (cid, name, ns)"]) (simp add: world)
  next
    case (given cid name ns a w')
    with allocation_refines [OF s given(2) given(3) [unfolded world]] show ?thesis
      by (intro exI [of _ "Gets (cid, name, ns) (ip_string (AllocIP a))"]) (simp add: world)
  next
    case (refused cid name ns e w')
    with allocation_refines [OF s refused(2) refused(3) [unfolded world]] show ?thesis
      by (intro exI [of _ "Fails (cid, name, ns)"]) (simp add: world)
  next
    case (released rank cid r w')
    have "pool_step (Returns cid) (pool_view s (waiting t)) (pool_view (fst w') (waiting t))"
    proof (cases rule: Release_result [OF s released(2) [unfolded world]])
      case 1
      then show ?thesis using pool_step.nothing [of cid "pool_view s (waiting t)"] by simp
    next
      case (2 k)
      then show ?thesis
        using pool_step.returns [of "pool_view s (waiting t)" k cid] by (simp add: pool_view_drop)
    qed
    with released show ?thesis by (intro exI [of _ "Returns cid"]) (simp add: world)
  next
    case (repooled es r w')
    then have "fst w' = s\<lparr>ENIs := es\<rparr>" using SetENIs_state [of fs es s w r w'] by (simp add: world)
    with repooled pool_step.repools show ?thesis
      by (intro exI [of _ "Repools (ip_string ` set (pool (s\<lparr>ENIs := es\<rparr>)))"]) (simp add: world pool_view_repool)
  qed
qed

text \<open>
  C4. Whatever any number of callers do, and however their calls interleave, what they see is a
  run of the specification: an address is given only to a caller who asked, only if it is of the pool
  and nobody owns it, a request is turned away without cost, by the count or after it, only when every
  address is owned, and
  the replies of the run are the replies that the callers got.
\<close>

theorem allocator_refines_pool:
  assumes "traffic_reach fs \<lparr>world = (s, w), waiting = [], held = []\<rparr> t" "alloc_ok s"
  shows "\<exists>evs. pool_run (pool_view s []) evs (pool_view (fst (world t)) (waiting t)) \<and>
    held t = foldl held_after [] evs"
proof -
  have ok: "traffic_ok \<lparr>world = (s, w), waiting = [], held = []\<rparr>"
    using assms(2) by (simp add: traffic_ok_def)
  from assms(1) have "traffic_ok t \<and> (\<exists>evs. pool_run (pool_view s []) evs (pool_view (fst (world t)) (waiting t)) \<and>
    held t = foldl held_after [] evs)"
  proof (induction rule: traffic_reach.induct)
    case start
    then show ?case using ok by (auto intro!: exI [of _ "[]"] pool_run.stop)
  next
    case (step t t')
    then obtain evs where evs: "traffic_ok t" "pool_run (pool_view s []) evs (pool_view (fst (world t)) (waiting t))"
      "held t = foldl held_after [] evs" by blast
    obtain ev where ev: "pool_step ev (pool_view (fst (world t)) (waiting t)) (pool_view (fst (world t')) (waiting t'))"
      "held t' = held_after (held t) ev" using traffic_step_refines [OF evs(1) step(2)] by blast
    have "pool_run (pool_view s []) (evs @ [ev]) (pool_view (fst (world t')) (waiting t'))"
      using pool_run.more [OF evs(2) ev(1)] .
    with ev(2) evs(3) traffic_ok_step [OF evs(1) step(2)] show ?case
      by (intro conjI exI [of _ "evs @ [ev]"]) simp_all
  qed
  then show ?thesis by blast
qed

theorem allocator_refines_pool_witness:
  "\<exists>t evs. traffic_reach map_files \<lparr>world = (demo_busy, Map.empty), waiting = [], held = []\<rparr> t \<and>
     pool_run (pool_view demo_busy []) evs (pool_view (fst (world t)) (waiting t)) \<and>
     foldl held_after [] evs = [(''10.0.0.12'', ''c2'')]"
proof -
  obtain s w where reach: "traffic_reach map_files \<lparr>world = (demo_busy, Map.empty), waiting = [], held = []\<rparr>
      \<lparr>world = (s, w), waiting = [], held = [(''10.0.0.12'', ''c2'')]\<rparr>"
    using demo_traffic by blast
  from allocator_refines_pool [OF this demo_ok(2)] this show ?thesis by fastforce
qed

end
