(* ===== verification/Pod_Lives.thy ===== *)
theory Pod_Lives
  imports Plugin_Theorems
begin

text \<open>
  The plugin's commands for many pods, one process each, against one daemon, with whatever comes of
  every command, whether or not its call reaches the daemon (\<open>delivery\<close>), and with what else happens
  to the daemon in between: its controller offers another list of interfaces, and the rest of its
  world goes on.
\<close>

section \<open>Events\<close>

datatype pod_event = Adding cmd_args | Deleting cmd_args | Offering enis | Elsewhere

inductive pod_step ::
  "(delivery \<Rightarrow> (alloc_state \<times> 'o) ipam_client) \<Rightarrow> 'o file_ops \<Rightarrow> 'p plugin_env \<Rightarrow> pod_event \<Rightarrow> alloc_state \<times> 'o \<Rightarrow> alloc_state \<times> 'o \<Rightarrow> bool"
  for client fs penv where
  adding: "cmdAdd (served (client l) penv) args (d, p) = Some (r, (d', p')) \<Longrightarrow> pod_step client fs penv (Adding args) d d'"
| deleting: "cmdDel (served (client l) penv) args (d, p) = Some (r, (d', p')) \<Longrightarrow> pod_step client fs penv (Deleting args) d d'"
| offering: "enis_ok es \<Longrightarrow> list_all sendable_eni (elems es) \<Longrightarrow> SetENIs fs es d = Some (r, d') \<Longrightarrow>
    pod_step client fs penv (Offering es) d d'"
| elsewhere: "fst d' = fst d \<Longrightarrow> pod_step client fs penv Elsewhere d d'"

inductive pod_steps ::
  "(delivery \<Rightarrow> (alloc_state \<times> 'o) ipam_client) \<Rightarrow> 'o file_ops \<Rightarrow> 'p plugin_env \<Rightarrow> pod_event list \<Rightarrow> alloc_state \<times> 'o \<Rightarrow> alloc_state \<times> 'o \<Rightarrow> bool"
  for client fs penv where
  stay: "pod_steps client fs penv [] d d"
| step: "pod_step client fs penv ev d d1 \<Longrightarrow> pod_steps client fs penv evs d1 d2 \<Longrightarrow> pod_steps client fs penv (ev # evs) d d2"

text \<open>The containers that have commands among the events.\<close>

fun added :: "pod_event \<Rightarrow> string set" where
  "added (Adding args) = {ca_ContainerID args}"
| "added ev = {}"

fun deleted :: "pod_event \<Rightarrow> string set" where
  "deleted (Deleting args) = {ca_ContainerID args}"
| "deleted ev = {}"

definition addresses_of :: "string \<Rightarrow> alloc_state \<times> 'o \<Rightarrow> string set" where
  "addresses_of cid d = {k. owners (fst d) k = Some cid}"

text \<open>
  A container keeps its addresses until a command deletes it, and gets none but by a command that
  adds it.
\<close>

lemma pod_step_addresses:
  assumes ok: "server_ok d" and prints: "prints penv out"
    and step: "pod_step (grpc_client g (daemon_service cfg name cl fs rank)) fs penv ev d d'"
  shows "server_ok d'" "cid \<notin> deleted ev \<Longrightarrow> addresses_of cid d \<subseteq> addresses_of cid d'"
    "cid \<notin> added ev \<Longrightarrow> addresses_of cid d' \<subseteq> addresses_of cid d"
proof -
  have "server_ok d' \<and> (cid \<notin> deleted ev \<longrightarrow> addresses_of cid d \<subseteq> addresses_of cid d') \<and>
      (cid \<notin> added ev \<longrightarrow> addresses_of cid d' \<subseteq> addresses_of cid d)"
    using step
  proof cases
    case (adding l args p r p')
    from daemon_server.cmdAdd_owner [OF prints ok adding(2)] show ?thesis
      by (auto simp: adding(1) addresses_of_def world_owner_def split: if_splits)
  next
    case (deleting l args p r p')
    from daemon_server.cmdDel_owner [OF prints ok deleting(2)] show ?thesis
      by (auto simp: deleting(1) addresses_of_def world_owner_def split: if_splits)
  next
    case (offering es r)
    have "fst d' = (fst d)\<lparr>ENIs := es\<rparr>" using SetENIs_state [of fs es "fst d" "snd d" r d'] offering(4) by simp
    with offering(2,3) ok show ?thesis
      by (simp add: server_ok_def alloc_ok_SetENIs sendable_state_def addresses_of_def)
  next
    case elsewhere
    with ok show ?thesis by (simp add: server_ok_def addresses_of_def)
  qed
  then show "server_ok d'" "cid \<notin> deleted ev \<Longrightarrow> addresses_of cid d \<subseteq> addresses_of cid d'"
    "cid \<notin> added ev \<Longrightarrow> addresses_of cid d' \<subseteq> addresses_of cid d" by blast+
qed

lemma pod_steps_addresses:
  assumes "pod_steps (grpc_client g (daemon_service cfg name cl fs rank)) fs penv evs d d'" "server_ok d" "prints penv out"
  shows "server_ok d' \<and> (cid \<notin> \<Union> (deleted ` set evs) \<longrightarrow> addresses_of cid d \<subseteq> addresses_of cid d') \<and>
    (cid \<notin> \<Union> (added ` set evs) \<longrightarrow> addresses_of cid d' \<subseteq> addresses_of cid d)"
  using assms(1,2)
proof (induction rule: pod_steps.induct)
  case (step ev d d1 evs d2)
  note one = pod_step_addresses [OF step.prems assms(3) step.hyps(1)]
  note rest = step.IH [OF one(1)]
  show ?case
  proof (intro conjI impI)
    show "server_ok d2" using rest by blast
    show "addresses_of cid d \<subseteq> addresses_of cid d2" if "cid \<notin> \<Union> (deleted ` set (ev # evs))"
      by (rule order_trans [where y = "addresses_of cid d1"]) (use that rest one(2) [of cid] in simp_all)
    show "addresses_of cid d2 \<subseteq> addresses_of cid d" if "cid \<notin> \<Union> (added ` set (ev # evs))"
      by (rule order_trans [where y = "addresses_of cid d1"]) (use that rest one(3) [of cid] in simp_all)
  qed
qed simp

section \<open>The addresses that are printed\<close>

definition printed :: "cni_result \<Rightarrow> net_ip list" where
  "printed r = map (\<lambda>c. net_IP (ipc_Address c)) (res_IPs r)"

lemma cmdAdd_prints_one:
  assumes "server_ok d" "prints penv out"
    and "cmdAdd (served (grpc_client g (daemon_service cfg name cl fs rank) l) penv) args (d, p) = Some (Ok (), (d', p'))"
  obtains r a where "out p' = out p @ [r]" "printed r = [a]" "owners (fst d) (ip_string a) = None"
    "owners (fst d') = (owners (fst d))(ip_string a \<mapsto> ca_ContainerID args)" "server_ok d'"
proof -
  from daemon_server.cmdAdd_prints [OF assms(2,1,3)] obtain ip :: net_ip and e :: eni and blk :: ip_net where
    ip: "is_v4 ip" "world_owner d (ip_string ip) = None" "server_ok d'"
      "world_owner d' = (world_owner d)(ip_string ip \<mapsto> ca_ContainerID args)"
    and out: "out p' = out p @ [\<lparr>res_IPs = [\<lparr>ipc_Address = \<lparr>net_IP = ip_norm ip, net_Mask = net_Mask blk\<rparr>,
        ipc_Gateway = ip_norm (InterfaceIP e)\<rparr>],
      res_Routes = [\<lparr>net_IP = IP [0, 0, 0, 0], net_Mask = cidr_mask 0 32\<rparr>]\<rparr>]" by (elim conjE exE) (rule that)
  show thesis
    by (rule that [OF out, of "ip_norm ip"]) (use ip in \<open>simp_all add: printed_def world_owner_def\<close>)
qed

text \<open>
  C5. No two live pods have the same address: between two runs of the plugin that succeed, let
  there be any commands for any containers with any outcome, new lists of interfaces, and
  whatever else, but no command that deletes the first container. Then the two results have
  different addresses, and the first one still belongs to the first container.
\<close>

theorem live_pods_have_different_addresses:
  fixes s :: alloc_state
  assumes "alloc_ok s" "sendable_state s" "prints penv out"
    and first: "cmdAdd (served (grpc_client g (daemon_service cfg name cl fs rank) l) penv) args ((s, w), p) =
      Some (Ok (), (d1, p1))"
    and between: "pod_steps (grpc_client g (daemon_service cfg name cl fs rank)) fs penv evs d1 d2"
      "ca_ContainerID args \<notin> \<Union> (deleted ` set evs)"
    and second: "cmdAdd (served (grpc_client g (daemon_service cfg name cl fs rank) l') penv) args' (d2, q) =
      Some (Ok (), (d3, q3))"
  shows "\<exists>r r'. out p1 = out p @ [r] \<and> out q3 = out q @ [r'] \<and> distinct (printed r @ printed r') \<and>
    ip_string ` set (printed r) \<subseteq> addresses_of (ca_ContainerID args) d3 \<and>
    ip_string ` set (printed r') \<subseteq> addresses_of (ca_ContainerID args') d3"
proof -
  have ok: "server_ok (s, w)" using assms(1,2) by (simp add: server_ok_def)
  obtain r a where r: "out p1 = out p @ [r]" "printed r = [a]" "server_ok d1"
    "owners (fst d1) = (owners (fst (s, w)))(ip_string a \<mapsto> ca_ContainerID args)"
    by (rule cmdAdd_prints_one [OF ok assms(3) first])
  note kept = pod_steps_addresses [OF between(1) r(3) assms(3), of "ca_ContainerID args"]
  have mine: "owners (fst d2) (ip_string a) = Some (ca_ContainerID args)"
    using kept between(2) r(4) by (auto simp: addresses_of_def)
  obtain r' a' where r': "out q3 = out q @ [r']" "printed r' = [a']" "owners (fst d2) (ip_string a') = None"
    "owners (fst d3) = (owners (fst d2))(ip_string a' \<mapsto> ca_ContainerID args')"
    by (rule cmdAdd_prints_one [OF conjunct1 [OF kept] assms(3) second])
  have "ip_string a \<noteq> ip_string a'" using mine r'(3) by auto
  with r r' mine show ?thesis by (intro exI [of _ r] exI [of _ r']) (auto simp: addresses_of_def)
qed

text \<open>
  C6. A pod gives its address back exactly if its release reaches the daemon: let the plugin have added
  a container that had no address, then let anything happen to other containers, and then let the
  plugin's command to delete it succeed. If its call has reached the daemon, whatever has become of
  the reply, the address that was printed is nobody's and the container has none; if it has not, as
  when no daemon listens on the socket, the container still has the address, although the command
  has succeeded.
\<close>

theorem deleted_pod_gives_address_back:
  fixes s :: alloc_state
  assumes "alloc_ok s" "sendable_state s" "prints penv out" "ca_ContainerID args \<notin> ran (owners s)"
    and add: "cmdAdd (served (grpc_client g (daemon_service cfg name cl fs rank) l) penv) args ((s, w), p) =
      Some (Ok (), (d1, p1))"
    and between: "pod_steps (grpc_client g (daemon_service cfg name cl fs rank)) fs penv evs d1 d2"
      "ca_ContainerID args \<notin> \<Union> (added ` set evs) \<union> \<Union> (deleted ` set evs)"
    and del: "cmdDel (served (grpc_client g (daemon_service cfg name cl fs rank) l') penv) args' (d2, q) =
      Some (Ok (), (d3, q3))" "ca_ContainerID args' = ca_ContainerID args"
  shows "\<exists>r a. out p1 = out p @ [r] \<and> printed r = [a] \<and>
    (if reaches l' then owners (fst d3) (ip_string a) = None \<and> addresses_of (ca_ContainerID args) d3 = {}
     else owners (fst d3) (ip_string a) = Some (ca_ContainerID args) \<and> addresses_of (ca_ContainerID args) d3 = {ip_string a})"
proof -
  let ?cid = "ca_ContainerID args"
  have ok: "server_ok (s, w)" using assms(1,2) by (simp add: server_ok_def)
  obtain r a where r: "out p1 = out p @ [r]" "printed r = [a]" "server_ok d1"
    "owners (fst d1) = (owners (fst (s, w)))(ip_string a \<mapsto> ?cid)"
    by (rule cmdAdd_prints_one [OF ok assms(3) add])
  have "addresses_of ?cid d1 = {ip_string a}"
    using assms(4) by (auto simp: addresses_of_def r(4) ran_def)
  then have mine: "addresses_of ?cid d2 = {ip_string a}" and ok2: "server_ok d2"
    using pod_steps_addresses [OF between(1) r(3) assms(3), of ?cid] between(2) by auto
  note after = daemon_server.cmdDel_owner [OF assms(3) ok2 del(1), unfolded del(2) world_owner_def]
  have "if reaches l' then owners (fst d3) (ip_string a) = None \<and> addresses_of ?cid d3 = {}
     else owners (fst d3) (ip_string a) = Some ?cid \<and> addresses_of ?cid d3 = {ip_string a}"
  proof (cases "reaches l'")
    case True
    from mine have "?cid \<in> ran (owners (fst d2))" by (auto simp: addresses_of_def ran_def)
    then obtain k where k: "owners (fst d2) k = Some ?cid" "owners (fst d3) = (owners (fst d2))(k := None)"
      using after True by auto
    moreover have "k = ip_string a" using mine k(1) by (auto simp: addresses_of_def)
    moreover have "addresses_of ?cid d3 = addresses_of ?cid d2 - {k}" unfolding addresses_of_def k(2) by auto
    ultimately show ?thesis using mine True by simp
  next
    case False
    then have "owners (fst d3) = owners (fst d2)" using after by simp
    with mine False show ?thesis by (auto simp: addresses_of_def)
  qed
  with r(1,2) show ?thesis by blast
qed

section \<open>Two pods\<close>

text \<open>Two results for \<open>c2\<close> from a pool of two addresses, while the rest of the world goes on.\<close>

lemma demo_elsewhere: "pod_steps client fs penv [Elsewhere] d d"
  by (rule pod_steps.step [OF pod_step.elsewhere [OF refl] pod_steps.stay])

theorem live_pods_have_different_addresses_witness:
  "\<exists>d1 d2 r r'. cmdAdd (served (grpc_client (\<lambda>e. e) demo_service Delivered) demo_penv) demo_cmd ((demo_free, Map.empty), []) =
      Some (Ok (), (d1, [r])) \<and>
    cmdAdd (served (grpc_client (\<lambda>e. e) demo_service Delivered) demo_penv) demo_cmd (d1, []) = Some (Ok (), (d2, [r'])) \<and>
    distinct (printed r @ printed r')"
proof -
  let ?run = "cmdAdd (served (grpc_client (\<lambda>e. e) demo_service Delivered) demo_penv) demo_cmd"
  obtain r s1 w1 where one: "?run ((demo_free, Map.empty), []) = Some (Ok (), ((s1, w1), [] @ [r]))"
    and s1: "alloc_ok s1" "sendable_state s1" "length (free_ips demo_free) = Suc (length (free_ips s1))"
    using demo_cmd_works [OF demo_ok(1) demo_sendable(1)] demo_free_ips by (metis list.distinct(1))
  have "free_ips s1 \<noteq> []" using s1(3) by (auto simp: demo_free_ips)
  then obtain r' s2 w2 where two: "?run ((s1, w1), []) = Some (Ok (), ((s2, w2), [] @ [r']))"
    using demo_cmd_works [OF s1(1,2)] by metis
  have "ca_ContainerID demo_cmd \<notin> \<Union> (deleted ` set [Elsewhere])" by simp
  from live_pods_have_different_addresses [OF demo_ok(1) demo_sendable(1) demo_penv_prints one [unfolded demo_service_def]
      demo_elsewhere this two [unfolded demo_service_def]] one two
  show ?thesis by auto
qed

lemma demo_del_run:
  assumes "client_Del client ''c2'' d = Some (x, d')" "x = Ok () \<or> (\<exists>e. x = Fail e)"
  shows "cmdDel (served client demo_penv) demo_cmd (d, out) = Some (Ok (), (d', out))"
proof -
  have "ca_StdinData demo_cmd = demo_stdin" "ca_ContainerID demo_cmd = ''c2''" by (simp_all add: demo_cmd_def)
  then show ?thesis
    using assms demo_stdin_cni
    by (auto simp: cmdDel_def initGlog_def ipamConn_def served_def demo_penv_def demo_cni_def cni_config_def deref_def
      closing_def of_sum_def)
qed

text \<open>The same command twice: the daemon's socket refuses the first call, and serves the second.\<close>

theorem deleted_pod_gives_address_back_witness:
  "\<exists>d1 d2 r a. cmdAdd (served (grpc_client (\<lambda>e. e) demo_service Delivered) demo_penv) demo_cmd ((demo_busy, Map.empty), []) =
      Some (Ok (), (d1, [r])) \<and> printed r = [a] \<and>
    cmdDel (served (grpc_client (\<lambda>e. e) demo_service (Unreached (ExtErr ''connection refused''))) demo_penv) demo_cmd (d1, []) =
      Some (Ok (), (d1, [])) \<and> addresses_of ''c2'' d1 = {ip_string a} \<and>
    cmdDel (served (grpc_client (\<lambda>e. e) demo_service Delivered) demo_penv) demo_cmd (d1, []) = Some (Ok (), (d2, [])) \<and>
    addresses_of ''c2'' d2 = {}"
proof -
  let ?client = "grpc_client (\<lambda>e. e) demo_service" and ?down = "Unreached (ExtErr ''connection refused'')"
  obtain r s1 w1 where one: "cmdAdd (served (?client Delivered) demo_penv) demo_cmd
      ((demo_busy, Map.empty), []) = Some (Ok (), ((s1, w1), [] @ [r]))"
    and s1: "alloc_ok s1" "sendable_state s1"
    using demo_cmd_works [OF demo_ok(2) demo_sendable(2)] demo_free_ips by (metis list.distinct(1))
  obtain s2 w2 where "ReleaseByContainer (\<lambda>_. 0) map_files ''c2'' (s1, w1) = Some (Ok (), (s2, w2))"
    using release_works [OF s1 map_files_work, of "\<lambda>_. 0" "''c2''" w1] by blast
  then have "client_Del (?client Delivered) ''c2'' (s1, w1) = Some (Ok (), (s2, w2))"
    by (simp add: grpc_client_def Del_def demo_service_def daemon_service_def NewService_def)
  note two = demo_del_run [OF this, of "[]", simplified]
  have "client_Del (?client ?down) ''c2'' (s1, w1) = Some (Fail (ExtErr ''connection refused''), (s1, w1))"
    by (simp add: grpc_client_def)
  note lost = demo_del_run [OF this, of "[]", simplified]
  have cid: "ca_ContainerID demo_cmd = ''c2''" by (simp add: demo_cmd_def)
  have new: "ca_ContainerID demo_cmd \<notin> ran (owners demo_busy)" by (auto simp: demo_owners ran_def cid split: if_splits)
  have none: "ca_ContainerID demo_cmd \<notin> \<Union> (added ` set [Elsewhere]) \<union> \<Union> (deleted ` set [Elsewhere])" by simp
  note gone = deleted_pod_gives_address_back [OF demo_ok(2) demo_sendable(2) demo_penv_prints new one [unfolded demo_service_def]
      demo_elsewhere none _ refl]
  from gone [OF two [unfolded demo_service_def]] have "addresses_of ''c2'' (s2, w2) = {}" by (auto simp: cid reaches_def)
  moreover from gone [OF lost [unfolded demo_service_def]]
  obtain a where "printed r = [a]" "addresses_of ''c2'' (s1, w1) = {ip_string a}" by (auto simp: cid reaches_def)
  ultimately show ?thesis
    using one two lost by (intro exI [of _ "(s1, w1)"] exI [of _ "(s2, w2)"] exI [of _ r] exI [of _ a]) simp
qed

end
