(* ===== verification/Cni_Theorems.thy ===== *)
theory Cni_Theorems
  imports Cni_Install
begin

text \<open>
  The installer's guarantees: a copied file is complete or absent, and the CNI configuration
  appears only after the plugins. \<open>bin\<close> and \<open>shipped\<close> name a plugin's file on the host and in
  the daemon's image.
\<close>

section \<open>copyFile\<close>

text \<open>A state of the files in which one more file, under a new name, may exist.\<close>

definition one_new_file :: "string \<Rightarrow> files \<Rightarrow> string \<Rightarrow> files \<Rightarrow> bool" where
  "one_new_file d f0 tmp f \<longleftrightarrow> f0 tmp = None \<and> in_dir d tmp \<and> (\<exists>c. f = f0(tmp := c))"

lemma file_copies_calls:
  assumes "file_copies fs files"
  shows "plain_call (os_Open fs p)" "plain_call (os_TempFile fs p)" "plain_call (os_Copy fs p q)"
    "plain_call (os_Close fs p)" "plain_call (os_Chmod fs p)" "plain_call (os_Remove fs p)"
    "plain_call (os_Rename fs p q)"
    "unchanging files (os_Open fs p)" "unchanging files (os_Close fs p)" "unchanging files (os_Chmod fs p)"
  using assms by (simp_all add: file_copies_def)

lemma file_copies_effects:
  assumes "file_copies fs files"
  shows "os_Open fs p w = Some (Ok (), w') \<Longrightarrow> files w p \<noteq> None \<or> no_copy_of fs p"
    and "os_TempFile fs d w = Some (rt, w') \<Longrightarrow>
      (case rt of Ok tmp \<Rightarrow> files w tmp = None \<and> in_dir d tmp \<and> files w' = (files w)(tmp \<mapsto> []) | _ \<Rightarrow> files w' = files w)"
    and "os_Copy fs tmp src w = Some (r, w') \<Longrightarrow>
      (if r = Ok () then files w' = (files w)(tmp := files w src) else \<exists>c. files w' = (files w)(tmp := c))"
    and "os_Remove fs p w = Some (r, w') \<Longrightarrow>
      files w' = (if r = Ok () then (files w)(p := None) else files w)"
    and "os_Rename fs p q w = Some (r, w') \<Longrightarrow> files w p \<noteq> None \<Longrightarrow>
      files w' = (if r = Ok () then (files w)(p := None, q := files w p) else files w)"
  using assms unfolding file_copies_def by fastforce+

lemma keeps_new_file:
  assumes "file_copies fs files"
  shows "keeps (\<lambda>w. one_new_file d f0 tmp (files w)) (os_Copy fs tmp src)"
    "keeps (\<lambda>w. one_new_file d f0 tmp (files w)) (os_Close fs p)"
    "keeps (\<lambda>w. one_new_file d f0 tmp (files w)) (os_Chmod fs p)"
    "keeps (\<lambda>w. one_new_file d f0 tmp (files w)) (os_Remove fs tmp)"
proof -
  show "keeps (\<lambda>w. one_new_file d f0 tmp (files w)) (os_Copy fs tmp src)"
    by (rule keepsI) (force simp: one_new_file_def dest!: file_copies_effects(3) [OF assms] split: if_splits)
  show "keeps (\<lambda>w. one_new_file d f0 tmp (files w)) (os_Remove fs tmp)"
    by (rule keepsI) (force simp: one_new_file_def dest!: file_copies_effects(4) [OF assms] split: if_splits)
qed (auto intro!: keepsI simp: unchangingD [OF file_copies_calls(9) [OF assms]] unchangingD [OF file_copies_calls(10) [OF assms]])


lemma or_remove_Ok: "or_remove fs tmp m w = Some (Ok (), w') \<Longrightarrow> m w = Some (Ok (), w')"
  by (auto simp: or_remove_def andthen_eq_Ok attempt_def ignoring_def andthen_def
      split: option.splits outcome.splits sum.splits)

lemma copy_contents_Ok: "copy_contents fs tmp src w = Some (Ok (), w') \<Longrightarrow> os_Copy fs tmp src w = Some (Ok (), w')"
  by (auto simp: copy_contents_def andthen_eq_Ok attempt_def ignoring_def andthen_def
      split: option.splits outcome.splits sum.splits)

lemma keeps_steps:
  assumes "file_copies fs files"
  shows "keeps (\<lambda>w. one_new_file d f0 tmp (files w)) (or_remove fs tmp (copy_contents fs tmp src))"
    "keeps (\<lambda>w. one_new_file d f0 tmp (files w)) (or_remove fs tmp (os_Close fs tmp))"
    "keeps (\<lambda>w. one_new_file d f0 tmp (files w)) (or_remove fs tmp (os_Chmod fs tmp))"
  unfolding or_remove_def copy_contents_def
  by (auto intro!: keeps_intros keeps_new_file [OF assms] split: sum.splits)

lemma copy_body:
  assumes fc: "file_copies fs files"
    and src: "files w src \<noteq> None \<or> no_copy_of fs src"
    and run: "andthen (os_TempFile fs d) (\<lambda>tmp.
        andthen (or_remove fs tmp (copy_contents fs tmp src)) (\<lambda>_.
        andthen (or_remove fs tmp (os_Close fs tmp)) (\<lambda>_.
        andthen (or_remove fs tmp (os_Chmod fs tmp)) (\<lambda>_.
        os_Rename fs tmp dst)))) w = Some (r, w')"
  shows "if r = Ok () then files w src \<noteq> None \<and> files w' = (files w)(dst := files w src)
    else \<exists>tmp. one_new_file d (files w) tmp (files w') \<or> files w' = files w"
  using run
proof (cases rule: andthen_cases)
  case (Ok tmp w1)
  let ?new = "\<lambda>v. one_new_file d (files w) tmp (files v)"
  have new: "files w tmp = None" "in_dir d tmp" "files w1 = (files w)(tmp \<mapsto> [])"
    using file_copies_effects(2) [OF fc Ok(1)] by simp_all
  then have "?new w1" by (auto simp: one_new_file_def)
  note kept = keeps_steps [OF fc]
  from Ok(2) show ?thesis
  proof (cases rule: andthen_cases [consumes 1, case_names copied])
    case (copied a w2)
    have "a = ()" by simp
    note copy = copy_contents_Ok [OF or_remove_Ok [OF copied(1) [unfolded \<open>a = ()\<close>]]]
    have has: "files w src \<noteq> None" using src copy unfolding no_copy_of_def by blast
    have "files w2 = (files w1)(tmp := files w1 src)" using file_copies_effects(3) [OF fc copy] by simp
    then have w2: "files w2 = (files w)(tmp := files w src)" using new has by (auto simp: fun_eq_iff)
    have "?new w2" using keepsD [OF kept(1) \<open>?new w1\<close> copied(1)] .
    from copied(2) show ?thesis
    proof (cases rule: andthen_cases [consumes 1, case_names closed])
      case (closed b w3)
      have "b = ()" by simp
      have w3: "files w3 = files w2"
        using unchangingD [OF file_copies_calls(9) [OF fc] or_remove_Ok [OF closed(1) [unfolded \<open>b = ()\<close>]]] .
      from closed(2) show ?thesis
      proof (cases rule: andthen_cases [consumes 1, case_names chmod])
        case (chmod c w4)
        have "c = ()" by simp
        have w4: "files w4 = files w3"
          using unchangingD [OF file_copies_calls(10) [OF fc] or_remove_Ok [OF chmod(1) [unfolded \<open>c = ()\<close>]]] .
        have "files w4 tmp \<noteq> None" using w2 w3 w4 has by simp
        note renamed = file_copies_effects(5) [OF fc chmod(2) this]
        show ?thesis
        proof (cases "r = Ok ()")
          case True
          then show ?thesis using renamed w2 w3 w4 new(1) has by (auto simp: fun_eq_iff)
        next
          case False
          then have "files w' = files w2" using renamed w3 w4 by simp
          then show ?thesis using False \<open>?new w2\<close> by auto
        qed
      qed (use keepsD [OF kept(3), of d "files w" tmp w3] w3 \<open>?new w2\<close> in auto)
    qed (use keepsD [OF kept(2) \<open>?new w2\<close>] in auto)
  qed (use keepsD [OF kept(1) \<open>?new w1\<close>] in auto)
qed (use file_copies_effects(2) [OF fc] in \<open>fastforce simp: one_new_file_def\<close>)+


lemma ignoring_plain: "plain_call m \<Longrightarrow> \<exists>w'. ignoring m w = Some (Ok (), w')"
  by (elim plain_callE [of m w]) auto

text \<open>
  C19. \<open>copyFile\<close> replaces its destination as a whole or not at all: without error the destination
  has the source's contents and nothing else changed; with an error no file that was there
  changed, and at most one new temporary file is left.
\<close>

theorem copy_is_all_or_nothing:
  assumes "file_copies fs files" "copyFile fs dst src w = Some (r, w')"
  shows "if r = Ok () then files w src \<noteq> None \<and> files w' = (files w)(dst := files w src)
    else files w' = files w \<or> (\<exists>tmp c. files w tmp = None \<and> in_dir (filepath_dir dst) tmp \<and> files w' = (files w)(tmp := c))"
  using assms(2) unfolding copyFile_def
proof (cases rule: andthen_cases)
  case (Ok a w1)
  have "a = ()" by simp
  have src: "files w src \<noteq> None \<or> no_copy_of fs src" "files w1 = files w"
    using file_copies_effects(1) [OF assms(1) Ok(1) [unfolded \<open>a = ()\<close>]]
      unchangingD [OF file_copies_calls(8) [OF assms(1)] Ok(1)] by simp_all
  let ?body = "andthen (os_TempFile fs (filepath_dir dst)) (\<lambda>tmp.
        andthen (or_remove fs tmp (copy_contents fs tmp src)) (\<lambda>_.
        andthen (or_remove fs tmp (os_Close fs tmp)) (\<lambda>_.
        andthen (or_remove fs tmp (os_Chmod fs tmp)) (\<lambda>_.
        os_Rename fs tmp dst))))"
  have body: "if rb = Ok () then files w src \<noteq> None \<and> files w2 = (files w)(dst := files w src)
      else \<exists>tmp. one_new_file (filepath_dir dst) (files w) tmp (files w2) \<or> files w2 = files w"
    if "?body w1 = Some (rb, w2)" for rb w2
    using copy_body [OF assms(1) _ that] src by (auto split: if_splits)
  from Ok(2) show ?thesis
  proof (cases rule: andthen_cases [consumes 1, case_names tried])
    case (tried res w2)
    obtain w3 where closed: "ignoring (os_Close fs src) w2 = Some (Ok (), w3)"
      using ignoring_plain [OF file_copies_calls(4) [OF assms(1)]] by blast
    with tried(2) have last: "of_sum res w3 = Some (r, w')" by simp
    have w': "files w' = files w2"
    proof -
      have "files w3 = files w2"
        using unchangingD [OF unchanging_ignoring [OF file_copies_calls(9) [OF assms(1)]] closed] .
      moreover have "w' = w3" using last by (cases res) (auto simp: of_sum_def)
      ultimately show ?thesis by simp
    qed
    from tried(1) show ?thesis
    proof (cases rule: attempt_cases)
      case (Ok b)
      then have "r = Ok ()" using last by (auto simp: of_sum_def)
      then show ?thesis using body [OF Ok(1)] w' by simp
    next
      case (Fail e)
      then have "r = Fail e" using last by (auto simp: of_sum_def)
      then show ?thesis using body [OF Fail(1)] w' by (auto simp: one_new_file_def)
    qed auto
  qed (use body in \<open>auto elim!: attempt_cases simp: one_new_file_def\<close>)
qed (use unchangingD [OF file_copies_calls(8) [OF assms(1)]] in auto)


section \<open>Install\<close>

definition bin :: "string \<Rightarrow> string" where "bin f = ''/opt/cni/bin/'' @ f"
definition shipped :: "string \<Rightarrow> string" where "shipped f = ''/cni/'' @ f"

text \<open>While plugins are copied: those that are done are complete, and only their directory changed.\<close>

definition installed :: "files \<Rightarrow> string set \<Rightarrow> files \<Rightarrow> bool" where
  "installed f0 ok f \<longleftrightarrow> (\<forall>g \<in> ok. f0 (shipped g) \<noteq> None \<and> f (bin g) = f0 (shipped g)) \<and>
     (\<forall>p. take 12 p \<noteq> ''/opt/cni/bin'' \<longrightarrow> f p = f0 p)"

lemma bin_paths: "take 12 (bin f) = ''/opt/cni/bin''" "take 12 (shipped f) \<noteq> ''/opt/cni/bin''"
  "take 12 CNIConfigPath \<noteq> ''/opt/cni/bin''"
  by (simp_all add: bin_def shipped_def CNIConfigPath_def)

lemma bin_inject [simp]: "bin f = bin g \<longleftrightarrow> f = g"
  by (simp add: bin_def)

lemma bin_dir: "f \<in> set plugins \<Longrightarrow> filepath_dir (bin f) = ''/opt/cni/bin''"
proof -
  have "\<forall>f \<in> set plugins. filepath_dir (bin f) = ''/opt/cni/bin''" by code_simp
  then show "f \<in> set plugins \<Longrightarrow> filepath_dir (bin f) = ''/opt/cni/bin''" by blast
qed

lemma bin_dir_clean: "filepath_clean ''/opt/cni/bin'' = ''/opt/cni/bin''"
  by code_simp

lemma copy_plugin:
  assumes fc: "file_copies fs files" and f: "f \<in> set plugins"
    and inv: "installed f0 ok (files w)" and run: "copyFile fs (bin f) (shipped f) w = Some (r, w')"
  shows "if r = Ok () then installed f0 (insert f ok) (files w')
    else \<forall>p. take 12 p \<noteq> ''/opt/cni/bin'' \<longrightarrow> files w' p = f0 p"
proof (cases "r = Ok ()")
  case True
  have src: "files w (shipped f) = f0 (shipped f)" using inv bin_paths(2) by (simp add: installed_def)
  have "files w (shipped f) \<noteq> None" and w': "files w' = (files w)(bin f := files w (shipped f))"
    using copy_is_all_or_nothing [OF fc run] True by simp_all
  then have "installed f0 (insert f ok) (files w')"
    using inv bin_paths(1) src by (auto simp: installed_def)
  with True show ?thesis by simp
next
  case False
  have "take 12 tmp = ''/opt/cni/bin''" if "in_dir (filepath_dir (bin f)) tmp" for tmp
  proof -
    have "length ''/opt/cni/bin'' = 12" by simp
    then show ?thesis using that unfolding in_dir_def bin_dir [OF f] bin_dir_clean by metis
  qed
  then show ?thesis
    using False copy_is_all_or_nothing [OF fc run] inv by (auto simp: installed_def)
qed

lemma copy_plugins:
  assumes fc: "file_copies fs files"
    and "set gs \<subseteq> set plugins" "installed f0 ok (files w)"
    and "each (\<lambda>f. wrapping (g f) (copyFile fs (''/opt/cni/bin/'' @ f) (''/cni/'' @ f))) gs w = Some (r, w')"
  shows "if r = Ok () then installed f0 (ok \<union> set gs) (files w')
    else \<forall>p. take 12 p \<noteq> ''/opt/cni/bin'' \<longrightarrow> files w' p = f0 p"
  using assms(2-)
proof (induction gs arbitrary: w ok)
  case (Cons f gs)
  have failed: "\<forall>p. take 12 p \<noteq> ''/opt/cni/bin'' \<longrightarrow> files v p = f0 p"
    if copy: "wrapping (g f) (copyFile fs (''/opt/cni/bin/'' @ f) (''/cni/'' @ f)) w = Some (r1, v)" and "r1 \<noteq> Ok ()" for r1 v
  proof -
    obtain r0 where "copyFile fs (bin f) (shipped f) w = Some (r0, v)" "r0 \<noteq> Ok ()"
      using wrapping_run [OF copy] \<open>r1 \<noteq> Ok ()\<close> unfolding bin_def shipped_def by metis
    then show ?thesis using copy_plugin [OF fc _ Cons.prems(2), of f r0 v] Cons.prems(1) by simp
  qed
  from Cons.prems(3) [unfolded each.simps] show ?case
  proof (cases rule: andthen_cases)
    case (Ok a v)
    have "a = ()" by simp
    with Ok(1) have "copyFile fs (bin f) (shipped f) w = Some (Ok (), v)" by (simp add: bin_def shipped_def)
    from copy_plugin [OF fc _ Cons.prems(2) this] have "installed f0 (insert f ok) (files v)"
      using Cons.prems(1) by simp
    from Cons.IH [OF _ this Ok(2)] Cons.prems(1) show ?thesis by (auto split: if_splits)
  next
    case (Fail e)
    then show ?thesis using failed [OF Fail(1)] by simp
  next
    case (Panic e)
    then show ?thesis using failed [OF Panic(1)] by simp
  next
    case (Exit e)
    then show ?thesis using failed [OF Exit(1)] by simp
  qed
qed simp

lemma WriteCNIConfig_touches:
  assumes "file_system fs files" "p \<noteq> CNIConfigPath"
  shows "unchanging (\<lambda>w. files w p) (WriteCNIConfig fs c ipamPath)"
proof -
  have "unchanging (\<lambda>w. files w p) (os_WriteFile fs CNIConfigPath d)" for d
  proof (rule unchangingI)
    fix w r w' assume "os_WriteFile fs CNIConfigPath d w = Some (r, w')"
    then have "if r = Ok () then files w' = (files w)(CNIConfigPath \<mapsto> d)
        else \<exists>c. files w' = (files w)(CNIConfigPath := c)"
      using assms(1) unfolding file_system_def by blast
    then show "files w' p = files w p" using assms(2) by (auto split: if_splits)
  qed
  moreover have "unchanging (\<lambda>w. files w p) (os_MkdirAll fs q)" for q
    using assms(1) by (auto simp: file_system_def unchanging_def)
  ultimately show ?thesis
    unfolding WriteCNIConfig_def
    by (intro unchanging_intros) (auto simp: deref_def of_sum_def split: option.splits sum.splits)
qed

text \<open>
  C20. The CNI configuration, by which the kubelet takes the node for ready, appears after the
  plugins: on a host without it, whatever happens during \<open>Install\<close>, it is there afterwards only
  if all plugins are in place, complete.
\<close>

theorem config_appears_after_plugins:
  assumes "file_copies fs files" "file_system fs files" "files w CNIConfigPath = None"
    and "Install fs c w = Some (r, w')" "files w' CNIConfigPath \<noteq> None" "f \<in> set plugins"
  shows "files w (shipped f) \<noteq> None \<and> files w' (bin f) = files w (shipped f)"
proof -
  have unmoved: "unchanging files (os_MkdirAll fs p)" for p using assms(2) by (simp add: file_system_def)
  have start: "installed (files w) {} (files w)" by (simp add: installed_def)
  from assms(4) [unfolded Install_def] show ?thesis
  proof (cases rule: andthen_cases)
    case (Ok a w1)
    have w1: "files w1 = files w" by (rule unchangingD [OF unchanging_wrapping [OF unmoved] Ok(1)])
    note copies = copy_plugins [OF assms(1) subset_refl, of "files w" "{}"]
    have broken: False if "each (\<lambda>f. wrapping (\<lambda>e. Wrapf e (''Error copying CNI bin '' @ f) [])
         (copyFile fs (''/opt/cni/bin/'' @ f) (''/cni/'' @ f))) plugins w1 = Some (r0, w')" "r0 \<noteq> Ok ()" for r0
      using copies [OF _ that(1)] that(2) start w1 bin_paths(3) assms(3,5) by simp
    from Ok(2) show ?thesis
    proof (cases rule: andthen_cases [consumes 1, case_names copied])
      case (copied b w2)
      have "b = ()" by simp
      then have all: "installed (files w) (set plugins) (files w2)"
        using copies [OF _ copied(1)] start w1 by simp
      have "files w' p = files w2 p" if "p \<noteq> CNIConfigPath" for p
        using unchangingD [OF unchanging_wrapping [OF WriteCNIConfig_touches [OF assms(2) that]] copied(2)] .
      moreover have "bin f \<noteq> CNIConfigPath" by (simp add: bin_def CNIConfigPath_def)
      ultimately show ?thesis using all assms(6) by (simp add: installed_def)
    qed (use broken in blast)+
  qed (use unchangingD [OF unchanging_wrapping [OF unmoved]] assms(3,5) in auto)
qed


section \<open>An installation\<close>

lemma map_files_calls:
  "os_Copy map_files tmp src f = Some (Ok (), f(tmp := f src))" "os_Close map_files p f = Some (Ok (), f)"
  "os_Chmod map_files p f = Some (Ok (), f)" "os_MkdirAll map_files p f = Some (Ok (), f)"
  "os_WriteFile map_files p d f = Some (Ok (), f(p \<mapsto> d))"
  "f tmp \<noteq> None \<Longrightarrow> os_Rename map_files tmp q f = Some (Ok (), f(tmp := None, q := f tmp))"
  "f src \<noteq> None \<Longrightarrow> os_Open map_files src f = Some (Ok (), f)"
  "f (fresh_path f d) = None \<Longrightarrow> os_TempFile map_files d f = Some (Ok (fresh_path f d), f(fresh_path f d \<mapsto> []))"
  by (simp_all add: map_files_def Let_def)

lemma map_files_copyFile:
  assumes "f src \<noteq> None" "f (fresh_path f (filepath_dir dst)) = None" "fresh_path f (filepath_dir dst) \<noteq> src"
  shows "copyFile map_files dst src f = Some (Ok (), f(dst := f src))"
proof -
  have "f(fresh_path f (filepath_dir dst) := None, dst := f src) = f(dst := f src)"
    using assms(2) by (auto simp: fun_eq_iff)
  then show ?thesis
    using assms
    by (simp add: copyFile_def or_remove_def copy_contents_def map_files_calls of_sum_def)
qed

definition demo_image :: files where
  "demo_image p = (if p = shipped ''vpcnet'' then Some ''vpcnet binary'' else if p = shipped ''loopback'' then Some ''lo''
     else if p = shipped ''ptp'' then Some ''ptp binary'' else None)"

definition demo_installer :: installer where
  "demo_installer = \<lparr>inst_IPAMSocketPath = ''/var/lib/cni/vpcnet/ipam.sock'',
     inst_Config = \<lparr>Network = None, Logging = Some \<lparr>CNIVLevel = 2\<rparr>, TaintWhenNoIPs = False,
       DeletePodWhenNoIPs = False\<rparr>\<rparr>"

theorem copy_is_all_or_nothing_witness:
  "copyFile map_files (bin ''ptp'') (shipped ''ptp'') demo_image =
     Some (Ok (), demo_image(bin ''ptp'' \<mapsto> ''ptp binary'')) \<and> demo_image (shipped ''ptp'') \<noteq> None"
proof -
  have dir: "filepath_dir (bin ''ptp'') = ''/opt/cni/bin''" by (rule bin_dir) (simp add: plugins_def)
  have "copyFile map_files (bin ''ptp'') (shipped ''ptp'') demo_image =
      Some (Ok (), demo_image(bin ''ptp'' := demo_image (shipped ''ptp'')))"
    by (rule map_files_copyFile) (simp_all add: dir demo_image_def shipped_def fresh_path_def)
  with copy_is_all_or_nothing [OF map_files_copies this] show ?thesis by (simp add: demo_image_def shipped_def)
qed

lemma demo_install: "\<exists>f. Install map_files demo_installer demo_image = Some (Ok (), f) \<and> f CNIConfigPath \<noteq> None"
proof -
  let ?f1 = "demo_image(bin ''vpcnet'' \<mapsto> ''vpcnet binary'')"
  let ?f2 = "?f1(bin ''loopback'' \<mapsto> ''lo'')"
  let ?f3 = "?f2(bin ''ptp'' \<mapsto> ''ptp binary'')"
  have dir: "f \<in> set plugins \<Longrightarrow> filepath_dir (''/opt/cni/bin/'' @ f) = ''/opt/cni/bin''" for f
    using bin_dir by (simp add: bin_def)
  note dirs = dir [of "''vpcnet''"] dir [of "''loopback''"] dir [of "''ptp''"]
  have 1: "copyFile map_files (''/opt/cni/bin/'' @ ''vpcnet'') (''/cni/'' @ ''vpcnet'') demo_image = Some (Ok (), ?f1)"
    using map_files_copyFile [of demo_image "''/cni/'' @ ''vpcnet''" "''/opt/cni/bin/'' @ ''vpcnet''"] dirs
    by (simp add: plugins_def demo_image_def shipped_def fresh_path_def bin_def)
  have 2: "copyFile map_files (''/opt/cni/bin/'' @ ''loopback'') (''/cni/'' @ ''loopback'') ?f1 = Some (Ok (), ?f2)"
    using map_files_copyFile [of ?f1 "''/cni/'' @ ''loopback''" "''/opt/cni/bin/'' @ ''loopback''"] dirs
    by (simp add: plugins_def demo_image_def shipped_def fresh_path_def bin_def)
  have 3: "copyFile map_files (''/opt/cni/bin/'' @ ''ptp'') (''/cni/'' @ ''ptp'') ?f2 = Some (Ok (), ?f3)"
    using map_files_copyFile [of ?f2 "''/cni/'' @ ''ptp''" "''/opt/cni/bin/'' @ ''ptp''"] dirs
    by (simp add: plugins_def demo_image_def shipped_def fresh_path_def bin_def)
  obtain t where t: "json_marshal enc_cni_net (cni_config \<lparr>CNIVLevel = 2\<rparr> ''/var/lib/cni/vpcnet/ipam.sock'') = Inr t"
    by (rule cni_json.printed.encE [of "cni_config \<lparr>CNIVLevel = 2\<rparr> ''/var/lib/cni/vpcnet/ipam.sock''"])
      (simp_all add: sendable_cni_def cni_config_def int64_def)
  have "Install map_files demo_installer demo_image = Some (Ok (), ?f3(CNIConfigPath \<mapsto> t))"
    using 1 2 3
    by (simp add: Install_def map_files_calls plugins_def WriteCNIConfig_def demo_installer_def deref_def t of_sum_def)
  then show ?thesis by simp
qed

theorem config_appears_after_plugins_witness:
  "\<exists>f. Install map_files demo_installer demo_image = Some (Ok (), f) \<and> f (bin ''ptp'') = Some ''ptp binary''"
proof -
  obtain f where f: "Install map_files demo_installer demo_image = Some (Ok (), f)" "f CNIConfigPath \<noteq> None"
    using demo_install by blast
  have none: "demo_image CNIConfigPath = None" by (simp add: demo_image_def shipped_def CNIConfigPath_def)
  have "f (bin ''ptp'') = demo_image (shipped ''ptp'')"
    using config_appears_after_plugins [where files = "\<lambda>f. f", OF map_files_copies map_files_system none f, of "''ptp''"]
    by (simp add: plugins_def)
  with f show ?thesis by (simp add: demo_image_def shipped_def)
qed

end
