(* ===== verification/Work_Queue.thy ===== *)
theory Work_Queue
  imports Go_Prelude
begin

text \<open>
  The work queue of both controllers (client-go's util/workqueue, vendored): a queue of keys
  without duplicates, behind a layer that delays keys and counts how often they were added.
  Time is not modelled: a key that waits may become ready at any moment. The locale
  \<open>key_queue\<close> is what the workers rely on, in terms of two sets of keys.
\<close>

section \<open>The queue\<close>

text \<open>
  \<open>wq_waiting\<close> has the keys on their way through the delaying layer, \<open>wq_failures\<close> the
  counters of the rate limiter for single items (the bucket limiter counts nothing).
\<close>

record work_queue =
  wq_queue :: "string list"
  wq_dirty :: "string set"
  wq_processing :: "string set"
  wq_shuttingDown :: bool
  wq_waiting :: "string list"
  wq_failures :: "string \<Rightarrow> nat"

definition NewQueue :: work_queue where
  "NewQueue = \<lparr>wq_queue = [], wq_dirty = {}, wq_processing = {}, wq_shuttingDown = False, wq_waiting = [],
     wq_failures = (\<lambda>_. 0)\<rparr>"

definition q_Add :: "string \<Rightarrow> work_queue \<Rightarrow> work_queue" where
  "q_Add item q =
     (if wq_shuttingDown q then q
      else if item \<in> wq_dirty q then q
      else
        let q' = q\<lparr>wq_dirty := insert item (wq_dirty q)\<rparr> in
        if item \<in> wq_processing q then q' else q'\<lparr>wq_queue := wq_queue q @ [item]\<rparr>)"

text \<open>Nothing while the call blocks; no item when the queue is shut down and empty.\<close>

definition q_Get :: "work_queue \<Rightarrow> (string option \<times> work_queue) option" where
  "q_Get q =
     (case wq_queue q of
        [] \<Rightarrow> if wq_shuttingDown q then Some (None, q) else None
      | item # rest \<Rightarrow> Some (Some item, q\<lparr>wq_queue := rest, wq_processing := insert item (wq_processing q),
          wq_dirty := wq_dirty q - {item}\<rparr>))"

definition q_Done :: "string \<Rightarrow> work_queue \<Rightarrow> work_queue" where
  "q_Done item q =
     (let q' = q\<lparr>wq_processing := wq_processing q - {item}\<rparr> in
      if item \<in> wq_dirty q then q'\<lparr>wq_queue := wq_queue q @ [item]\<rparr> else q')"

definition q_ShutDown :: "work_queue \<Rightarrow> work_queue" where
  "q_ShutDown q = q\<lparr>wq_shuttingDown := True\<rparr>"

subsection \<open>The delaying layer\<close>

text \<open>
  The delay in nanoseconds that the exponential limiter gives an item with \<open>n\<close> failures; its
  floating-point numbers are exact here. The other limiter may only make the delay longer.
\<close>

definition base_delay :: int where "base_delay = 5000000"
definition max_delay :: int where "max_delay = 1000000000000"

definition item_delay :: "nat \<Rightarrow> int" where
  "item_delay n =
     (let backoff = base_delay * 2 ^ n in
      if backoff > 2 ^ 63 then max_delay else if backoff > max_delay then max_delay else backoff)"

text \<open>\<open>AddAfter\<close> with a positive delay: an item that is shut out is not even delayed.\<close>

definition AddAfter :: "string \<Rightarrow> int \<Rightarrow> work_queue \<Rightarrow> work_queue" where
  "AddAfter item duration q =
     (if wq_shuttingDown q then q
      else if duration \<le> 0 then q_Add item q
      else q\<lparr>wq_waiting := wq_waiting q @ [item]\<rparr>)"

definition AddRateLimited :: "string \<Rightarrow> work_queue \<Rightarrow> work_queue" where
  "AddRateLimited item q =
     AddAfter item (item_delay (wq_failures q item))
       (q\<lparr>wq_failures := (wq_failures q)(item := wq_failures q item + 1)\<rparr>)"

definition NumRequeues :: "string \<Rightarrow> work_queue \<Rightarrow> nat" where
  "NumRequeues item q = wq_failures q item"

definition Forget :: "string \<Rightarrow> work_queue \<Rightarrow> work_queue" where
  "Forget item q = q\<lparr>wq_failures := (wq_failures q)(item := 0)\<rparr>"

text \<open>The loop of the delaying layer: an item whose time has come is added.\<close>

definition ripen :: "string \<Rightarrow> work_queue \<Rightarrow> work_queue" where
  "ripen item q = q_Add item (q\<lparr>wq_waiting := remove1 item (wq_waiting q)\<rparr>)"

section \<open>The queue as two sets\<close>

text \<open>The invariant that the fields' comments state.\<close>

definition queue_ok :: "work_queue \<Rightarrow> bool" where
  "queue_ok q \<longleftrightarrow> distinct (wq_queue q) \<and> set (wq_queue q) = wq_dirty q - wq_processing q"

lemma queue_okD:
  assumes "queue_ok q"
  shows "distinct (wq_queue q)" "set (wq_queue q) = wq_dirty q - wq_processing q"
  using assms by (simp_all add: queue_ok_def)

lemma q_Add_sets:
  "wq_dirty (q_Add k q) = (if wq_shuttingDown q then wq_dirty q else insert k (wq_dirty q))"
  "wq_processing (q_Add k q) = wq_processing q" "wq_shuttingDown (q_Add k q) = wq_shuttingDown q"
  "wq_waiting (q_Add k q) = wq_waiting q" "wq_failures (q_Add k q) = wq_failures q"
  by (auto simp: q_Add_def Let_def)

lemma q_Done_sets:
  "wq_dirty (q_Done k q) = wq_dirty q" "wq_processing (q_Done k q) = wq_processing q - {k}"
  "wq_shuttingDown (q_Done k q) = wq_shuttingDown q" "wq_waiting (q_Done k q) = wq_waiting q"
  "wq_failures (q_Done k q) = wq_failures q"
  by (auto simp: q_Done_def Let_def)

lemma q_Get_sets:
  assumes "q_Get q = Some (Some k, q')"
  shows "k \<in> set (wq_queue q)" "wq_dirty q' = wq_dirty q - {k}" "wq_processing q' = insert k (wq_processing q)"
    "wq_shuttingDown q' = wq_shuttingDown q" "wq_waiting q' = wq_waiting q" "wq_failures q' = wq_failures q"
    "wq_queue q = k # wq_queue q'"
  using assms by (auto simp: q_Get_def split: list.splits if_splits)

lemma queue_ok_Add: "queue_ok q \<Longrightarrow> queue_ok (q_Add k q)"
  by (auto simp: queue_ok_def q_Add_def Let_def)

lemma queue_ok_Get: "queue_ok q \<Longrightarrow> q_Get q = Some (Some k, q') \<Longrightarrow> queue_ok q'"
  by (auto simp: queue_ok_def q_Get_def split: list.splits if_splits)

lemma queue_ok_Done: "queue_ok q \<Longrightarrow> k \<in> wq_processing q \<Longrightarrow> queue_ok (q_Done k q)"
  by (auto simp: queue_ok_def q_Done_def Let_def)

lemma queue_ok_fields:
  "queue_ok (q\<lparr>wq_waiting := ws\<rparr>) = queue_ok q" "queue_ok (q\<lparr>wq_failures := fs\<rparr>) = queue_ok q"
  "queue_ok (q\<lparr>wq_shuttingDown := b\<rparr>) = queue_ok q"
  by (simp_all add: queue_ok_def)

lemma queue_ok_New: "queue_ok NewQueue"
  by (simp add: queue_ok_def NewQueue_def)

text \<open>
  The interface of the queue that the workers use. \<open>pending\<close> are the keys that need a run,
  \<open>running\<close> those in a run; a key can be both.
\<close>

locale key_queue =
  fixes q_add :: "string \<Rightarrow> 'q \<Rightarrow> 'q"
    and q_get :: "'q \<Rightarrow> (string option \<times> 'q) option"
    and q_done :: "string \<Rightarrow> 'q \<Rightarrow> 'q"
    and inv :: "'q \<Rightarrow> bool"
    and closed :: "'q \<Rightarrow> bool"
    and pending :: "'q \<Rightarrow> string set"
    and running :: "'q \<Rightarrow> string set"
  assumes add_law: "inv q \<Longrightarrow> inv (q_add k q) \<and> running (q_add k q) = running q \<and>
      pending (q_add k q) = (if closed q then pending q else insert k (pending q))"
    and get_item: "inv q \<Longrightarrow> q_get q = Some (Some k, q') \<Longrightarrow>
      inv q' \<and> k \<in> pending q - running q \<and> pending q' = pending q - {k} \<and> running q' = insert k (running q)"
    and get_blocks: "inv q \<Longrightarrow> q_get q = None \<longleftrightarrow> \<not> closed q \<and> pending q \<subseteq> running q"
    and get_ends: "inv q \<Longrightarrow> (\<exists>q'. q_get q = Some (None, q')) \<longleftrightarrow> closed q \<and> pending q \<subseteq> running q"
    and done_law: "inv q \<Longrightarrow> k \<in> running q \<Longrightarrow>
      inv (q_done k q) \<and> pending (q_done k q) = pending q \<and> running (q_done k q) = running q - {k}"
begin

text \<open>Workers, each with the key it is working on: the keys are the running ones, no two alike.\<close>

definition manned :: "'q \<Rightarrow> (nat \<rightharpoonup> string) \<Rightarrow> bool" where
  "manned q busy \<longleftrightarrow> inv q \<and> running q = ran busy \<and> inj_on busy (dom busy)"

lemma manned_add: "manned q busy \<Longrightarrow> manned (q_add k q) busy"
  by (simp add: manned_def add_law)

lemma manned_get:
  assumes "manned q busy" "busy i = None" "q_get q = Some (Some k, q')"
  shows "manned q' (busy(i \<mapsto> k))"
proof -
  have q: "inv q" "running q = ran busy" "inj_on busy (dom busy)" using assms(1) by (simp_all add: manned_def)
  note got = get_item [OF q(1) assms(3)]
  have "k \<notin> ran busy" using got q(2) by auto
  then have "inj_on (busy(i \<mapsto> k)) (dom (busy(i \<mapsto> k)))"
    using q(3) assms(2) by (auto simp: inj_on_def ran_def)
  moreover have "ran (busy(i \<mapsto> k)) = insert k (ran busy)" by (simp add: assms(2))
  ultimately show ?thesis using got q(2) by (simp add: manned_def)
qed

lemma manned_done:
  assumes "manned q busy" "busy i = Some k"
  shows "manned (q_done k q) (busy(i := None))"
proof -
  have q: "inv q" "running q = ran busy" "inj_on busy (dom busy)" using assms(1) by (simp_all add: manned_def)
  have k: "k \<in> running q" using q(2) assms(2) by (auto simp: ran_def)
  have "ran (busy(i := None)) = ran busy - {k}"
    using q(3) assms(2) by (auto simp: ran_def inj_on_def dom_def) (metis option.inject)
  moreover have "inj_on (busy(i := None)) (dom (busy(i := None)))"
    using q(3) by (auto simp: inj_on_def dom_def)
  ultimately show ?thesis using done_law [OF q(1) k] q(2) by (simp add: manned_def)
qed

lemma manned_exclusive:
  assumes "manned q busy" "busy i = Some k" "busy j = Some k"
  shows "i = j"
  using assms by (auto simp: manned_def inj_on_def dom_def)

text \<open>When the queue has nothing for idle workers, everything pending is being worked on.\<close>

lemma blocked_is_busy:
  assumes "manned q busy" "q_get q = None" "k \<in> pending q"
  shows "\<exists>i. busy i = Some k"
  using assms get_blocks [of q] by (auto simp: manned_def ran_def)

end

interpretation node_queue: key_queue q_Add q_Get q_Done queue_ok wq_shuttingDown wq_dirty wq_processing
proof
  fix q q' :: work_queue and k
  assume ok: "queue_ok q"
  show "queue_ok (q_Add k q) \<and> wq_processing (q_Add k q) = wq_processing q \<and>
      wq_dirty (q_Add k q) = (if wq_shuttingDown q then wq_dirty q else insert k (wq_dirty q))"
    using queue_ok_Add [OF ok] by (simp add: q_Add_sets)
  show "q_Get q = None \<longleftrightarrow> \<not> wq_shuttingDown q \<and> wq_dirty q \<subseteq> wq_processing q"
    and "(\<exists>q'. q_Get q = Some (None, q')) \<longleftrightarrow> wq_shuttingDown q \<and> wq_dirty q \<subseteq> wq_processing q"
    using queue_okD [OF ok] by (auto simp: q_Get_def split: list.splits)
  show "queue_ok q' \<and> k \<in> wq_dirty q - wq_processing q \<and> wq_dirty q' = wq_dirty q - {k} \<and>
      wq_processing q' = insert k (wq_processing q)" if "q_Get q = Some (Some k, q')"
    using q_Get_sets [OF that] queue_ok_Get [OF ok that] queue_okD [OF ok] by auto
  show "queue_ok (q_Done k q) \<and> wq_dirty (q_Done k q) = wq_dirty q \<and>
      wq_processing (q_Done k q) = wq_processing q - {k}" if "k \<in> wq_processing q"
    using queue_ok_Done [OF ok that] by (simp add: q_Done_sets)
qed

section \<open>Delays\<close>

lemma item_delay_min: "item_delay n = min (base_delay * 2 ^ n) max_delay"
proof (cases "base_delay * 2 ^ n > max_delay")
  case True
  then show ?thesis by (simp add: item_delay_def Let_def)
next
  case False
  then have "\<not> base_delay * 2 ^ n > 2 ^ 63" by (simp add: max_delay_def)
  with False show ?thesis by (simp add: item_delay_def Let_def)
qed

lemma item_delay_pos: "0 < item_delay n"
  by (simp add: item_delay_min base_delay_def max_delay_def)

lemma AddRateLimited_simp:
  "AddRateLimited k q = q\<lparr>wq_failures := (wq_failures q)(k := wq_failures q k + 1),
     wq_waiting := (if wq_shuttingDown q then wq_waiting q else wq_waiting q @ [k])\<rparr>"
  using item_delay_pos [of "wq_failures q k"] by (simp add: AddRateLimited_def AddAfter_def)

end
