(* ===== verification/Workers.thy ===== *)
theory Workers
  imports Work_Queue Eni_Controller If_Controller
begin

text \<open>
  How both controllers get from node events to runs of their handler: the event handlers that
  put a node's key on the work queue, the workers' loop, and what is done about an error. The
  first sections translate the code for one worker; the last one lets any number of workers,
  events and the delaying layer interleave.
\<close>

section \<open>Events\<close>

text \<open>
  What an informer hands over: a node, or the mark of a node whose deletion it has missed, for
  which \<open>MetaNamespaceKeyFunc\<close> has no key. A node's key is its name.
\<close>

datatype watched = Watched node | DeletedFinalStateUnknown string

fun MetaNamespaceKeyFunc :: "watched \<Rightarrow> string option" where
  "MetaNamespaceKeyFunc (Watched n) = Some (node_Name n)"
| "MetaNamespaceKeyFunc (DeletedFinalStateUnknown key) = None"

definition enqueueNode :: "watched \<Rightarrow> work_queue \<Rightarrow> work_queue" where
  "enqueueNode obj q = (case MetaNamespaceKeyFunc obj of None \<Rightarrow> q | Some key \<Rightarrow> AddRateLimited key q)"

datatype node_event = Added node | Updated node node | Deleted watched

fun eni_event :: "node_event \<Rightarrow> work_queue \<Rightarrow> work_queue" where
  "eni_event (Added n) = enqueueNode (Watched n)"
| "eni_event (Updated old new) = enqueueNode (Watched new)"
| "eni_event (Deleted obj) = enqueueNode obj"

text \<open>The daemon's controller has the same code a second time.\<close>

definition if_enqueueNode :: "watched \<Rightarrow> work_queue \<Rightarrow> work_queue" where
  "if_enqueueNode = enqueueNode"

fun if_event :: "node_event \<Rightarrow> work_queue \<Rightarrow> work_queue" where
  "if_event (Added n) = if_enqueueNode (Watched n)"
| "if_event (Updated old new) = (if ResourceVersion new = ResourceVersion old then (\<lambda>q. q) else if_enqueueNode (Watched new))"
| "if_event (Deleted obj) = (\<lambda>q. q)"

section \<open>A worker\<close>

definition handleErr :: "error option \<Rightarrow> string \<Rightarrow> (work_queue, unit) io" where
  "handleErr err key q =
     (case err of
        None \<Rightarrow> Some (Ok (), Forget key q)
      | Some e \<Rightarrow>
          if NumRequeues key q < 5 then Some (Ok (), AddRateLimited key q)
          else fatal ''Repeated errors processing node'' (Forget key q))"

text \<open>\<open>defer c.workqueue.Done(key)\<close>: also when the call panics, but not when the process exits.\<close>

definition deferring :: "('s \<Rightarrow> 's) \<Rightarrow> ('w \<times> 's, 'a) io \<Rightarrow> ('w \<times> 's, 'a) io" where
  "deferring f m w =
     (case m w of
        None \<Rightarrow> None
      | Some (Exit s, w') \<Rightarrow> Some (Exit s, w')
      | Some (r, w') \<Rightarrow> Some (r, (fst w', f (snd w'))))"

definition getItem :: "(work_queue, string option) io" where
  "getItem q = map_option (\<lambda>(item, q'). (Ok item, q')) (q_Get q)"

definition err_of :: "error + unit \<Rightarrow> error option" where
  "err_of r = (case r of Inl e \<Rightarrow> Some e | Inr _ \<Rightarrow> None)"

definition processNextItem :: "(string \<Rightarrow> ('w, unit) io) \<Rightarrow> ('w \<times> work_queue, bool) io" where
  "processNextItem handle =
     andthen (on_snd getItem) (\<lambda>item.
       case item of
         None \<Rightarrow> ret False
       | Some key \<Rightarrow>
           deferring (q_Done key)
             (andthen (attempt (on_fst (handle key))) (\<lambda>r.
              andthen (on_snd (handleErr (err_of r) key)) (\<lambda>_. ret True))))"

partial_function (option) runWorker :: "(string \<Rightarrow> ('w, unit) io) \<Rightarrow> 'w \<times> work_queue \<Rightarrow> (unit outcome \<times> ('w \<times> work_queue)) option"
where
  "runWorker handle w =
     (case processNextItem handle w of
        None \<Rightarrow> None
      | Some (Ok again, w') \<Rightarrow> if again then runWorker handle w' else Some (Ok (), w')
      | Some (Fail e, w') \<Rightarrow> Some (Fail e, w')
      | Some (Panic s, w') \<Rightarrow> Some (Panic s, w')
      | Some (Exit s, w') \<Rightarrow> Some (Exit s, w'))"

declare runWorker.simps [code]

text \<open>The two controllers, which have the three functions above line by line.\<close>

definition eni_runWorker where
  "eni_runWorker c = runWorker (handleNode c)"

definition if_handleErr :: "error option \<Rightarrow> string \<Rightarrow> (work_queue, unit) io" where
  "if_handleErr = handleErr"

definition if_processNextItem where
  "if_processNextItem c = processNextItem (if_handleNode c)"

definition if_runWorker where
  "if_runWorker c = runWorker (if_handleNode c)"

subsection \<open>One item\<close>

lemma getItem_eq:
  "getItem q = (case wq_queue q of
      [] \<Rightarrow> if wq_shuttingDown q then Some (Ok None, q) else None
    | item # rest \<Rightarrow> Some (Ok (Some item), q\<lparr>wq_queue := rest, wq_processing := insert item (wq_processing q),
        wq_dirty := wq_dirty q - {item}\<rparr>))"
  by (simp add: getItem_def q_Get_def split: list.splits)

lemma item_ok:
  assumes "q_Get q = Some (Some k, q1)" "handle k w = Some (Ok (), w')"
  shows "processNextItem handle (w, q) = Some (Ok True, (w', q_Done k (Forget k q1)))"
  using assms by (simp add: processNextItem_def getItem_def deferring_def err_of_def handleErr_def)

lemma item_retried:
  assumes "q_Get q = Some (Some k, q1)" "handle k w = Some (Fail e, w')" "wq_failures q k < 5"
  shows "processNextItem handle (w, q) = Some (Ok True, (w', q_Done k (AddRateLimited k q1)))"
  using assms q_Get_sets(6) [OF assms(1)]
  by (simp add: processNextItem_def getItem_def deferring_def err_of_def handleErr_def NumRequeues_def)

lemma item_fatal:
  assumes "q_Get q = Some (Some k, q1)" "handle k w = Some (Fail e, w')" "5 \<le> wq_failures q k"
  shows "processNextItem handle (w, q) = Some (Exit ''Repeated errors processing node'', (w', Forget k q1))"
  using assms q_Get_sets(6) [OF assms(1)]
  by (simp add: processNextItem_def getItem_def deferring_def err_of_def handleErr_def NumRequeues_def)

section \<open>All workers\<close>

text \<open>
  \<open>busy\<close> has the key each worker is working on; \<open>owed\<close> the keys that had an event or a failed
  run since they were last taken from the queue. A handler may end with any error or none;
  the work it does is not part of this state.
\<close>

record crew =
  cr_queue :: work_queue
  cr_busy :: "nat \<rightharpoonup> string"
  cr_owed :: "string set"
  cr_exited :: bool

definition idle_crew :: crew where
  "idle_crew = \<lparr>cr_queue = NewQueue, cr_busy = Map.empty, cr_owed = {}, cr_exited = False\<rparr>"

inductive crew_step :: "crew \<Rightarrow> crew \<Rightarrow> bool" where
  event: "\<not> cr_exited c \<Longrightarrow> MetaNamespaceKeyFunc obj = Some k \<Longrightarrow>
     crew_step c (c\<lparr>cr_queue := enqueueNode obj (cr_queue c), cr_owed := insert k (cr_owed c)\<rparr>)"
| merged: "\<not> cr_exited c \<Longrightarrow> k \<in> set (remove1 k (wq_waiting (cr_queue c))) \<Longrightarrow>
     crew_step c (c\<lparr>cr_queue := (cr_queue c)\<lparr>wq_waiting := remove1 k (wq_waiting (cr_queue c))\<rparr>\<rparr>)"
| ripened: "\<not> cr_exited c \<Longrightarrow> k \<in> set (wq_waiting (cr_queue c)) \<Longrightarrow>
     crew_step c (c\<lparr>cr_queue := ripen k (cr_queue c)\<rparr>)"
| taken: "\<not> cr_exited c \<Longrightarrow> cr_busy c i = None \<Longrightarrow> q_Get (cr_queue c) = Some (Some k, q') \<Longrightarrow>
     crew_step c (c\<lparr>cr_queue := q', cr_busy := (cr_busy c)(i \<mapsto> k), cr_owed := cr_owed c - {k}\<rparr>)"
| finished: "\<not> cr_exited c \<Longrightarrow> cr_busy c i = Some k \<Longrightarrow> handleErr err k (cr_queue c) = Some (Ok (), q') \<Longrightarrow>
     crew_step c (c\<lparr>cr_queue := q_Done k q', cr_busy := (cr_busy c)(i := None),
       cr_owed := (if err = None then cr_owed c else insert k (cr_owed c))\<rparr>)"
| gave_up: "\<not> cr_exited c \<Longrightarrow> cr_busy c i = Some k \<Longrightarrow> handleErr err k (cr_queue c) = Some (Exit s, q') \<Longrightarrow>
     crew_step c (c\<lparr>cr_queue := q', cr_exited := True\<rparr>)"
| closed: "\<not> cr_exited c \<Longrightarrow> crew_step c (c\<lparr>cr_queue := q_ShutDown (cr_queue c)\<rparr>)"

inductive crew_reach :: "crew \<Rightarrow> bool" where
  start: "crew_reach idle_crew"
| step: "crew_reach c \<Longrightarrow> crew_step c c' \<Longrightarrow> crew_reach c'"

definition crew_ok :: "crew \<Rightarrow> bool" where
  "crew_ok c \<longleftrightarrow> node_queue.manned (cr_queue c) (cr_busy c) \<and>
     (wq_shuttingDown (cr_queue c) \<or> cr_exited c \<or> cr_owed c \<subseteq> set (wq_waiting (cr_queue c)) \<union> wq_dirty (cr_queue c))"

end
