(* ===== verification/Worker_Theorems.thy ===== *)
theory Worker_Theorems
  imports Workers
begin

text \<open>
  What the controllers' queue and workers guarantee: one run per key at a time, no event lost,
  and when they give up; and what the counting of events as retries does to the latter.
\<close>

section \<open>The queue\<close>

text \<open>
  C25. The queue implements two sets of keys, those that need a run and those in a run: adding
  puts a key into the first, getting moves one that is not in a run from the first to the
  second, and blocks or ends exactly when there is none; finishing takes it out of the second.
\<close>

theorem queue_refines_sets:
  assumes "queue_ok q"
  shows "wq_dirty (q_Add k q) = (if wq_shuttingDown q then wq_dirty q else insert k (wq_dirty q)) \<and>
    wq_processing (q_Add k q) = wq_processing q \<and> queue_ok (q_Add k q) \<and>
    (case q_Get q of
       None \<Rightarrow> \<not> wq_shuttingDown q \<and> wq_dirty q \<subseteq> wq_processing q
     | Some (None, q') \<Rightarrow> wq_shuttingDown q \<and> wq_dirty q \<subseteq> wq_processing q \<and> q' = q
     | Some (Some x, q') \<Rightarrow> x \<in> wq_dirty q - wq_processing q \<and> wq_dirty q' = wq_dirty q - {x} \<and>
         wq_processing q' = insert x (wq_processing q) \<and> queue_ok q') \<and>
    (k \<in> wq_processing q \<longrightarrow> wq_dirty (q_Done k q) = wq_dirty q \<and>
       wq_processing (q_Done k q) = wq_processing q - {k} \<and> queue_ok (q_Done k q))"
proof (intro conjI impI)
  show "case q_Get q of
       None \<Rightarrow> \<not> wq_shuttingDown q \<and> wq_dirty q \<subseteq> wq_processing q
     | Some (None, q') \<Rightarrow> wq_shuttingDown q \<and> wq_dirty q \<subseteq> wq_processing q \<and> q' = q
     | Some (Some x, q') \<Rightarrow> x \<in> wq_dirty q - wq_processing q \<and> wq_dirty q' = wq_dirty q - {x} \<and>
         wq_processing q' = insert x (wq_processing q) \<and> queue_ok q'"
  proof (cases "wq_queue q")
    case Nil
    then show ?thesis using queue_okD(2) [OF assms] by (simp add: q_Get_def)
  next
    case (Cons x rest)
    then obtain q' where "q_Get q = Some (Some x, q')" by (simp add: q_Get_def)
    with node_queue.get_item [OF assms this] show ?thesis by simp
  qed
qed (use node_queue.add_law [OF assms] node_queue.done_law [OF assms] in simp_all)

theorem queue_refines_sets_witness:
  "q_Get (q_Add ''a'' NewQueue) = Some (Some ''a'', NewQueue\<lparr>wq_processing := {''a''}\<rparr>) \<and>
   wq_processing (q_Done ''a'' (NewQueue\<lparr>wq_processing := {''a''}\<rparr>)) = {}"
proof -
  have "queue_ok (NewQueue\<lparr>wq_processing := {''a''}\<rparr>)" by (simp add: queue_ok_def NewQueue_def)
  from queue_refines_sets [OF this, of "''a''"] show ?thesis
    by (simp add: q_Get_def q_Add_def NewQueue_def)
qed

section \<open>Workers side by side\<close>

lemma manned_fields:
  "node_queue.manned (q\<lparr>wq_waiting := ws\<rparr>) busy = node_queue.manned q busy"
  "node_queue.manned (q\<lparr>wq_failures := fs\<rparr>) busy = node_queue.manned q busy"
  "node_queue.manned (q\<lparr>wq_shuttingDown := b\<rparr>) busy = node_queue.manned q busy"
  by (simp_all add: node_queue.manned_def queue_ok_fields)

lemma handleErr_queue:
  assumes "handleErr err k q = Some (r, q')"
  shows "q' = Forget k q \<or> q' = AddRateLimited k q" "r = Ok () \<Longrightarrow> err \<noteq> None \<Longrightarrow> q' = AddRateLimited k q"
    "(\<exists>s. r = Exit s) \<longleftrightarrow> err \<noteq> None \<and> 5 \<le> wq_failures q k"
  using assms by (auto simp: handleErr_def NumRequeues_def split: option.splits if_splits)

lemma handleErr_manned:
  assumes "handleErr err k q = Some (r, q')"
  shows "node_queue.manned q' busy = node_queue.manned q busy" "wq_dirty q' = wq_dirty q"
    "wq_shuttingDown q' = wq_shuttingDown q" "set (wq_waiting q) \<subseteq> set (wq_waiting q')"
    "r = Ok () \<Longrightarrow> err \<noteq> None \<Longrightarrow> wq_shuttingDown q \<or> k \<in> set (wq_waiting q')"
proof -
  show "node_queue.manned q' busy = node_queue.manned q busy" "wq_dirty q' = wq_dirty q"
    "wq_shuttingDown q' = wq_shuttingDown q" "set (wq_waiting q) \<subseteq> set (wq_waiting q')"
    using handleErr_queue(1) [OF assms]
    by (elim disjE; auto simp: Forget_def AddRateLimited_simp node_queue.manned_def queue_ok_def)+
  show "r = Ok () \<Longrightarrow> err \<noteq> None \<Longrightarrow> wq_shuttingDown q \<or> k \<in> set (wq_waiting q')"
    using handleErr_queue(2) [OF assms] by (simp add: AddRateLimited_simp)
qed

lemma enqueueNode_manned:
  assumes "MetaNamespaceKeyFunc obj = Some k"
  shows "node_queue.manned (enqueueNode obj q) busy = node_queue.manned q busy"
    "wq_dirty (enqueueNode obj q) = wq_dirty q" "wq_shuttingDown (enqueueNode obj q) = wq_shuttingDown q"
    "set (wq_waiting q) \<subseteq> set (wq_waiting (enqueueNode obj q))"
    "wq_shuttingDown q \<or> k \<in> set (wq_waiting (enqueueNode obj q))"
  using assms by (auto simp: enqueueNode_def AddRateLimited_simp node_queue.manned_def queue_ok_def)

lemma crew_ok_step:
  assumes ok: "crew_ok c" and step: "crew_step c c'"
  shows "crew_ok c'"
proof -
  have manned: "node_queue.manned (cr_queue c) (cr_busy c)" using ok by (simp add: crew_ok_def)
  from step show ?thesis
  proof cases
    case (event obj k)
    then show ?thesis using ok enqueueNode_manned [OF event(3), of "cr_queue c"] by (auto simp: crew_ok_def)
  next
    case (merged k)
    then have "set (remove1 k (wq_waiting (cr_queue c))) = set (wq_waiting (cr_queue c))"
      using set_remove1_subset [of k "wq_waiting (cr_queue c)"] in_set_remove1
      by (metis insert_absorb remove1_split set_eq_subset subsetI)
    then show ?thesis using merged ok by (simp add: crew_ok_def manned_fields)
  next
    case (ripened k)
    then show ?thesis
      using ok node_queue.manned_add [of "(cr_queue c)\<lparr>wq_waiting := remove1 k (wq_waiting (cr_queue c))\<rparr>" "cr_busy c" k]
      by (auto simp: crew_ok_def ripen_def q_Add_sets manned_fields in_set_remove1)
  next
    case (taken i k q')
    then show ?thesis
      using ok node_queue.manned_get [OF manned taken(3,4)] q_Get_sets [OF taken(4)] by (auto simp: crew_ok_def)
  next
    case (finished i k err q')
    note err = handleErr_manned [OF finished(4)]
    have "node_queue.manned q' (cr_busy c)" using manned err(1) by simp
    from node_queue.manned_done [OF this finished(3)] show ?thesis
      using finished ok err by (auto simp: crew_ok_def q_Done_sets split: if_splits)
  next
    case (gave_up i k err s q')
    then show ?thesis using ok handleErr_manned [OF gave_up(4)] by (simp add: crew_ok_def)
  next
    case closed
    then show ?thesis using ok by (simp add: crew_ok_def q_ShutDown_def manned_fields)
  qed
qed

lemma crew_ok_reach: "crew_reach c \<Longrightarrow> crew_ok c"
proof (induction rule: crew_reach.induct)
  case start
  then show ?case
    by (simp add: crew_ok_def idle_crew_def node_queue.manned_def queue_ok_New NewQueue_def [THEN arg_cong, of wq_processing])
qed (rule crew_ok_step)

text \<open>
  C24. However events, delays and any number of workers interleave, no two workers handle the
  same node at the same time.
\<close>

theorem one_worker_per_node:
  assumes "crew_reach c" "cr_busy c i = Some k" "cr_busy c j = Some k"
  shows "i = j"
  using crew_ok_reach [OF assms(1)] node_queue.manned_exclusive assms(2,3) by (auto simp: crew_ok_def)

text \<open>
  C23. No event is lost before shutdown: a node that had an event or a failed run since its key
  was last taken is waiting or queued, or a worker has its key and will find it queued again.
\<close>

theorem no_event_is_lost:
  assumes "crew_reach c" "\<not> cr_exited c" "\<not> wq_shuttingDown (cr_queue c)" "k \<in> cr_owed c"
  shows "k \<in> set (wq_waiting (cr_queue c)) \<or> k \<in> set (wq_queue (cr_queue c)) \<or>
    (\<exists>i. cr_busy c i = Some k \<and> k \<in> set (wq_queue (q_Done k (cr_queue c))))"
proof -
  let ?q = "cr_queue c"
  have ok: "node_queue.manned ?q (cr_busy c)" "cr_owed c \<subseteq> set (wq_waiting ?q) \<union> wq_dirty ?q"
    using crew_ok_reach [OF assms(1)] assms(2,3) by (simp_all add: crew_ok_def)
  then have "queue_ok ?q" "wq_processing ?q = ran (cr_busy c)" by (simp_all add: node_queue.manned_def)
  then show ?thesis
    using ok(2) assms(4) queue_okD(2) [of ?q] by (auto simp: q_Done_def Let_def ran_def)
qed

section \<open>Giving up\<close>

lemma events_queue:
  "(enqueueNode (Watched nd) ^^ n) q = q\<lparr>wq_failures := (wq_failures q)(node_Name nd := wq_failures q (node_Name nd) + n),
     wq_waiting := (if wq_shuttingDown q then wq_waiting q else wq_waiting q @ replicate n (node_Name nd))\<rparr>"
proof (induction n)
  case (Suc n)
  have "(enqueueNode (Watched nd) ^^ Suc n) q = AddRateLimited (node_Name nd) ((enqueueNode (Watched nd) ^^ n) q)"
    by (simp add: enqueueNode_def)
  then show ?case by (simp only: Suc AddRateLimited_simp) (simp add: replicate_append_same fun_upd_def cong: if_cong)
qed simp

text \<open>
  C30. Events count as retries: a node that had \<open>n\<close> events before its first run has that many
  fewer retries, and after five events the first error already terminates the process.
\<close>

theorem events_use_up_retries:
  assumes "0 < n" "handle (node_Name nd) w = Some (Fail e, w')"
  shows "\<exists>q'. processNextItem handle (w, ripen (node_Name nd) ((enqueueNode (Watched nd) ^^ n) NewQueue)) =
      Some (if 5 \<le> n then Exit ''Repeated errors processing node'' else Ok True, (w', q')) \<and>
    (n < 5 \<longrightarrow> NumRequeues (node_Name nd) q' = n + 1)"
proof -
  let ?k = "node_Name nd"
  let ?q = "ripen ?k ((enqueueNode (Watched nd) ^^ n) NewQueue)"
  obtain q1 where q1: "q_Get ?q = Some (Some ?k, q1)" and f: "wq_failures ?q ?k = n"
    by (simp add: events_queue ripen_def q_Add_def NewQueue_def q_Get_def)
  show ?thesis
  proof (cases "5 \<le> n")
    case True
    then show ?thesis using item_fatal [of ?q ?k q1 handle, OF q1 assms(2)] f by auto
  next
    case False
    then show ?thesis
      using item_retried [of ?q ?k q1 handle, OF q1 assms(2)] f q_Get_sets(6) [OF q1]
      by (auto simp: NumRequeues_def q_Done_sets AddRateLimited_simp)
  qed
qed

theorem events_use_up_retries_witness:
  "\<exists>q'. processNextItem (\<lambda>key. throw (ExtErr ''timeout'')) ((), ripen ''node-1'' ((enqueueNode (Watched demo_node) ^^ 5) NewQueue)) =
     Some (Exit ''Repeated errors processing node'', ((), q'))"
  using events_use_up_retries [of 5 "\<lambda>key. throw (ExtErr ''timeout'')" demo_node "()"] by (simp add: demo_node_def)

text \<open>A resync is no event for the daemon's controller.\<close>

lemma resync_is_no_event:
  "ResourceVersion new = ResourceVersion old \<Longrightarrow> if_event (Updated old new) q = q"
  by simp

section \<open>Shutting down\<close>

lemma shut_item:
  assumes "queue_ok q" "wq_processing q = {}" "wq_shuttingDown q" "\<forall>k \<in> set (wq_queue q). wq_failures q k < 5"
    and "wq_queue q = k # ks" "handle k w = Some (r, w')" "r = Ok () \<or> (\<exists>e. r = Fail e)"
  shows "\<exists>q'. processNextItem handle (w, q) = Some (Ok True, (w', q')) \<and> queue_ok q' \<and> wq_processing q' = {} \<and>
    wq_shuttingDown q' \<and> wq_queue q' = ks \<and> (\<forall>j \<in> set ks. wq_failures q' j < 5)"
proof -
  let ?q1 = "q\<lparr>wq_queue := ks, wq_processing := {k}, wq_dirty := wq_dirty q - {k}\<rparr>"
  have get: "q_Get q = Some (Some k, ?q1)" using assms(2,5) by (simp add: q_Get_def)
  have k: "k \<notin> set ks" "set ks = wq_dirty q - {k}" "distinct ks"
    using assms(1,2,5) by (auto simp: queue_ok_def)
  have "wq_failures q k < 5" using assms(4,5) by simp
  from assms(7) show ?thesis
  proof (elim disjE exE)
    assume "r = Ok ()"
    then have "processNextItem handle (w, q) = Some (Ok True, (w', q_Done k (Forget k ?q1)))"
      using item_ok [OF get] assms(6) by simp
    then show ?thesis
      using assms k by (simp add: q_Done_def Forget_def queue_ok_def)
  next
    fix e assume "r = Fail e"
    then have "processNextItem handle (w, q) = Some (Ok True, (w', q_Done k (AddRateLimited k ?q1)))"
      using item_retried [OF get _ \<open>wq_failures q k < 5\<close>] assms(6) by simp
    then show ?thesis
      using assms k by (simp add: q_Done_def AddRateLimited_simp queue_ok_def)
  qed
qed

text \<open>The world after one run of the handler for every key, in their order.\<close>

fun handled :: "(string \<Rightarrow> ('w, unit) io) \<Rightarrow> string list \<Rightarrow> 'w \<Rightarrow> 'w option" where
  "handled handle [] w = Some w"
| "handled handle (k # ks) w = (case handle k w of None \<Rightarrow> None | Some (r, w') \<Rightarrow> handled handle ks w')"

text \<open>
  C26. A worker drains its queue after shutdown, and stops: when it is the only one, every queued
  key has had fewer than five failures or events, and its handler returns, with or without an error,
  the worker runs the handler once for every queued key, in their order and for nothing else, and
  then its loop returns with an empty queue. (A key with five failures ends the process when its
  run fails.)
\<close>

theorem worker_drains_and_stops:
  assumes "queue_ok q" "wq_processing q = {}" "wq_shuttingDown q" "\<forall>k \<in> set (wq_queue q). wq_failures q k < 5"
    and "\<And>k w. \<exists>r w'. handle k w = Some (r, w') \<and> (r = Ok () \<or> (\<exists>e. r = Fail e))"
  shows "\<exists>w' q'. runWorker handle (w, q) = Some (Ok (), (w', q')) \<and> handled handle (wq_queue q) w = Some w' \<and>
    wq_queue q' = [] \<and> wq_processing q' = {}"
  using assms(1-4)
proof (induction "wq_queue q" arbitrary: w q)
  case Nil
  then have "q_Get q = Some (None, q)" by (simp add: q_Get_def)
  then have "processNextItem handle (w, q) = Some (Ok False, (w, q))"
    by (simp add: processNextItem_def getItem_def)
  then show ?case using Nil(1,3) by (subst runWorker.simps) (simp add: Nil(1) [symmetric])
next
  case (Cons k ks)
  obtain r w1 where r: "handle k w = Some (r, w1)" "r = Ok () \<or> (\<exists>e. r = Fail e)" using assms(5) by blast
  obtain q1 where q1: "processNextItem handle (w, q) = Some (Ok True, (w1, q1))" "queue_ok q1" "wq_processing q1 = {}"
    "wq_shuttingDown q1" "wq_queue q1 = ks" "\<forall>j \<in> set ks. wq_failures q1 j < 5"
    using shut_item [where handle = handle, OF Cons.prems Cons.hyps(2) [symmetric] r] by blast
  have "\<exists>w' q'. runWorker handle (w1, q1) = Some (Ok (), (w', q')) \<and> handled handle ks w1 = Some w' \<and>
      wq_queue q' = [] \<and> wq_processing q' = {}"
    using Cons.hyps(1) [of q1 w1] q1 by simp
  then show ?case
    by (subst runWorker.simps) (simp add: q1(1) Cons.hyps(2) [symmetric] r(1))
qed

text \<open>A handler that notes the keys it is called with, and fails.\<close>

theorem worker_drains_and_stops_witness:
  "\<exists>q'. runWorker (\<lambda>key ks. Some (Fail (ExtErr ''timeout''), ks @ [key])) ([], q_ShutDown (q_Add ''b'' (q_Add ''a'' NewQueue))) =
     Some (Ok (), ([''a'', ''b''], q')) \<and> wq_queue q' = []"
proof -
  let ?q = "q_ShutDown (q_Add ''b'' (q_Add ''a'' NewQueue))" and ?h = "\<lambda>key ks. Some (Fail (ExtErr ''timeout''), ks @ [key])"
  have q: "queue_ok ?q" "wq_processing ?q = {}" "wq_shuttingDown ?q" "\<forall>k \<in> set (wq_queue ?q). wq_failures ?q k < 5"
    and keys: "wq_queue ?q = [''a'', ''b'']"
    by (auto simp: q_ShutDown_def q_Add_def NewQueue_def queue_ok_def)
  have "handled ?h (wq_queue ?q) [] = Some [''a'', ''b'']" by (simp add: keys)
  moreover obtain w' q' where "runWorker ?h ([], ?q) = Some (Ok (), (w', q'))" "handled ?h (wq_queue ?q) [] = Some w'" "wq_queue q' = []"
    using worker_drains_and_stops [OF q, of ?h "[]"] by auto
  ultimately show ?thesis by auto
qed

section \<open>Two workers\<close>

definition two_workers :: crew where
  "two_workers = \<lparr>cr_queue = NewQueue\<lparr>wq_processing := {''node-1''}, wq_dirty := {''node-1''}, wq_failures := (\<lambda>k. if k = ''node-1'' then 2 else 0)\<rparr>,
     cr_busy = [0 \<mapsto> ''node-1''], cr_owed = {''node-1''}, cr_exited = False\<rparr>"

text \<open>An event, its key taken by a worker, and a second event while the worker is at it.\<close>

lemma two_workers_reach: "crew_reach two_workers"
proof -
  let ?n = "''node-1''"
  let ?q = "\<lambda>qu d p wait n. \<lparr>wq_queue = qu, wq_dirty = d, wq_processing = p, wq_shuttingDown = False,
    wq_waiting = wait, wq_failures = (\<lambda>k. if k = ?n then n else 0)\<rparr>"
  let ?c = "\<lambda>q busy owed. \<lparr>cr_queue = q, cr_busy = busy, cr_owed = owed, cr_exited = False\<rparr>"
  have key: "MetaNamespaceKeyFunc (Watched demo_node) = Some ?n" "enqueueNode (Watched demo_node) = AddRateLimited ?n"
    by (auto simp: demo_node_def enqueueNode_def)
  have qs: "AddRateLimited ?n NewQueue = ?q [] {} {} [?n] 1" "ripen ?n (?q [] {} {} [?n] 1) = ?q [?n] {?n} {} [] 1"
    "q_Get (?q [?n] {?n} {} [] 1) = Some (Some ?n, ?q [] {} {?n} [] 1)"
    "AddRateLimited ?n (?q [] {} {?n} [] 1) = ?q [] {} {?n} [?n] 2"
    "ripen ?n (?q [] {} {?n} [?n] 2) = ?q [] {?n} {?n} [] 2"
    by (simp_all add: AddRateLimited_simp NewQueue_def ripen_def q_Add_def q_Get_def fun_eq_iff)
  have ripe: "crew_reach c \<Longrightarrow> \<not> cr_exited c \<Longrightarrow> k \<in> set (wq_waiting (cr_queue c)) \<Longrightarrow>
      crew_reach (c\<lparr>cr_queue := ripen k (cr_queue c)\<rparr>)" for c k
    by (rule crew_reach.step [OF _ crew_step.ripened])
  have event: "crew_reach c \<Longrightarrow> \<not> cr_exited c \<Longrightarrow>
      crew_reach (c\<lparr>cr_queue := AddRateLimited ?n (cr_queue c), cr_owed := insert ?n (cr_owed c)\<rparr>)" for c
    using crew_reach.step [OF _ crew_step.event [OF _ key(1)]] by (simp add: key(2))
  have "crew_reach (?c (?q [] {} {} [?n] 1) Map.empty {?n})"
    using event [OF crew_reach.start] by (simp add: idle_crew_def qs(1) del: One_nat_def)
  from ripe [OF this, of ?n] have "crew_reach (?c (?q [?n] {?n} {} [] 1) Map.empty {?n})"
    by (simp add: qs(2) del: One_nat_def)
  then have "crew_reach (?c (?q [] {} {?n} [] 1) [0 \<mapsto> ?n] {})"
    using crew_reach.step [OF _ crew_step.taken [of _ 0, OF _ _ _]] qs(3) by fastforce
  from event [OF this] have "crew_reach (?c (?q [] {} {?n} [?n] 2) [0 \<mapsto> ?n] {?n})"
    by (simp add: qs(4) del: One_nat_def)
  from ripe [OF this, of ?n] have "crew_reach (?c (?q [] {?n} {?n} [] 2) [0 \<mapsto> ?n] {?n})"
    by (simp add: qs(5))
  then show ?thesis by (simp add: two_workers_def NewQueue_def)
qed

theorem one_worker_per_node_witness: "{i. cr_busy two_workers i = Some ''node-1''} = {0}"
proof -
  have busy: "cr_busy two_workers 0 = Some ''node-1''" by (simp add: two_workers_def)
  with one_worker_per_node [OF two_workers_reach _ busy] show ?thesis by auto
qed

theorem no_event_is_lost_witness:
  "\<exists>i. cr_busy two_workers i = Some ''node-1'' \<and> ''node-1'' \<in> set (wq_queue (q_Done ''node-1'' (cr_queue two_workers)))"
proof -
  have "\<not> cr_exited two_workers" "\<not> wq_shuttingDown (cr_queue two_workers)" "''node-1'' \<in> cr_owed two_workers"
    "wq_waiting (cr_queue two_workers) = []" "wq_queue (cr_queue two_workers) = []"
    by (simp_all add: two_workers_def NewQueue_def)
  from no_event_is_lost [OF two_workers_reach this(1-3)] this(4,5) show ?thesis by simp
qed

end
