(* ===== verification/Lifecycle.thy ===== *)
theory Lifecycle
  imports Workers
begin

text \<open>
  How the controllers start and stop: \<open>Run\<close> and \<open>Stop\<close> of both, the goroutine that
  \<open>WaitForCacheSync\<close> polls with and the \<open>wait.Until\<close> loops around the workers, which all
  receive from the one channel that \<open>Stop\<close> sends a single value on. Every goroutine has a
  program counter; a send on an unbuffered channel is one step together with its receiver. Go
  does not say which of several receivers gets a value, so any of them may.
\<close>

section \<open>Goroutines\<close>

definition eni_DefaultThreadiness :: int where "eni_DefaultThreadiness = 2"
definition if_DefaultThreadiness :: int where "if_DefaultThreadiness = 1"

definition eni_threads :: "int \<Rightarrow> int" where
  "eni_threads threadiness = (let thr = threadiness in if thr = 0 then eni_DefaultThreadiness else thr)"

definition if_threads :: "int \<Rightarrow> int" where
  "if_threads threadiness = (let thr = threadiness in if thr = 0 then if_DefaultThreadiness else thr)"

text \<open>
  \<open>Run\<close>: before the channel is made, before and in \<open>WaitForCacheSync\<close>, after a number of
  workers was started, waiting to receive (from the channel, or from nil if the field was nil
  by then), and back with its error.
\<close>

datatype run_pc =
    Run_Idle | Run_Made | Run_Syncing | Run_Starting nat | Run_Waiting bool | Run_Returned "error option"

datatype stop_pc = Stop_Idle | Stop_Sending | Stop_Sent | Stop_Returned

datatype until_pc = U_Top | U_Work | U_Pause | U_Gone

datatype receiver = By_Run | By_Poller | By_Worker nat

text \<open>
  \<open>lf_stopCh\<close> is whether the field is not nil, \<open>lf_poller\<close> the polling goroutine if it is
  alive, with whether it listens to the channel, as for each worker. \<open>lf_shut\<close> is the work
  queue's flag, \<open>lf_taker\<close> records who received the value.
\<close>

record life =
  lf_stopCh :: bool
  lf_run :: run_pc
  lf_stop :: stop_pc
  lf_poller :: "bool option"
  lf_workers :: "(until_pc \<times> bool) list"
  lf_synced :: bool
  lf_shut :: bool
  lf_taker :: "receiver option"

definition new_life :: life where
  "new_life = \<lparr>lf_stopCh = False, lf_run = Run_Idle, lf_stop = Stop_Idle, lf_poller = None, lf_workers = [],
     lf_synced = False, lf_shut = False, lf_taker = None\<rparr>"

definition sync_error :: error where
  "sync_error = Errorf ''Timed out waiting for caches to sync'' []"

section \<open>Steps\<close>

text \<open>
  The number of workers is \<open>thr\<close>. The deferred \<open>ShutDown\<close> is one step with the return. When its
  poller has ended \<open>WaitForCacheSync\<close> asks once more whether the caches have synced; when they
  have it returns, with the poller still alive if nothing stopped it.
\<close>

inductive life_step :: "int \<Rightarrow> life \<Rightarrow> life \<Rightarrow> bool" for thr where
  made: "lf_run l = Run_Idle \<Longrightarrow> life_step thr l (l\<lparr>lf_stopCh := True, lf_run := Run_Made\<rparr>)"
| syncing: "lf_run l = Run_Made \<Longrightarrow> life_step thr l (l\<lparr>lf_run := Run_Syncing, lf_poller := Some (lf_stopCh l)\<rparr>)"
| synced: "lf_run l = Run_Syncing \<Longrightarrow> lf_synced l \<Longrightarrow> life_step thr l (l\<lparr>lf_run := Run_Starting 0\<rparr>)"
| timed_out: "lf_run l = Run_Syncing \<Longrightarrow> \<not> lf_synced l \<Longrightarrow> lf_poller l = None \<Longrightarrow>
    life_step thr l (l\<lparr>lf_run := Run_Returned (Some sync_error), lf_shut := True\<rparr>)"
| started: "lf_run l = Run_Starting n \<Longrightarrow> int n < thr \<Longrightarrow>
    life_step thr l (l\<lparr>lf_run := Run_Starting (Suc n), lf_workers := lf_workers l @ [(U_Top, lf_stopCh l)]\<rparr>)"
| waiting: "lf_run l = Run_Starting n \<Longrightarrow> \<not> int n < thr \<Longrightarrow> life_step thr l (l\<lparr>lf_run := Run_Waiting (lf_stopCh l)\<rparr>)"
| stopping: "lf_stop l = Stop_Idle \<Longrightarrow>
    life_step thr l (l\<lparr>lf_stop := (if lf_stopCh l then Stop_Sending else Stop_Sent)\<rparr>)"
| cleared: "lf_stop l = Stop_Sent \<Longrightarrow> life_step thr l (l\<lparr>lf_stop := Stop_Returned, lf_stopCh := False\<rparr>)"
| run_takes: "lf_stop l = Stop_Sending \<Longrightarrow> lf_run l = Run_Waiting True \<Longrightarrow>
    life_step thr l (l\<lparr>lf_stop := Stop_Sent, lf_taker := Some By_Run, lf_run := Run_Returned None, lf_shut := True\<rparr>)"
| poller_takes: "lf_stop l = Stop_Sending \<Longrightarrow> lf_poller l = Some True \<Longrightarrow>
    life_step thr l (l\<lparr>lf_stop := Stop_Sent, lf_taker := Some By_Poller, lf_poller := None\<rparr>)"
| worker_takes: "lf_stop l = Stop_Sending \<Longrightarrow> i < length (lf_workers l) \<Longrightarrow>
    lf_workers l ! i = (U_Top, True) \<or> lf_workers l ! i = (U_Pause, True) \<Longrightarrow>
    life_step thr l (l\<lparr>lf_stop := Stop_Sent, lf_taker := Some (By_Worker i),
      lf_workers := (lf_workers l)[i := (U_Gone, True)]\<rparr>)"
| works: "i < length (lf_workers l) \<Longrightarrow> lf_workers l ! i = (U_Top, b) \<Longrightarrow> \<not> (b \<and> lf_stop l = Stop_Sending) \<Longrightarrow>
    life_step thr l (l\<lparr>lf_workers := (lf_workers l)[i := (U_Work, b)]\<rparr>)"
| drained: "i < length (lf_workers l) \<Longrightarrow> lf_workers l ! i = (U_Work, b) \<Longrightarrow> lf_shut l \<Longrightarrow>
    life_step thr l (l\<lparr>lf_workers := (lf_workers l)[i := (U_Pause, b)]\<rparr>)"
| again: "i < length (lf_workers l) \<Longrightarrow> lf_workers l ! i = (U_Pause, b) \<Longrightarrow>
    life_step thr l (l\<lparr>lf_workers := (lf_workers l)[i := (U_Top, b)]\<rparr>)"
| caches: "life_step thr l (l\<lparr>lf_synced := True\<rparr>)"

inductive_cases life_stepE: "life_step thr l l'"

definition eni_life_step :: "int \<Rightarrow> life \<Rightarrow> life \<Rightarrow> bool" where
  "eni_life_step threadiness = life_step (eni_threads threadiness)"

definition if_life_step :: "int \<Rightarrow> life \<Rightarrow> life \<Rightarrow> bool" where
  "if_life_step threadiness = life_step (if_threads threadiness)"

abbreviation life_reach :: "int \<Rightarrow> life \<Rightarrow> bool" where
  "life_reach thr \<equiv> rtranclp (life_step thr) new_life"

section \<open>Who can end Run\<close>

text \<open>What holds in every reachable state.\<close>

definition life_ok :: "life \<Rightarrow> bool" where
  "life_ok l \<longleftrightarrow>
     (lf_shut l \<longleftrightarrow> (\<exists>e. lf_run l = Run_Returned e)) \<and>
     (lf_taker l = Some By_Run \<longleftrightarrow> lf_run l = Run_Returned None) \<and>
     (\<forall>e. lf_run l = Run_Returned (Some e) \<longrightarrow> lf_taker l = Some By_Poller \<and> e = sync_error) \<and>
     (lf_poller l = None \<longrightarrow> lf_run l = Run_Idle \<or> lf_run l = Run_Made \<or> lf_taker l = Some By_Poller) \<and>
     (lf_taker l \<noteq> None \<longrightarrow> lf_stop l = Stop_Sent \<or> lf_stop l = Stop_Returned) \<and>
     (lf_run l = Run_Idle \<or> lf_run l = Run_Made \<longrightarrow> lf_taker l = None \<and> lf_poller l = None \<and> lf_workers l = [])"

lemma life_ok_step: "life_ok l \<Longrightarrow> life_step thr l l' \<Longrightarrow> life_ok l'"
  by (erule life_stepE; simp add: life_ok_def; (elim conjE)?; (intro conjI impI allI)?; (simp; fail)?; force?)

lemma life_ok_reach: "life_reach thr l \<Longrightarrow> life_ok l"
proof (induction rule: rtranclp_induct)
  case base
  then show ?case by (simp add: life_ok_def new_life_def)
qed (rule life_ok_step)

text \<open>
  C27. A controller runs until it is stopped: \<open>Run\<close> returns, and the work queue is shut down, only
  when \<open>Stop\<close> has sent its value; without an error exactly if \<open>Run\<close> has received it, and with an
  error only if the cache poller has.
\<close>

theorem controller_runs_until_stopped:
  assumes "life_reach thr l"
  shows "(lf_shut l \<longleftrightarrow> (\<exists>e. lf_run l = Run_Returned e)) \<and>
    (lf_run l = Run_Returned None \<longleftrightarrow> lf_taker l = Some By_Run) \<and>
    (\<forall>e. lf_run l = Run_Returned (Some e) \<longrightarrow> lf_taker l = Some By_Poller) \<and>
    (lf_shut l \<longrightarrow> lf_stop l = Stop_Sent \<or> lf_stop l = Stop_Returned)"
  using life_ok_reach [OF assms] by (auto simp: life_ok_def)

section \<open>A stop that is lost\<close>

text \<open>The value was sent to nobody, or to one who does not end \<open>Run\<close>.\<close>

definition stop_lost :: "life \<Rightarrow> bool" where
  "stop_lost l \<longleftrightarrow> life_ok l \<and> (lf_stop l = Stop_Sent \<or> lf_stop l = Stop_Returned) \<and> \<not> lf_shut l \<and>
     (lf_taker l = None \<or> (\<exists>i. lf_taker l = Some (By_Worker i)) \<or> lf_taker l = Some By_Poller \<and> lf_synced l)"

lemma stop_lost_step: "stop_lost l \<Longrightarrow> life_step thr l l' \<Longrightarrow> stop_lost l'"
  unfolding stop_lost_def
  by (frule (1) life_ok_step [OF conjunct1]) (erule life_stepE; simp add: life_ok_def; (elim conjE)?; (simp; fail)?; force?)

text \<open>Three ways to get there: too early, by the poller that is left over, by a worker that starts.\<close>

lemma stop_too_early:
  "life_reach thr (new_life\<lparr>lf_stop := Stop_Returned\<rparr>)" "stop_lost (new_life\<lparr>lf_stop := Stop_Returned\<rparr>)"
proof -
  have "life_reach thr (new_life\<lparr>lf_stop := Stop_Sent\<rparr>)"
    using life_step.stopping [of new_life thr] by (simp add: new_life_def r_into_rtranclp)
  from rtranclp.rtrancl_into_rtrancl [OF this life_step.cleared]
  show "life_reach thr (new_life\<lparr>lf_stop := Stop_Returned\<rparr>)" by (simp add: new_life_def)
qed (simp add: stop_lost_def life_ok_def new_life_def)

definition starting_life :: life where
  "starting_life = new_life\<lparr>lf_stopCh := True, lf_run := Run_Starting 0, lf_poller := Some True, lf_synced := True\<rparr>"

lemma starting_reach: "life_reach thr starting_life"
proof -
  have "life_reach thr (new_life\<lparr>lf_stopCh := True, lf_run := Run_Made\<rparr>)"
    using life_step.made [of new_life thr] by (simp add: new_life_def r_into_rtranclp)
  from rtranclp.rtrancl_into_rtrancl [OF this life_step.syncing]
  have "life_reach thr (new_life\<lparr>lf_stopCh := True, lf_run := Run_Syncing, lf_poller := Some True\<rparr>)"
    by (simp add: new_life_def)
  from rtranclp.rtrancl_into_rtrancl [OF rtranclp.rtrancl_into_rtrancl [OF this life_step.caches] life_step.synced]
  show ?thesis by (simp add: new_life_def starting_life_def)
qed

lemma stop_to_poller:
  fixes l defines "l \<equiv> starting_life\<lparr>lf_stop := Stop_Returned, lf_stopCh := False, lf_taker := Some By_Poller, lf_poller := None\<rparr>"
  shows "life_reach thr l" "stop_lost l"
proof -
  have "life_reach thr (starting_life\<lparr>lf_stop := Stop_Sending\<rparr>)"
    using rtranclp.rtrancl_into_rtrancl [OF starting_reach life_step.stopping] by (simp add: starting_life_def new_life_def)
  from rtranclp.rtrancl_into_rtrancl [OF rtranclp.rtrancl_into_rtrancl [OF this life_step.poller_takes] life_step.cleared]
  show "life_reach thr l" by (simp add: starting_life_def new_life_def l_def)
qed (simp add: l_def stop_lost_def life_ok_def starting_life_def new_life_def)

lemma stop_to_worker:
  fixes l defines "l \<equiv> starting_life\<lparr>lf_run := Run_Starting (Suc 0), lf_workers := [(U_Gone, True)], lf_stop := Stop_Returned,
    lf_stopCh := False, lf_taker := Some (By_Worker 0)\<rparr>"
  shows "0 < thr \<Longrightarrow> life_reach thr l" "stop_lost l"
proof -
  assume "0 < thr"
  then have "life_reach thr (starting_life\<lparr>lf_run := Run_Starting 1, lf_workers := [(U_Top, True)]\<rparr>)"
    using rtranclp.rtrancl_into_rtrancl [OF starting_reach life_step.started [where l = starting_life and n = 0]] by (simp add: starting_life_def new_life_def)
  from rtranclp.rtrancl_into_rtrancl [OF this life_step.stopping]
  have "life_reach thr (starting_life\<lparr>lf_run := Run_Starting 1, lf_workers := [(U_Top, True)], lf_stop := Stop_Sending\<rparr>)"
    by (simp add: starting_life_def new_life_def)
  from rtranclp.rtrancl_into_rtrancl [OF rtranclp.rtrancl_into_rtrancl [OF this life_step.worker_takes [where i = 0]] life_step.cleared]
  show "life_reach thr l" by (simp add: starting_life_def new_life_def l_def)
qed (simp add: l_def stop_lost_def life_ok_def starting_life_def new_life_def)

lemma lost_stops:
  assumes "0 < thr" "t \<in> {None, Some By_Poller, Some (By_Worker 0)}"
  obtains l where "life_reach thr l" "stop_lost l" "lf_stop l = Stop_Returned" "lf_taker l = t"
proof -
  have "lf_taker (new_life\<lparr>lf_stop := Stop_Returned\<rparr>) = None" by (simp add: new_life_def)
  with assms(2) that [OF stop_too_early] that [OF stop_to_poller] that [OF stop_to_worker(1) [OF assms(1)] stop_to_worker(2)]
  show thesis by auto
qed

text \<open>A stop that works.\<close>

definition stopped_life :: life where
  "stopped_life = starting_life\<lparr>lf_run := Run_Returned None, lf_workers := [(U_Top, True)], lf_stop := Stop_Sent,
     lf_taker := Some By_Run, lf_shut := True\<rparr>"

lemma stopped_reach: "life_reach 1 stopped_life"
proof -
  have "life_reach 1 (starting_life\<lparr>lf_run := Run_Starting 1, lf_workers := [(U_Top, True)]\<rparr>)"
    using rtranclp.rtrancl_into_rtrancl [OF starting_reach life_step.started [where l = starting_life and n = 0 and thr = 1]] by (simp add: starting_life_def new_life_def)
  from rtranclp.rtrancl_into_rtrancl [OF rtranclp.rtrancl_into_rtrancl [OF this life_step.waiting] life_step.stopping]
  have "life_reach 1 (starting_life\<lparr>lf_run := Run_Waiting True, lf_workers := [(U_Top, True)], lf_stop := Stop_Sending\<rparr>)"
    by (simp add: starting_life_def new_life_def)
  from rtranclp.rtrancl_into_rtrancl [OF this life_step.run_takes] show ?thesis
    by (simp add: starting_life_def new_life_def stopped_life_def)
qed

theorem controller_runs_until_stopped_witness:
  "\<exists>l. life_reach 1 l \<and> lf_run l = Run_Returned None \<and> lf_taker l = Some By_Run \<and> lf_shut l"
  using controller_runs_until_stopped [OF stopped_reach] stopped_reach
  by (intro exI [of _ stopped_life]) (simp add: stopped_life_def)

end
