(* ===== verification/Reconciler_Run.thy ===== *)
theory Reconciler_Run
  imports Reconciler Lifecycle
begin

text \<open>
  The reconciler's loop: \<open>Run\<close> waits for the caches like the controllers, then checks the pool
  at every tick until it receives the value that \<open>Stop\<close> sends. The check itself is the model's
  \<open>ipCheck\<close>; everything else in the process may change the world between two ticks.
\<close>

section \<open>Steps\<close>

definition DefaultIPPoolCheckInterval :: int where
  "DefaultIPPoolCheckInterval = 5 * 10 ^ 9"

definition check_interval :: "int \<Rightarrow> int" where
  "check_interval interval = (let ipdur = interval in if ipdur = 0 then DefaultIPPoolCheckInterval else ipdur)"

datatype rec_pc = Rec_Idle | Rec_Made | Rec_Syncing | Rec_Looping | Rec_Returned "error option" | Rec_Died

text \<open>\<open>rl_checks\<close> records the results of the checks, the last one first.\<close>

record 'w rec_life =
  rl_stopC :: bool
  rl_run :: rec_pc
  rl_stop :: stop_pc
  rl_poller :: "bool option"
  rl_synced :: bool
  rl_taker :: "receiver option"
  rl_world :: 'w
  rl_checks :: "unit outcome list"

definition new_rec_life :: "'w \<Rightarrow> 'w rec_life" where
  "new_rec_life w = \<lparr>rl_stopC = False, rl_run = Rec_Idle, rl_stop = Stop_Idle, rl_poller = None, rl_synced = False,
     rl_taker = None, rl_world = w, rl_checks = []\<rparr>"

text \<open>
  \<open>time.NewTicker\<close> panics for an interval that is not positive. A check that returns an error is
  logged; one that panics or ends the process is the end.
\<close>

inductive rec_step :: "'w reconciler \<Rightarrow> int \<Rightarrow> 'w rec_life \<Rightarrow> 'w rec_life \<Rightarrow> bool" for r interval where
  made: "rl_run l = Rec_Idle \<Longrightarrow> rec_step r interval l (l\<lparr>rl_stopC := True, rl_run := Rec_Made\<rparr>)"
| syncing: "rl_run l = Rec_Made \<Longrightarrow> rec_step r interval l (l\<lparr>rl_run := Rec_Syncing, rl_poller := Some (rl_stopC l)\<rparr>)"
| timed_out: "rl_run l = Rec_Syncing \<Longrightarrow> \<not> rl_synced l \<Longrightarrow> rl_poller l = None \<Longrightarrow>
    rec_step r interval l (l\<lparr>rl_run := Rec_Returned (Some sync_error)\<rparr>)"
| looping: "rl_run l = Rec_Syncing \<Longrightarrow> rl_synced l \<Longrightarrow>
    rec_step r interval l (l\<lparr>rl_run := (if check_interval interval \<le> 0 then Rec_Died else Rec_Looping)\<rparr>)"
| ticked: "rl_run l = Rec_Looping \<Longrightarrow> ipCheck r (rl_world l) = Some (x, w') \<Longrightarrow> x = Ok () \<or> x = Fail e \<Longrightarrow>
    rec_step r interval l (l\<lparr>rl_world := w', rl_checks := x # rl_checks l\<rparr>)"
| died: "rl_run l = Rec_Looping \<Longrightarrow> ipCheck r (rl_world l) = Some (x, w') \<Longrightarrow> x = Panic s \<or> x = Exit s \<Longrightarrow>
    rec_step r interval l (l\<lparr>rl_world := w', rl_checks := x # rl_checks l, rl_run := Rec_Died\<rparr>)"
| run_takes: "rl_run l = Rec_Looping \<Longrightarrow> rl_stopC l \<Longrightarrow> rl_stop l = Stop_Sending \<Longrightarrow>
    rec_step r interval l (l\<lparr>rl_run := Rec_Returned None, rl_stopC := False, rl_stop := Stop_Returned, rl_taker := Some By_Run\<rparr>)"
| stopping: "rl_stop l = Stop_Idle \<Longrightarrow>
    rec_step r interval l (l\<lparr>rl_stop := (if rl_stopC l then Stop_Sending else Stop_Returned)\<rparr>)"
| poller_takes: "rl_stop l = Stop_Sending \<Longrightarrow> rl_poller l = Some True \<Longrightarrow>
    rec_step r interval l (l\<lparr>rl_stop := Stop_Returned, rl_taker := Some By_Poller, rl_poller := None\<rparr>)"
| caches: "rec_step r interval l (l\<lparr>rl_synced := True\<rparr>)"
| others: "rec_step r interval l (l\<lparr>rl_world := w'\<rparr>)"

inductive_cases rec_stepE: "rec_step r interval l l'"

abbreviation rec_reach :: "'w reconciler \<Rightarrow> int \<Rightarrow> 'w \<Rightarrow> 'w rec_life \<Rightarrow> bool" where
  "rec_reach r interval w \<equiv> rtranclp (rec_step r interval) (new_rec_life w)"

section \<open>The loop goes on\<close>

definition rec_ok :: "int \<Rightarrow> 'w rec_life \<Rightarrow> bool" where
  "rec_ok interval l \<longleftrightarrow>
     (rl_taker l = Some By_Run \<longleftrightarrow> rl_run l = Rec_Returned None) \<and>
     (\<forall>e. rl_run l = Rec_Returned (Some e) \<longrightarrow> rl_taker l = Some By_Poller \<and> rl_checks l = []) \<and>
     (rl_poller l = None \<longrightarrow> rl_run l = Rec_Idle \<or> rl_run l = Rec_Made \<or> rl_taker l = Some By_Poller) \<and>
     (rl_taker l \<noteq> None \<longrightarrow> rl_stop l = Stop_Returned) \<and>
     (rl_run l = Rec_Idle \<or> rl_run l = Rec_Made \<or> rl_run l = Rec_Syncing \<longrightarrow> rl_checks l = []) \<and>
     (rl_run l = Rec_Idle \<or> rl_run l = Rec_Made \<longrightarrow> rl_taker l = None \<and> rl_poller l = None) \<and>
     (rl_run l = Rec_Looping \<longrightarrow> rl_stopC l \<and> 0 < check_interval interval) \<and>
     (rl_run l = Rec_Made \<or> rl_run l = Rec_Syncing \<longrightarrow> rl_stopC l) \<and>
     (rl_run l = Rec_Died \<longrightarrow> check_interval interval \<le> 0 \<or> (\<exists>s xs. rl_checks l = Panic s # xs \<or> rl_checks l = Exit s # xs)) \<and>
     (rl_run l \<noteq> Rec_Died \<longrightarrow> (\<forall>x \<in> set (rl_checks l). x = Ok () \<or> (\<exists>e. x = Fail e)))"

lemma rec_ok_step: "rec_ok interval l \<Longrightarrow> rec_step r interval l l' \<Longrightarrow> rec_ok interval l'"
  by (erule rec_stepE; simp add: rec_ok_def; (elim conjE)?; (intro conjI impI allI)?; (simp; fail)?; force?)

lemma rec_ok_reach: "rec_reach r interval w l \<Longrightarrow> rec_ok interval l"
proof (induction rule: rtranclp_induct)
  case base
  then show ?case by (simp add: rec_ok_def new_rec_life_def)
qed (rule rec_ok_step)

text \<open>
  C29. The reconciler checks the pool until it is stopped: whatever the checks return, \<open>Run\<close> returns
  without an error only when it has itself received the value that \<open>Stop\<close> sends, with an error
  only when the cache poller has and no check was made; only a check that panics ends it otherwise.
\<close>

theorem reconciler_checks_until_stopped:
  assumes "rec_reach r interval w l" "0 < check_interval interval"
  shows "(rl_run l = Rec_Returned None \<longleftrightarrow> rl_taker l = Some By_Run) \<and>
    (\<forall>e. rl_run l = Rec_Returned (Some e) \<longrightarrow> rl_taker l = Some By_Poller \<and> rl_checks l = []) \<and>
    (rl_run l = Rec_Died \<longrightarrow> (\<exists>s xs. rl_checks l = Panic s # xs \<or> rl_checks l = Exit s # xs)) \<and>
    (rl_run l \<noteq> Rec_Died \<longrightarrow> (\<forall>x \<in> set (rl_checks l). x = Ok () \<or> (\<exists>e. x = Fail e)))"
  using rec_ok_reach [OF assms(1)] assms(2) by (simp add: rec_ok_def)

text \<open>A check that fails, as the cache does not have the node, and then a stop.\<close>

definition lost_node_reconciler :: "(nat \<times> node list) reconciler" where
  "lost_node_reconciler = (demo_reconciler 0)\<lparr>rec_lister := \<lambda>name. throw (ApiErr NotFound name)\<rparr>"

theorem reconciler_checks_until_stopped_witness:
  "\<exists>l e. rec_reach lost_node_reconciler 0 (0, []) l \<and> rl_checks l = [Fail e] \<and> rl_run l = Rec_Returned None \<and>
     rl_taker l = Some By_Run \<and> 0 < check_interval 0"
proof -
  let ?r = lost_node_reconciler and ?reach = "rec_reach lost_node_reconciler 0 (0, [])"
  note step = rtranclp.rtrancl_into_rtrancl [of "rec_step lost_node_reconciler 0" "new_rec_life (0, [])"]
  let ?l = "\<lambda>run stop synced checks taker stopC. \<lparr>rl_stopC = stopC, rl_run = run, rl_stop = stop, rl_poller = Some True,
    rl_synced = synced, rl_taker = taker, rl_world = (0, []), rl_checks = checks\<rparr> :: (nat \<times> node list) rec_life"
  obtain e where e: "ipCheck ?r (0, []) = Some (Fail e, (0, []))"
    by (auto simp: lost_node_reconciler_def demo_reconciler_def demo_cluster_def demo_config_def ipCheck_def PoolFull_def
      wrapping_def attempt_def andthen_def)
  have interval: "check_interval 0 = 5000000000" by (simp add: check_interval_def DefaultIPPoolCheckInterval_def)
  have "?reach (?l Rec_Syncing Stop_Idle False [] None True)"
    using step [OF step [OF rtranclp.rtrancl_refl rec_step.made] rec_step.syncing] by (simp add: new_rec_life_def)
  from step [OF step [OF this rec_step.caches] rec_step.looping]
  have "?reach (?l Rec_Looping Stop_Idle True [] None True)" by (simp add: interval)
  from step [OF step [OF this rec_step.ticked [OF _ _ disjI2]] rec_step.stopping] e
  have "?reach (?l Rec_Looping Stop_Sending True [Fail e] None True)" by simp
  from step [OF this rec_step.run_takes]
  have *: "?reach (?l (Rec_Returned None) Stop_Returned True [Fail e] (Some By_Run) False)" by simp
  have "0 < check_interval 0" by (simp add: interval)
  with reconciler_checks_until_stopped [OF *] * show ?thesis
    by (intro exI conjI) (assumption | simp)+
qed

end
