(* ===== verification/Run_Group.thy ===== *)
theory Run_Group
  imports Reconciler_Run
begin

text \<open>
  The two processes as a whole: their main functions put actors, an execute function and an
  interrupt function each, into a run group (the vendored oklog/run). \<open>Group.Run\<close> starts all of
  them, waits for the first to return, calls all interrupt functions in turn and waits for
  the others. The controllers and the reconciler are the machines of \<open>Lifecycle\<close> and
  \<open>Reconciler_Run\<close>, whose \<open>Stop\<close> is only called by the group.
\<close>

section \<open>Actors\<close>

text \<open>
  The signal handler has whether it has returned and whether its channel is closed. The
  informers' \<open>execute\<close> starts them and waits; their \<open>interrupt\<close> sends on two channels, the first
  of which the running informers receive from. The gRPC server serves until it is stopped
  or fails, and stops in finite time. The flag of the others is whether \<open>Stop\<close> was called.
\<close>

datatype inf_pc = Inf_Idle | Inf_Waiting | Inf_Returned
datatype inf_stop = Inf_Uncalled | Inf_Sending | Inf_Sending_Group | Inf_Stopped

datatype 'w actor =
    Signal_Handler bool bool
  | Informers inf_pc inf_stop
  | IPAM_Server bool bool bool
  | Node_Controller int bool life
  | Pool_Reconciler "'w reconciler" int bool "'w rec_life"

fun returned :: "'w actor \<Rightarrow> bool" where
  "returned (Signal_Handler r closed) \<longleftrightarrow> r"
| "returned (Informers pc stop) \<longleftrightarrow> pc = Inf_Returned"
| "returned (IPAM_Server r called stopped) \<longleftrightarrow> r"
| "returned (Node_Controller thr called l) \<longleftrightarrow> (\<exists>e. lf_run l = Run_Returned e)"
| "returned (Pool_Reconciler r interval called l) \<longleftrightarrow> (\<exists>e. rl_run l = Rec_Returned e)"

text \<open>The call of the interrupt function, and whether it has returned.\<close>

fun interrupt :: "'w actor \<Rightarrow> 'w actor" where
  "interrupt (Signal_Handler r closed) = Signal_Handler r True"
| "interrupt (Informers pc stop) = Informers pc Inf_Sending"
| "interrupt (IPAM_Server r called stopped) = IPAM_Server r True stopped"
| "interrupt (Node_Controller thr called l) = Node_Controller thr True l"
| "interrupt (Pool_Reconciler r interval called l) = Pool_Reconciler r interval True l"

fun interrupted :: "'w actor \<Rightarrow> bool" where
  "interrupted (Signal_Handler r closed) \<longleftrightarrow> closed"
| "interrupted (Informers pc stop) \<longleftrightarrow> stop = Inf_Stopped"
| "interrupted (IPAM_Server r called stopped) \<longleftrightarrow> stopped"
| "interrupted (Node_Controller thr called l) \<longleftrightarrow> lf_stop l = Stop_Returned"
| "interrupted (Pool_Reconciler r interval called l) \<longleftrightarrow> rl_stop l = Stop_Returned"

inductive actor_step :: "'w actor \<Rightarrow> 'w actor \<Rightarrow> bool" where
  signalled: "\<not> closed \<Longrightarrow> actor_step (Signal_Handler False closed) (Signal_Handler True closed)"
| channel_closed: "actor_step (Signal_Handler False True) (Signal_Handler True True)"
| informers_start: "actor_step (Informers Inf_Idle stop) (Informers Inf_Waiting stop)"
| informers_take: "pc \<noteq> Inf_Idle \<Longrightarrow> actor_step (Informers pc Inf_Sending) (Informers pc Inf_Sending_Group)"
| informers_end: "actor_step (Informers Inf_Waiting Inf_Sending_Group) (Informers Inf_Returned Inf_Stopped)"
| server_fails: "actor_step (IPAM_Server False called stopped) (IPAM_Server True called stopped)"
| server_stops: "actor_step (IPAM_Server r True stopped) (IPAM_Server True True True)"
| controller: "life_step thr l l' \<Longrightarrow> lf_stop l = Stop_Idle \<longrightarrow> lf_stop l' = Stop_Idle \<or> called \<Longrightarrow>
    actor_step (Node_Controller thr called l) (Node_Controller thr called l')"
| reconciler: "rec_step r interval l l' \<Longrightarrow> rl_stop l = Stop_Idle \<longrightarrow> rl_stop l' = Stop_Idle \<or> called \<Longrightarrow>
    actor_step (Pool_Reconciler r interval called l) (Pool_Reconciler r interval called l')"

inductive_cases actor_stepE: "actor_step a a'"

section \<open>The group\<close>

text \<open>
  \<open>G_Died\<close>: the process has ended without the group, by a signal for a closed channel, which
  panics, a pool check that panics, or a worker whose handler panics or whose key is out of
  retries, which \<open>handleErr\<close> answers with \<open>glog.Fatalf\<close> (\<open>Workers\<close>).
\<close>

datatype group_pc = G_Waiting | G_Interrupting nat | G_Collecting | G_Exited | G_Died

record 'w group =
  gr_actors :: "'w actor list"
  gr_pc :: group_pc

inductive group_step :: "'w group \<Rightarrow> 'w group \<Rightarrow> bool" where
  acts: "gr_pc g \<noteq> G_Exited \<Longrightarrow> gr_pc g \<noteq> G_Died \<Longrightarrow> i < length (gr_actors g) \<Longrightarrow> actor_step (gr_actors g ! i) a \<Longrightarrow>
    group_step g (g\<lparr>gr_actors := (gr_actors g)[i := a]\<rparr>)"
| first: "gr_pc g = G_Waiting \<Longrightarrow> a \<in> set (gr_actors g) \<Longrightarrow> returned a \<Longrightarrow>
    group_step g (g\<lparr>gr_pc := G_Interrupting 0, gr_actors := (gr_actors g)[0 := interrupt (gr_actors g ! 0)]\<rparr>)"
| another: "gr_pc g = G_Interrupting i \<Longrightarrow> interrupted (gr_actors g ! i) \<Longrightarrow> Suc i < length (gr_actors g) \<Longrightarrow>
    group_step g (g\<lparr>gr_pc := G_Interrupting (Suc i),
      gr_actors := (gr_actors g)[Suc i := interrupt (gr_actors g ! Suc i)]\<rparr>)"
| last_one: "gr_pc g = G_Interrupting i \<Longrightarrow> interrupted (gr_actors g ! i) \<Longrightarrow> Suc i = length (gr_actors g) \<Longrightarrow>
    group_step g (g\<lparr>gr_pc := G_Collecting\<rparr>)"
| collected: "gr_pc g = G_Collecting \<Longrightarrow> \<forall>a \<in> set (gr_actors g). returned a \<Longrightarrow> group_step g (g\<lparr>gr_pc := G_Exited\<rparr>)"
| signal_panics: "gr_pc g \<noteq> G_Exited \<Longrightarrow> Signal_Handler r True \<in> set (gr_actors g) \<Longrightarrow> group_step g (g\<lparr>gr_pc := G_Died\<rparr>)"
| check_panics: "gr_pc g \<noteq> G_Exited \<Longrightarrow> Pool_Reconciler r interval called l \<in> set (gr_actors g) \<Longrightarrow> rl_run l = Rec_Died \<Longrightarrow>
    group_step g (g\<lparr>gr_pc := G_Died\<rparr>)"
| worker_ends: "gr_pc g \<noteq> G_Exited \<Longrightarrow> Node_Controller thr called l \<in> set (gr_actors g) \<Longrightarrow>
    (U_Work, b) \<in> set (lf_workers l) \<Longrightarrow> group_step g (g\<lparr>gr_pc := G_Died\<rparr>)"

inductive_cases group_stepE: "group_step g g'"

text \<open>The groups that the two main functions build.\<close>

definition controller_group :: "int \<Rightarrow> 'w group" where
  "controller_group threadiness =
     \<lparr>gr_actors = [Signal_Handler False False, Informers Inf_Idle Inf_Uncalled,
        Node_Controller (eni_threads threadiness) False new_life], gr_pc = G_Waiting\<rparr>"

definition daemon_group :: "int \<Rightarrow> 'w reconciler \<Rightarrow> int \<Rightarrow> 'w \<Rightarrow> 'w group" where
  "daemon_group threadiness r interval w =
     \<lparr>gr_actors = [Signal_Handler False False, IPAM_Server False False False,
        Node_Controller (if_threads threadiness) False new_life, Pool_Reconciler r interval False (new_rec_life w),
        Informers Inf_Idle Inf_Uncalled], gr_pc = G_Waiting\<rparr>"

section \<open>When a process exits\<close>

lemma returned_step: "actor_step a a' \<Longrightarrow> returned a \<Longrightarrow> returned a'"
  by (erule actor_stepE) (auto elim: life_stepE rec_stepE)

lemma group_length: "group_step g g' \<Longrightarrow> length (gr_actors g') = length (gr_actors g)"
  by (erule group_stepE) simp_all

text \<open>What an actor's steps and its interruption keep, the group's steps keep.\<close>

lemma group_keeps:
  assumes "group_step g g'" "i < length (gr_actors g)" "P (gr_actors g ! i)"
    and "\<And>a a'. P a \<Longrightarrow> actor_step a a' \<Longrightarrow> P a'" "\<And>a. P a \<Longrightarrow> P (interrupt a)"
  shows "P (gr_actors g' ! i)"
  using assms(1)
proof (cases rule: group_step.cases)
  case (acts j a)
  then show ?thesis using assms(2-4) by (cases "i = j") auto
next
  case first
  then show ?thesis using assms(2,3,5) by (cases i) auto
next
  case (another j)
  then show ?thesis using assms(2,3,5) by (cases "i = Suc j") auto
qed (use assms(2,3) in auto)

lemma group_keeps_reach:
  assumes "rtranclp group_step g g'" "i < length (gr_actors g)" "P (gr_actors g ! i)"
    and "\<And>a a'. P a \<Longrightarrow> actor_step a a' \<Longrightarrow> P a'" "\<And>a. P a \<Longrightarrow> P (interrupt a)"
  shows "P (gr_actors g' ! i) \<and> length (gr_actors g') = length (gr_actors g)"
  using assms(1)
proof (induction rule: rtranclp_induct)
  case base
  then show ?case using assms(3) by simp
next
  case (step g1 g2)
  then have "P (gr_actors g2 ! i)" using group_keeps [of g1 g2 i P] assms(2,4,5) by simp
  then show ?case using step.IH group_length [OF step(2)] by simp
qed

text \<open>The controller in a group is the controller on its own.\<close>

lemma group_life:
  assumes "rtranclp group_step g g'" "i < length (gr_actors g)" "gr_actors g ! i = Node_Controller thr False new_life"
  shows "\<exists>c l. gr_actors g' ! i = Node_Controller thr c l \<and> life_reach thr l"
proof -
  let ?P = "\<lambda>a. \<exists>c l. a = Node_Controller thr c l \<and> life_reach thr l"
  have "?P a'" if "?P a" "actor_step a a'" for a a' :: "'a actor"
    using that by (elim exE conjE) (auto elim!: actor_stepE intro: rtranclp.rtrancl_into_rtrancl)
  moreover have "?P (interrupt a)" if "?P a" for a :: "'a actor" using that by auto
  ultimately show ?thesis using group_keeps_reach [of g g' i ?P] assms by auto
qed

lemma group_exited:
  assumes "rtranclp group_step g g'" "gr_pc g' = G_Exited" "gr_pc g \<noteq> G_Exited"
  shows "\<forall>a \<in> set (gr_actors g'). returned a"
  using assms
proof (induction rule: rtranclp_induct)
  case (step g1 g2)
  from step(2,3,4) show ?case
    by (cases rule: group_step.cases) (use step in auto)
qed simp

text \<open>
  C28. Unless it dies of a panic or of \<open>glog.Fatalf\<close>, the ENI controller's process exits only when
  its controller was really stopped: its \<open>Run\<close> has returned because it or its cache poller
  received the stop, and its queue is shut down.
\<close>

theorem process_exits_when_stopped:
  fixes g :: "'w group"
  assumes "rtranclp group_step (controller_group threadiness) g" "gr_pc g = G_Exited"
  shows "\<exists>c l. gr_actors g ! 2 = Node_Controller (eni_threads threadiness) c l \<and> lf_shut l \<and>
    (lf_taker l = Some By_Run \<or> lf_taker l = Some By_Poller) \<and> (lf_stop l = Stop_Sent \<or> lf_stop l = Stop_Returned)"
proof -
  have len: "length (gr_actors (controller_group threadiness :: 'w group)) = 3" by (simp add: controller_group_def)
  have "length (gr_actors g) = 3"
    using group_keeps_reach [OF assms(1), of 2 "\<lambda>_. True"] len by simp
  then have "returned (gr_actors g ! 2)"
    using group_exited [OF assms] by (simp add: controller_group_def)
  moreover obtain c l where l: "gr_actors g ! 2 = Node_Controller (eni_threads threadiness) c l" "life_reach (eni_threads threadiness) l"
    using group_life [OF assms(1), of 2] by (auto simp: controller_group_def)
  ultimately obtain e where "lf_run l = Run_Returned e" by auto
  with life_ok_reach [OF l(2)] l(1) show ?thesis by (cases e) (auto simp: life_ok_def)
qed

section \<open>When it does not\<close>

lemma lost_stop_hangs:
  assumes "i < length (gr_actors g)" "gr_actors g ! i = Node_Controller thr c l" "stop_lost l" "gr_pc g \<noteq> G_Exited"
  shows "{g'. rtranclp group_step g g' \<and> gr_pc g' = G_Exited} = {}"
proof -
  let ?P = "\<lambda>a. \<exists>c l. a = Node_Controller thr c l \<and> stop_lost l"
  have P: "?P a'" if "?P a" "actor_step a a'" for a a' :: "'a actor"
    using that by (elim exE conjE) (auto elim!: actor_stepE intro: stop_lost_step)
  have I: "?P (interrupt a)" if "?P a" for a :: "'a actor" using that by auto
  have "gr_pc g' \<noteq> G_Exited" if "rtranclp group_step g g'" for g'
  proof
    assume exited: "gr_pc g' = G_Exited"
    have "?P (gr_actors g' ! i) \<and> length (gr_actors g') = length (gr_actors g)"
      using group_keeps_reach [OF that assms(1), of ?P] P I assms(2,3) by blast
    then obtain c l where "gr_actors g' ! i = Node_Controller thr c l" "stop_lost l" "i < length (gr_actors g')"
      using assms(1) by auto
    with group_exited [OF that exited assms(4)] have "returned (Node_Controller thr c l :: 'a actor)" by (metis nth_mem)
    with \<open>stop_lost l\<close> show False by (auto simp: stop_lost_def life_ok_def)
  qed
  then show ?thesis by blast
qed

definition hung :: "'w group \<Rightarrow> bool" where
  "hung g \<longleftrightarrow> gr_pc g = G_Collecting \<and> {g'. rtranclp group_step g g' \<and> gr_pc g' = G_Exited} = {}"

text \<open>Paths through a group.\<close>

lemma group_at: "rtranclp group_step g0 \<lparr>gr_actors = as, gr_pc = pc\<rparr> \<Longrightarrow> group_step \<lparr>gr_actors = as, gr_pc = pc\<rparr> g \<Longrightarrow>
    rtranclp group_step g0 g"
  by (rule rtranclp.rtrancl_into_rtrancl)

lemma group_acts:
  assumes "rtranclp group_step g0 \<lparr>gr_actors = as, gr_pc = pc\<rparr>" "pc \<noteq> G_Exited" "pc \<noteq> G_Died" "i < length as"
    and "rtranclp actor_step (as ! i) a"
  shows "rtranclp group_step g0 \<lparr>gr_actors = as[i := a], gr_pc = pc\<rparr>"
  using assms(5)
proof (induction rule: rtranclp_induct)
  case base
  then show ?case using assms(1) by simp
next
  case (step a b)
  from group_at [OF step.IH group_step.acts [of _ i b]] show ?case using assms(2-4) step(2) by simp
qed

lemma group_next:
  assumes "rtranclp group_step g0 \<lparr>gr_actors = as, gr_pc = G_Interrupting i\<rparr>" "interrupted (as ! i)" "Suc i < length as"
  shows "rtranclp group_step g0 \<lparr>gr_actors = as[Suc i := interrupt (as ! Suc i)], gr_pc = G_Interrupting (Suc i)\<rparr>"
  using group_at [OF assms(1) group_step.another [of _ i]] assms(2,3) by simp

lemma group_collect:
  assumes "rtranclp group_step g0 \<lparr>gr_actors = as, gr_pc = G_Interrupting i\<rparr>" "interrupted (as ! i)" "Suc i = length as"
  shows "rtranclp group_step g0 \<lparr>gr_actors = as, gr_pc = G_Collecting\<rparr>"
  using group_at [OF assms(1) group_step.last_one [of _ i]] assms(2,3) by simp

lemma group_signalled:
  assumes "g0 = \<lparr>gr_actors = Signal_Handler False False # as, gr_pc = G_Waiting\<rparr>"
  shows "rtranclp group_step g0 \<lparr>gr_actors = Signal_Handler True True # as, gr_pc = G_Interrupting 0\<rparr>"
proof -
  have "rtranclp group_step g0 \<lparr>gr_actors = (Signal_Handler False False # as)[0 := Signal_Handler True False], gr_pc = G_Waiting\<rparr>"
    by (rule group_acts) (simp_all add: assms actor_step.signalled r_into_rtranclp)
  from group_at [OF this group_step.first [of _ "Signal_Handler True False"]] show ?thesis by simp
qed

lemma controller_acts:
  assumes "rtranclp (life_step thr) l l'"
  shows "rtranclp actor_step (Node_Controller thr True l) (Node_Controller thr True l')"
  using assms
proof (induction rule: rtranclp_induct)
  case (step l1 l2)
  then show ?case by (auto intro: rtranclp.rtrancl_into_rtrancl actor_step.controller)
qed simp

lemma reconciler_acts:
  assumes "rtranclp (rec_step r interval) l l'"
  shows "rtranclp actor_step (Pool_Reconciler r interval True l) (Pool_Reconciler r interval True l')"
  using assms
proof (induction rule: rtranclp_induct)
  case (step l1 l2)
  then show ?case by (auto intro: rtranclp.rtrancl_into_rtrancl actor_step.reconciler)
qed simp

lemma informers_act: "rtranclp actor_step (Informers Inf_Idle Inf_Sending) (Informers Inf_Returned Inf_Stopped)"
proof -
  have 1: "actor_step (Informers Inf_Idle Inf_Sending) (Informers Inf_Waiting Inf_Sending)" by (rule actor_step.informers_start)
  have 2: "actor_step (Informers Inf_Waiting Inf_Sending) (Informers Inf_Waiting Inf_Sending_Group)"
    by (rule actor_step.informers_take) simp
  show ?thesis
    by (rule converse_rtranclp_into_rtranclp [of actor_step, OF 1], rule converse_rtranclp_into_rtranclp [of actor_step, OF 2],
      rule r_into_rtranclp, rule actor_step.informers_end)
qed

lemma controller_group_collects:
  assumes "life_reach (eni_threads threadiness) l" "lf_stop l = Stop_Returned"
  shows "rtranclp group_step (controller_group threadiness) \<lparr>gr_actors = [Signal_Handler True True, Informers Inf_Returned Inf_Stopped,
    Node_Controller (eni_threads threadiness) True l], gr_pc = G_Collecting\<rparr>"
proof -
  note group_next [OF group_signalled [OF controller_group_def [of threadiness]]]
  then have "rtranclp group_step (controller_group threadiness) \<lparr>gr_actors = [Signal_Handler True True, Informers Inf_Idle Inf_Sending,
      Node_Controller (eni_threads threadiness) False new_life], gr_pc = G_Interrupting 1\<rparr>" by simp
  from group_acts [OF this, of 1 "Informers Inf_Returned Inf_Stopped"]
  have "rtranclp group_step (controller_group threadiness) \<lparr>gr_actors = [Signal_Handler True True, Informers Inf_Returned Inf_Stopped,
      Node_Controller (eni_threads threadiness) False new_life], gr_pc = G_Interrupting 1\<rparr>" by (simp add: informers_act)
  from group_next [OF this]
  have "rtranclp group_step (controller_group threadiness) \<lparr>gr_actors = [Signal_Handler True True, Informers Inf_Returned Inf_Stopped,
      Node_Controller (eni_threads threadiness) True new_life], gr_pc = G_Interrupting 2\<rparr>" by (simp add: numeral_2_eq_2)
  from group_acts [OF this, of 2 "Node_Controller (eni_threads threadiness) True l"] controller_acts [OF assms(1)]
  have "rtranclp group_step (controller_group threadiness) \<lparr>gr_actors = [Signal_Handler True True, Informers Inf_Returned Inf_Stopped,
      Node_Controller (eni_threads threadiness) True l], gr_pc = G_Interrupting 2\<rparr>" by simp
  from group_collect [OF this] show ?thesis using assms(2) by simp
qed

lemma daemon_group_collects:
  assumes "life_reach (if_threads threadiness) l" "lf_stop l = Stop_Returned" "rec_reach r interval w rl" "rl_stop rl = Stop_Returned"
  shows "rtranclp group_step (daemon_group threadiness r interval w) \<lparr>gr_actors = [Signal_Handler True True,
    IPAM_Server True True True, Node_Controller (if_threads threadiness) True l, Pool_Reconciler r interval True rl,
    Informers Inf_Returned Inf_Stopped], gr_pc = G_Collecting\<rparr>"
proof -
  let ?g = "daemon_group threadiness r interval w" and ?thr = "if_threads threadiness"
  let ?as = "\<lambda>server c l c' rl inf. [Signal_Handler True True, server, Node_Controller ?thr c l, Pool_Reconciler r interval c' rl, inf]"
  have "rtranclp group_step ?g \<lparr>gr_actors = ?as (IPAM_Server False True False) False new_life False (new_rec_life w)
      (Informers Inf_Idle Inf_Uncalled), gr_pc = G_Interrupting 1\<rparr>"
    using group_next [OF group_signalled [OF daemon_group_def [of threadiness r interval w]]] by simp
  from group_acts [OF this, of 1 "IPAM_Server True True True"]
  have "rtranclp group_step ?g \<lparr>gr_actors = ?as (IPAM_Server True True True) False new_life False (new_rec_life w)
      (Informers Inf_Idle Inf_Uncalled), gr_pc = G_Interrupting 1\<rparr>"
    by (simp add: r_into_rtranclp actor_step.server_stops)
  from group_acts [OF group_next [OF this], of 2 "Node_Controller ?thr True l"] controller_acts [OF assms(1)]
  have "rtranclp group_step ?g \<lparr>gr_actors = ?as (IPAM_Server True True True) True l False (new_rec_life w)
      (Informers Inf_Idle Inf_Uncalled), gr_pc = G_Interrupting 2\<rparr>" by (simp add: numeral_2_eq_2)
  from group_acts [OF group_next [OF this], of 3 "Pool_Reconciler r interval True rl"] reconciler_acts [OF assms(3)] assms(2)
  have "rtranclp group_step ?g \<lparr>gr_actors = ?as (IPAM_Server True True True) True l True rl
      (Informers Inf_Idle Inf_Uncalled), gr_pc = G_Interrupting 3\<rparr>" by (simp add: numeral_3_eq_3 numeral_2_eq_2)
  from group_acts [OF group_next [OF this], of 4 "Informers Inf_Returned Inf_Stopped"] assms(4)
  have "rtranclp group_step ?g \<lparr>gr_actors = ?as (IPAM_Server True True True) True l True rl
      (Informers Inf_Returned Inf_Stopped), gr_pc = G_Interrupting 4\<rparr>" by (simp add: informers_act)
  from group_collect [OF this] show ?thesis by simp
qed

text \<open>A reconciler that stops as it should, before its first check.\<close>

lemma reconciler_stops:
  obtains rl where "rec_reach r 0 w rl" "rl_stop rl = Stop_Returned" "rl_run rl = Rec_Returned None"
proof -
  note step = rtranclp.rtrancl_into_rtrancl [of "rec_step r 0" "new_rec_life w"]
  let ?l = "\<lambda>run stop synced taker stopC. \<lparr>rl_stopC = stopC, rl_run = run, rl_stop = stop, rl_poller = Some True,
    rl_synced = synced, rl_taker = taker, rl_world = w, rl_checks = []\<rparr>"
  have interval: "check_interval 0 = 5000000000" by (simp add: check_interval_def DefaultIPPoolCheckInterval_def)
  have "rec_reach r 0 w (?l Rec_Syncing Stop_Idle False None True)"
    using step [OF step [OF rtranclp.rtrancl_refl rec_step.made] rec_step.syncing] by (simp add: new_rec_life_def)
  from step [OF step [OF step [OF this rec_step.caches] rec_step.looping] rec_step.stopping]
  have "rec_reach r 0 w (?l Rec_Looping Stop_Sending True None True)" by (simp add: interval)
  from step [OF this rec_step.run_takes]
  have "rec_reach r 0 w (?l (Rec_Returned None) Stop_Returned True (Some By_Run) False)" by simp
  from that [OF this] show thesis by simp
qed

lemma hung_takerI:
  "rtranclp group_step g0 g \<Longrightarrow> hung g \<Longrightarrow> gr_actors g ! 2 = Node_Controller thr c l \<Longrightarrow> lf_taker l = t \<Longrightarrow>
     t \<in> {lf_taker l |g c l. rtranclp group_step g0 g \<and> hung g \<and> gr_actors g ! 2 = Node_Controller thr c l}"
  by blast

text \<open>
  C35. A stop can be lost, and then the shutdown hangs: in either process, with the default settings,
  all interrupt functions can have returned after a signal while \<open>Run\<close> of the controller never
  will, because it had not made its channel when \<open>Stop\<close> was called, because the poller that the
  cache sync leaves behind got the value, or because a worker did.
\<close>

theorem lost_stop_hangs_process:
  "{None, Some By_Poller, Some (By_Worker 0)} \<subseteq>
     {lf_taker l |g c l. rtranclp group_step (controller_group 0 :: 'w group) g \<and> hung g \<and>
        gr_actors g ! 2 = Node_Controller (eni_threads 0) c l} \<inter>
     {lf_taker l |g c l. rtranclp group_step (daemon_group 0 r 0 w) g \<and> hung g \<and>
        gr_actors g ! 2 = Node_Controller (if_threads 0) c l}"
proof (intro subsetI IntI)
  fix t assume t: "t \<in> {None, Some By_Poller, Some (By_Worker 0)}"
  have thr: "0 < eni_threads 0" "0 < if_threads 0"
    by (simp_all add: eni_threads_def if_threads_def eni_DefaultThreadiness_def if_DefaultThreadiness_def)
  obtain l where l: "life_reach (eni_threads 0) l" "stop_lost l" "lf_stop l = Stop_Returned" "lf_taker l = t"
    using lost_stops [OF thr(1) t] .
  let ?g = "\<lparr>gr_actors = [Signal_Handler True True, Informers Inf_Returned Inf_Stopped,
    Node_Controller (eni_threads 0) True l], gr_pc = G_Collecting\<rparr> :: 'w group"
  have "hung ?g" using lost_stop_hangs [of 2 ?g _ _ l] l(2) by (simp add: hung_def)
  then show "t \<in> {lf_taker l |g c l. rtranclp group_step (controller_group 0 :: 'w group) g \<and> hung g \<and>
      gr_actors g ! 2 = Node_Controller (eni_threads 0) c l}"
    by (rule hung_takerI [OF controller_group_collects [OF l(1,3)] _ _ l(4)]) simp
  obtain m where m: "life_reach (if_threads 0) m" "stop_lost m" "lf_stop m = Stop_Returned" "lf_taker m = t"
    using lost_stops [OF thr(2) t] .
  obtain rl where rl: "rec_reach r 0 w rl" "rl_stop rl = Stop_Returned" using reconciler_stops .
  let ?d = "\<lparr>gr_actors = [Signal_Handler True True, IPAM_Server True True True, Node_Controller (if_threads 0) True m,
    Pool_Reconciler r 0 True rl, Informers Inf_Returned Inf_Stopped], gr_pc = G_Collecting\<rparr>"
  have "hung ?d" using lost_stop_hangs [of 2 ?d _ _ m] m(2) by (simp add: hung_def)
  then show "t \<in> {lf_taker l |g c l. rtranclp group_step (daemon_group 0 r 0 w) g \<and> hung g \<and>
      gr_actors g ! 2 = Node_Controller (if_threads 0) c l}"
    by (rule hung_takerI [OF daemon_group_collects [OF m(1,3) rl] _ _ m(4)]) simp
qed

theorem process_exits_when_stopped_witness:
  "\<exists>g l. rtranclp group_step (controller_group 1 :: nat group) g \<and> gr_pc g = G_Exited \<and>
     gr_actors g ! 2 = Node_Controller 1 True l \<and> lf_shut l \<and> lf_taker l = Some By_Run"
proof -
  let ?l = "stopped_life\<lparr>lf_stop := Stop_Returned, lf_stopCh := False\<rparr>"
  let ?g = "\<lparr>gr_actors = [Signal_Handler True True, Informers Inf_Returned Inf_Stopped, Node_Controller 1 True ?l],
    gr_pc = G_Exited\<rparr> :: nat group"
  have thr: "eni_threads 1 = 1" by (simp add: eni_threads_def)
  have "life_reach 1 ?l"
    using rtranclp.rtrancl_into_rtrancl [OF stopped_reach life_step.cleared] by (simp add: stopped_life_def)
  from group_at [OF controller_group_collects [of 1, unfolded thr, OF this] group_step.collected]
  have run: "rtranclp group_step (controller_group 1) ?g" by (simp add: stopped_life_def)
  have "gr_pc ?g = G_Exited" by simp
  from process_exits_when_stopped [OF run this] obtain c l where "gr_actors ?g ! 2 = Node_Controller (eni_threads 1) c l" "lf_shut l"
    by (elim exE conjE) simp_all
  then have shut: "lf_shut ?l" by simp
  show ?thesis
    by (intro exI [of _ ?g] exI [of _ ?l] conjI) (rule run, simp, simp, rule shut, simp add: stopped_life_def)
qed

end
