(* ===== verification/Daemon_Main.thy ===== *)
theory Daemon_Main
  imports Daemon_Node Ipam_Service Instance_Types Eni_Controller
begin

text \<open>
  The entry points: how cmd/vpcnet-daemon puts its parts together, and the start of
  cmd/eni-controller. What they get from outside (instance metadata, the host's interfaces,
  the API client, the socket) is a record of operations. The run group that then runs the parts
  is \<open>Run_Group\<close>; the parsing of flags is not modelled, their values are arguments here.
\<close>

section \<open>Failing starts\<close>

text \<open>\<open>if err != nil { glog.Fatalf(\<dots>) }\<close>, and \<open>session.Must\<close>, which panics instead.\<close>

definition or_fatal :: "string \<Rightarrow> ('w, 'a) io \<Rightarrow> ('w, 'a) io" where
  "or_fatal s m = andthen (attempt m) (\<lambda>r. case r of Inl e \<Rightarrow> fatal s | Inr a \<Rightarrow> ret a)"

definition must :: "('w, 'a) io \<Rightarrow> ('w, 'a) io" where
  "must m = andthen (attempt m) (\<lambda>r. case r of Inl e \<Rightarrow> go_panic ''session.Must'' | Inr a \<Rightarrow> ret a)"

lemma or_fatal_Ok: "or_fatal s m w = Some (Ok a, w') \<longleftrightarrow> m w = Some (Ok a, w')"
  by (auto simp: or_fatal_def andthen_def attempt_def split: option.splits outcome.splits)

lemma must_Ok: "must m w = Some (Ok a, w') \<longleftrightarrow> m w = Some (Ok a, w')"
  by (auto simp: must_def andthen_def attempt_def split: option.splits outcome.splits)

lemma starts_run [simp]:
  "m w = Some (Ok a, w') \<Longrightarrow> or_fatal s m w = Some (Ok a, w')" "m w = Some (Ok a, w') \<Longrightarrow> must m w = Some (Ok a, w')"
  by (simp_all add: or_fatal_Ok must_Ok)

lemma or_fatal_no_Fail: "or_fatal s m w \<noteq> Some (Fail e, w')"
  by (auto simp: or_fatal_def andthen_def attempt_def split: option.splits outcome.splits)

lemma must_no_Fail: "must m w \<noteq> Some (Fail e, w')"
  by (auto simp: must_def andthen_def attempt_def split: option.splits outcome.splits)

section \<open>The daemon\<close>

text \<open>
  An interface of \<open>net.Interfaces\<close> has its name and the text of its hardware address. The modes
  of the socket's directory and of the socket are given.
\<close>

record 'o daemon_env =
  env_files :: "'o file_ops"
  toml_decode :: "string \<Rightarrow> error + config"
  NewSession :: "('o, unit) io"
  GetMetadata :: "string \<Rightarrow> ('o, string) io"
  net_Interfaces :: "('o, (string \<times> string) list) io"
  InClusterConfig :: "('o, unit) io"
  NewForConfig :: "('o, unit) io"
  env_cluster :: "'o cluster"
  env_host :: "'o host"
  env_MkdirAll :: "string \<Rightarrow> nat \<Rightarrow> ('o, unit) io"
  env_Listen :: "string \<Rightarrow> ('o, unit) io"
  env_Chmod :: "string \<Rightarrow> nat \<Rightarrow> ('o, unit) io"

definition primaryInterface :: "'o daemon_env \<Rightarrow> ('o, string) io" where
  "primaryInterface env =
     andthen (wrapping (\<lambda>e. Wrapf e ''Error finding interface MAC'' []) (GetMetadata env ''mac'')) (\<lambda>mac.
     andthen (wrapping (\<lambda>e. Wrapf e ''Error listing machine interfaces'' []) (net_Interfaces env)) (\<lambda>ifs.
     let ifName = fold (\<lambda>(name, addr) ifName. if addr = mac then name else ifName) ifs [] in
     if ifName = [] then throw (Errorf ''Could not find interface name for MAC %q'' [mac]) else ret ifName))"

definition host_primary :: "'o daemon_env \<Rightarrow> config \<Rightarrow> ('o, config) io" where
  "host_primary env cfg =
     andthen (deref (Network cfg)) (\<lambda>net.
     if HostPrimaryInterface net = [] then
       andthen (or_fatal ''Error finding host's primary interface [%+v]'' (primaryInterface env)) (\<lambda>name.
       ret (cfg\<lparr>Network := Some (net\<lparr>HostPrimaryInterface := name\<rparr>)\<rparr>))
     else ret cfg)"

text \<open>0700 and 0600 in decimal.\<close>

definition ipamService ::
  "'o daemon_env \<Rightarrow> string \<Rightarrow> config \<Rightarrow> 'w allocator_if \<Rightarrow> 'w evictor_if \<Rightarrow> ('o, 'w service) io" where
  "ipamService env ipamSocketPath cfg alloc reconciler =
     (let ipmsvc = NewService cfg alloc reconciler in
      andthen (attempt (os_Stat (env_files env) ipamSocketPath)) (\<lambda>st.
      andthen (case st of Inl _ \<Rightarrow> ret () | Inr _ \<Rightarrow> ignoring (os_Remove (env_files env) ipamSocketPath)) (\<lambda>_.
      andthen (or_fatal ''Error creating IPAM socket dir [%+v]'' (env_MkdirAll env (filepath_dir ipamSocketPath) 448)) (\<lambda>_.
      andthen (or_fatal ''Error listening on IPAM socket [%+v]'' (env_Listen env ipamSocketPath)) (\<lambda>_.
      andthen (or_fatal ''Error setting IPAM socket permissions [%+v]'' (env_Chmod env ipamSocketPath 384)) (\<lambda>_.
      ret ipmsvc))))))"

text \<open>The parts that the run group runs, and the label that its node informer selects by.\<close>

record 'o daemon =
  d_config :: config
  d_alloc :: alloc_state
  d_nodeLabels :: "string \<times> string"
  d_reconciler :: "(alloc_state \<times> 'o) reconciler"
  d_service :: "(alloc_state \<times> 'o) service"
  d_controller :: "(alloc_state \<times> 'o) if_controller"

definition daemon_wire ::
  "'o daemon_env \<Rightarrow> (string \<Rightarrow> nat) \<Rightarrow> string \<Rightarrow> string \<Rightarrow> config \<Rightarrow> string \<Rightarrow> net_ip \<Rightarrow> alloc_state \<Rightarrow> ('o, 'o daemon) io"
where
  "daemon_wire env rank ipamSocketPath nodeName cfg iid hostIP alloc =
     (let fs = env_files env; rec = daemon_reconciler cfg nodeName (env_cluster env) in
      andthen (ipamService env ipamSocketPath cfg
          \<lparr>al_Allocate = Allocate fs, al_ReleaseByContainer = ReleaseByContainer rank fs, al_FreeAddressCount = FreeAddressCount\<rparr>
          \<lparr>ev_EvictPod = EvictPod rec, ev_PoolFull = PoolFull rec, ev_PoolNotFull = PoolNotFull rec\<rparr>) (\<lambda>svc.
      ret \<lparr>d_config = cfg, d_alloc = alloc, d_nodeLabels = (LabelAWSInstanceID, iid), d_reconciler = rec, d_service = svc,
        d_controller = daemon_if_controller iid hostIP (NewIFMgr (Network cfg) (env_host env)) fs
          \<lparr>inst_IPAMSocketPath = ipamSocketPath, inst_Config = cfg\<rparr> (node_lister (env_cluster env))\<rparr>))"

definition daemon_main ::
  "'o daemon_env \<Rightarrow> (string \<Rightarrow> nat) \<Rightarrow> string \<Rightarrow> string \<Rightarrow> string \<Rightarrow> ('o, 'o daemon) io" where
  "daemon_main env rank ipamSocketPath configPath nodeName =
     (if nodeName = [] then fatal ''node-name is a required argument''
      else
        andthen (or_fatal ''Error loading configuration [%+v]''
          (load_config (os_ReadFile (env_files env)) (toml_decode env) configPath)) (\<lambda>cfg0.
        andthen (must (NewSession env)) (\<lambda>_.
        andthen (or_fatal ''Error determining current instance ID [%+v]'' (GetMetadata env ''instance-id'')) (\<lambda>iid.
        andthen (or_fatal ''Error determining host IP address [%+v]'' (GetMetadata env ''local-ipv4'')) (\<lambda>hostIPStr.
        let hostIP = parse_ip hostIPStr in
        andthen (host_primary env cfg0) (\<lambda>cfg.
        andthen (or_fatal ''Error setting up allocator [%+v]'' (New (env_files env) [])) (\<lambda>alloc.
        andthen (or_fatal ''Error getting client config [%+v]'' (InClusterConfig env)) (\<lambda>_.
        andthen (or_fatal ''Error getting client [%+v]'' (NewForConfig env)) (\<lambda>_.
        daemon_wire env rank ipamSocketPath nodeName cfg iid hostIP alloc)))))))))"

section \<open>The ENI controller\<close>

record 'w controller_env =
  ce_InClusterConfig :: "('w, unit) io"
  ce_NewForConfig :: "('w, 'w node_client) io"
  ce_NewSession :: "('w, unit) io"
  ce_Region :: "('w, string) io"
  ce_NewRegionSession :: "string \<Rightarrow> ('w, unit) io"
  ce_ec2 :: "string \<Rightarrow> 'w ec2_client"
  ce_lister :: "string \<Rightarrow> ('w, node) io"

definition controller_main :: "'w controller_env \<Rightarrow> ('w, 'w eni_controller) io" where
  "controller_main env =
     andthen (or_fatal ''Error getting client config [%v]'' (ce_InClusterConfig env)) (\<lambda>_.
     andthen (or_fatal ''Error getting client [%v]'' (ce_NewForConfig env)) (\<lambda>clientset.
     andthen (must (ce_NewSession env)) (\<lambda>_.
     andthen (or_fatal ''Error determining region [%v]'' (ce_Region env)) (\<lambda>currRegion.
     andthen (must (ce_NewRegionSession env currRegion)) (\<lambda>_.
     ret \<lparr>ec_ec2 = ce_ec2 env currRegion, ec_nodes = clientset, ec_lister = ce_lister env\<rparr>)))))"

section \<open>The primary interface\<close>

lemma last_name:
  "fold (\<lambda>(name, addr) ifName. if addr = mac then name else ifName) ifs d =
     (case last_such (\<lambda>i. snd i = mac) ifs of None \<Rightarrow> d | Some i \<Rightarrow> fst i)"
  by (induction ifs rule: rev_induct) (auto split: option.splits)

lemma primaryInterface_Ok:
  assumes "primaryInterface env w = Some (Ok name, w')"
  obtains mac ifs w1 where "GetMetadata env ''mac'' w = Some (Ok mac, w1)" "net_Interfaces env w1 = Some (Ok ifs, w')"
    "(name, mac) \<in> set ifs" "name \<noteq> []"
proof -
  obtain mac ifs w1 where run: "GetMetadata env ''mac'' w = Some (Ok mac, w1)" "net_Interfaces env w1 = Some (Ok ifs, w')"
    and name: "name \<noteq> []" "name = fold (\<lambda>(name, addr) ifName. if addr = mac then name else ifName) ifs []"
    using assms by (auto simp: primaryInterface_def andthen_eq_Ok Let_def split: if_splits)
  then obtain i where "last_such (\<lambda>i. snd i = mac) ifs = Some i" "name = fst i"
    by (auto simp: last_name split: option.splits)
  with last_such_Some [OF this(1)] have "(name, mac) \<in> set ifs" by (cases i) auto
  with run name(1) that show thesis by blast
qed

lemma host_primary_Ok:
  assumes "host_primary env cfg w = Some (Ok cfg', w')"
  obtains (Given) net where "Network cfg = Some net" "HostPrimaryInterface net \<noteq> []" "cfg' = cfg" "w' = w"
    | (Found) net name where "Network cfg = Some net" "HostPrimaryInterface net = []"
      "primaryInterface env w = Some (Ok name, w')" "cfg' = cfg\<lparr>Network := Some (net\<lparr>HostPrimaryInterface := name\<rparr>)\<rparr>"
proof -
  obtain net where net: "Network cfg = Some net" using assms by (auto simp: host_primary_def andthen_eq_Ok deref_Ok)
  show thesis
  proof (cases "HostPrimaryInterface net = []")
    case True
    obtain name where "primaryInterface env w = Some (Ok name, w')" "cfg' = cfg\<lparr>Network := Some (net\<lparr>HostPrimaryInterface := name\<rparr>)\<rparr>"
      using assms by (auto simp: host_primary_def andthen_eq_Ok deref_Ok or_fatal_Ok net True)
    from Found [OF net True this] show thesis .
  next
    case False
    have "cfg' = cfg" "w' = w"
      using assms by (auto simp: host_primary_def andthen_eq_Ok deref_Ok net False)
    from Given [OF net False this] show thesis .
  qed
qed

section \<open>A daemon that has started\<close>

text \<open>The steps of a successful start.\<close>

lemma daemon_main_Ok:
  assumes "daemon_main env rank sock conf nodeName w = Some (Ok d, w')"
  obtains cfg0 cfg iid hostIPStr w1 w2 w3 w4 w5 w6 where "nodeName \<noteq> []"
    "load_config (os_ReadFile (env_files env)) (toml_decode env) conf w = Some (Ok cfg0, w1)"
    "NewSession env w1 = Some (Ok (), w2)" "GetMetadata env ''instance-id'' w2 = Some (Ok iid, w3)"
    "GetMetadata env ''local-ipv4'' w3 = Some (Ok hostIPStr, w4)" "host_primary env cfg0 w4 = Some (Ok cfg, w5)"
    "New (env_files env) [] w5 = Some (Ok (d_alloc d), w6)" "d_config d = cfg" "d_nodeLabels d = (LabelAWSInstanceID, iid)"
    "d_reconciler d = daemon_reconciler cfg nodeName (env_cluster env)"
    "d_service d = daemon_service cfg nodeName (env_cluster env) (env_files env) rank"
    "d_controller d = daemon_if_controller iid (parse_ip hostIPStr) (NewIFMgr (Network cfg) (env_host env)) (env_files env)
       \<lparr>inst_IPAMSocketPath = sock, inst_Config = cfg\<rparr> (node_lister (env_cluster env))"
  using assms unfolding daemon_main_def daemon_wire_def ipamService_def Let_def daemon_service_def
  by (cases "nodeName = []"; clarsimp simp: andthen_eq_Ok or_fatal_Ok must_Ok simp del: split_paired_Ex split_paired_All)

end
