(* ===== verification/Daemon_Start.thy ===== *)
theory Daemon_Start
  imports Daemon_Main Ipam_Theorems
begin

text \<open>
  What a start of the daemon establishes: its parts share one configuration and one allocator,
  and the allocator has everything that the state file of an earlier run says.
\<close>

section \<open>Reading the state\<close>

lemma New_reads:
  assumes "file_system fs files" "New fs sp w = Some (Ok s', w')"
    and disk: "files w (if sp = [] then DefaultStatePath else sp) = Some t"
  obtains x where "json_unmarshal dec_state t = Inr x" "s' = x\<lparr>state_path := (if sp = [] then DefaultStatePath else sp)\<rparr>"
proof -
  let ?sp = "if sp = [] then DefaultStatePath else sp"
  obtain st w1 where st: "attempt (os_Stat fs ?sp) w = Some (Ok st, w1)" and
    rest: "andthen (if (case st of Inl err \<Rightarrow> \<not> is_not_exist err | Inr _ \<Rightarrow> True) then
           andthen (wrapping (\<lambda>e. Wrapf e ''Error reading existing state'' []) (os_ReadFile fs ?sp)) (\<lambda>b.
           wrapping (\<lambda>e. Wrapf e ''Error unmarshaling existing state'' []) (of_sum (json_unmarshal dec_state b)))
         else ret zero_state) (\<lambda>s. ret (s\<lparr>state_path := ?sp\<rparr>)) w1 = Some (Ok s', w')"
    using assms(2) unfolding New_def Let_def andthen_eq_Ok by blast
  have files: "unchanging files (os_Stat fs ?sp)" using assms(1) unfolding file_system_def by blast
  have w1: "files w1 = files w" "case st of Inl err \<Rightarrow> \<not> is_not_exist err | Inr _ \<Rightarrow> True"
    using st
  proof (atomize (full), cases rule: attempt_cases)
    case (Ok a)
    then show "files w1 = files w \<and> (case st of Inl err \<Rightarrow> \<not> is_not_exist err | Inr _ \<Rightarrow> True)"
      using unchangingD [OF files] by auto
  next
    case (Fail e)
    then show "files w1 = files w \<and> (case st of Inl err \<Rightarrow> \<not> is_not_exist err | Inr _ \<Rightarrow> True)"
      using unchangingD [OF files] file_system_stat [OF assms(1) Fail(1)] disk by auto
  qed auto
  obtain d w2 x where d: "os_ReadFile fs ?sp w1 = Some (Ok d, w2)" "json_unmarshal dec_state d = Inr x" "s' = x\<lparr>state_path := ?sp\<rparr>"
    using rest w1(2) by (auto simp: andthen_eq_Ok of_sum_Ok)
  have "files w1 ?sp = Some d" using assms(1) d(1) unfolding file_system_def by blast
  with disk w1(1) have "d = t" by simp
  with d that show thesis by blast
qed

text \<open>The calls of the start besides those on files leave the files alone.\<close>

definition start_apart :: "'o daemon_env \<Rightarrow> ('o \<Rightarrow> string \<rightharpoonup> string) \<Rightarrow> bool" where
  "start_apart env files \<longleftrightarrow> unchanging files (NewSession env) \<and> (\<forall>k. unchanging files (GetMetadata env k)) \<and>
     unchanging files (net_Interfaces env)"

lemma host_primary_apart:
  assumes "start_apart env files" "host_primary env cfg w = Some (Ok cfg', w')"
  shows "files w' = files w"
  using assms(2)
proof (cases rule: host_primary_Ok)
  case (Found net name)
  have "unchanging files (primaryInterface env)"
    using assms(1) unfolding primaryInterface_def start_apart_def
    by (auto intro!: unchanging_intros simp: Let_def simp del: ret_def throw_def)
  from unchangingD [OF this Found(3)] show ?thesis .
qed simp

section \<open>A start\<close>

text \<open>
  C11. A restart forgets nobody: when the state file has a state that an earlier run wrote and the
  daemon starts at all, every address has the owner it had, and the same addresses are free.
\<close>

theorem daemon_restart_keeps_owners:
  assumes "file_system (env_files env) files" "start_apart env files"
    and "json_marshal enc_state s = Inr t" "sendable_state s" "alloc_ok s" "files w DefaultStatePath = Some t"
    and "daemon_main env rank sock conf nodeName w = Some (Ok d, w')"
  shows "owners (d_alloc d) = owners s \<and> map ip_string (free_ips (d_alloc d)) = map ip_string (free_ips s)"
  using assms(7)
proof (cases rule: daemon_main_Ok)
  case (1 cfg0 cfg iid hostIPStr w1 w2 w3 w4 w5 w6)
  obtain dat where "os_ReadFile (env_files env) conf w = Some (Ok dat, w1)"
    using 1(2) by (auto simp: load_config_def andthen_eq_Ok of_sum_Ok)
  moreover have "unchanging files (os_ReadFile (env_files env) conf)"
    using assms(1) by (simp add: file_system_def)
  ultimately have "files w1 = files w" by (blast dest: unchangingD)
  moreover have "files w4 = files w1"
  proof -
    have apart: "unchanging files (NewSession env)" "unchanging files (GetMetadata env k)" for k
      using assms(2) by (simp_all add: start_apart_def)
    show ?thesis
      using unchangingD [OF apart(1) 1(3)] unchangingD [OF apart(2) 1(4)] unchangingD [OF apart(2) 1(5)] by simp
  qed
  ultimately have "files w5 (if ([] :: string) = [] then DefaultStatePath else []) = Some t"
    using host_primary_apart [OF assms(2) 1(6)] assms(6) by simp
  from New_reads [OF assms(1) 1(7) this]
  obtain x where x: "json_unmarshal dec_state t = Inr x" "d_alloc d = x\<lparr>state_path := DefaultStatePath\<rparr>" by auto
  have "x = state_norm s" using state_json.printed.dec_enc [OF assms(4)] assms(3) x(1) by auto
  then show ?thesis using owners_state_norm [OF assms(4)] free_ips_state_norm [OF assms(4,5)] x(2) by simp
qed

text \<open>
  The parts of a daemon that has started share its configuration, in which the host's primary
  interface has a name: the configured one, or the one of an interface with the hardware address
  that the metadata service gives. The controller handles the instance whose label the
  node informer selects by.
\<close>

theorem daemon_parts_agree:
  assumes "daemon_main env rank sock conf nodeName w = Some (Ok d, w')"
  shows "\<exists>dat v cfg0 net0 net iid hostIP. os_ReadFile (env_files env) conf w = Some (Ok dat, v) \<and>
    toml_decode env dat = Inr cfg0 \<and> Network cfg0 = Some net0 \<and> d_config d = cfg0\<lparr>Network := Some net\<rparr> \<and>
    HostPrimaryInterface net \<noteq> [] \<and>
    (net = net0 \<or> HostPrimaryInterface net0 = [] \<and> net = net0\<lparr>HostPrimaryInterface := HostPrimaryInterface net\<rparr> \<and>
       (\<exists>mac ifs v1 v2 v3. GetMetadata env ''mac'' v1 = Some (Ok mac, v2) \<and> net_Interfaces env v2 = Some (Ok ifs, v3) \<and>
          (HostPrimaryInterface net, mac) \<in> set ifs)) \<and>
    d_nodeLabels d = (LabelAWSInstanceID, iid) \<and>
    d_reconciler d = daemon_reconciler (d_config d) nodeName (env_cluster env) \<and>
    d_service d = daemon_service (d_config d) nodeName (env_cluster env) (env_files env) rank \<and>
    d_controller d = daemon_if_controller iid hostIP (NewIFMgr (Some net) (env_host env)) (env_files env)
      \<lparr>inst_IPAMSocketPath = sock, inst_Config = d_config d\<rparr> (node_lister (env_cluster env))"
  using assms
proof (cases rule: daemon_main_Ok)
  case (1 cfg0 cfg iid hostIPStr w1 w2 w3 w4 w5 w6)
  obtain dat where dat: "os_ReadFile (env_files env) conf w = Some (Ok dat, w1)" "toml_decode env dat = Inr cfg0"
    using 1(2) by (auto simp: load_config_def andthen_eq_Ok of_sum_Ok)
  from 1(6) obtain net0 net where net: "Network cfg0 = Some net0" "cfg = cfg0\<lparr>Network := Some net\<rparr>" "HostPrimaryInterface net \<noteq> []"
    and named: "net = net0 \<or> HostPrimaryInterface net0 = [] \<and> net = net0\<lparr>HostPrimaryInterface := HostPrimaryInterface net\<rparr> \<and>
       (\<exists>mac ifs v1 v2 v3. GetMetadata env ''mac'' v1 = Some (Ok mac, v2) \<and> net_Interfaces env v2 = Some (Ok ifs, v3) \<and>
          (HostPrimaryInterface net, mac) \<in> set ifs)"
  proof (cases rule: host_primary_Ok)
    case (Given n)
    from that [of n n] Given show thesis by simp
  next
    case (Found n name)
    from Found(3) show thesis
    proof (rule primaryInterface_Ok)
      fix mac ifs v1
      assume run: "GetMetadata env ''mac'' w4 = Some (Ok mac, v1)" "net_Interfaces env v1 = Some (Ok ifs, w5)"
        "(name, mac) \<in> set ifs" "name \<noteq> []"
      then have "\<exists>mac ifs v1 v2 v3. GetMetadata env ''mac'' v1 = Some (Ok mac, v2) \<and> net_Interfaces env v2 = Some (Ok ifs, v3) \<and>
          (name, mac) \<in> set ifs" by blast
      with that [of n "n\<lparr>HostPrimaryInterface := name\<rparr>"] Found run(4) show thesis by simp
    qed
  qed
  show ?thesis
    by (intro exI [of _ dat] exI [of _ w1] exI [of _ cfg0] exI [of _ net0] exI [of _ net] exI [of _ iid]
      exI [of _ "parse_ip hostIPStr"] conjI) (use 1 dat net named in simp_all)
qed

section \<open>A node that restarts\<close>

definition no_host :: "'o host" where
  "no_host = \<lparr>LinkList = throw (ExtErr ''down''), LinkByName = \<lambda>n. throw (ExtErr n), LinkSetName = \<lambda>l n. throw (ExtErr n),
     AddrAdd = \<lambda>l a. throw (ExtErr ''down''), LinkSetUp = \<lambda>l. throw (ExtErr ''down''), RouteAdd = \<lambda>r. throw (ExtErr ''down''),
     RuleAdd = \<lambda>r. throw (ExtErr ''down''), Interfaces = throw (ExtErr ''down''), EnsureChain = \<lambda>t c. throw (ExtErr c),
     EnsureRule = \<lambda>p t c r. throw (ExtErr c), host_ReadFile = \<lambda>p. throw (ExtErr p), OpenAppend = \<lambda>p. throw (ExtErr p),
     Fprintln = \<lambda>p l. throw (ExtErr p)\<rparr>"

definition unnamed_network :: network where
  "unnamed_network = demo_network\<lparr>HostPrimaryInterface := []\<rparr>"

definition demo_env :: "files daemon_env" where
  "demo_env = \<lparr>env_files = map_files, toml_decode = \<lambda>dat. Inr (demo_config\<lparr>Network := Some unnamed_network\<rparr>),
     NewSession = ret (), GetMetadata = \<lambda>k. ret (if k = ''mac'' then ''02:00'' else if k = ''instance-id'' then ''i-1'' else ''10.1.0.5''),
     net_Interfaces = ret [(''lo'', []), (''eth0'', ''02:00'')], InClusterConfig = ret (), NewForConfig = ret (),
     env_cluster = no_cluster, env_host = no_host, env_MkdirAll = \<lambda>p m. ret (), env_Listen = \<lambda>p. ret (),
     env_Chmod = \<lambda>p m. ret ()\<rparr>"

definition demo_state_text :: string where
  "demo_state_text = (case json_marshal enc_state demo_busy of Inl _ \<Rightarrow> [] | Inr t \<Rightarrow> t)"

definition demo_disk :: files where
  "demo_disk = [DefaultStatePath \<mapsto> demo_state_text, ''/etc/vpcnet'' \<mapsto> ''toml'']"

lemma demo_state_text:
  "json_marshal enc_state demo_busy = Inr demo_state_text" "json_unmarshal dec_state demo_state_text = Inr (state_norm demo_busy)"
proof -
  obtain t where "json_marshal enc_state demo_busy = Inr t" "json_unmarshal dec_state t = Inr (state_norm demo_busy)"
    using state_json.printed.encE [OF demo_sendable(2)] .
  then show "json_marshal enc_state demo_busy = Inr demo_state_text"
    "json_unmarshal dec_state demo_state_text = Inr (state_norm demo_busy)" by (simp_all add: demo_state_text_def)
qed

lemma demo_primary: "host_primary demo_env (demo_config\<lparr>Network := Some unnamed_network\<rparr>) w =
    Some (Ok (demo_config\<lparr>Network := Some (unnamed_network\<lparr>HostPrimaryInterface := ''eth0''\<rparr>)\<rparr>), w)"
  by (simp add: host_primary_def primaryInterface_def demo_env_def deref_Some unnamed_network_def or_fatal_def)

lemma andthen_ret_run:
  assumes "\<exists>a. m w = Some (Ok a, w')"
  shows "\<exists>d. andthen m (\<lambda>a. ret (f a)) w = Some (Ok d, w')"
  using assms by (elim exE) (simp add: andthen_Ok [where m = m])

lemma demo_start: "\<exists>d. daemon_main demo_env (\<lambda>_. 0) ''/run/ipam.sock'' ''/etc/vpcnet'' ''node-1'' demo_disk = Some (Ok d, demo_disk)"
proof -
  have paths: "demo_disk ''/run/ipam.sock'' = None" "demo_disk ''/etc/vpcnet'' = Some ''toml''"
    "demo_disk DefaultStatePath = Some demo_state_text" "DefaultStatePath \<noteq> []"
    by (simp_all add: demo_disk_def DefaultStatePath_def)
  then have new: "New map_files [] demo_disk = Some (Ok ((state_norm demo_busy)\<lparr>state_path := DefaultStatePath\<rparr>), demo_disk)"
    by (simp add: New_def Let_def map_files_def demo_state_text(2) of_sum_def)
  have env: "env_files demo_env = map_files" by (simp add: demo_env_def)
  have conf: "load_config (os_ReadFile map_files) (toml_decode demo_env) ''/etc/vpcnet'' demo_disk =
      Some (Ok (demo_config\<lparr>Network := Some unnamed_network\<rparr>), demo_disk)"
    using paths by (simp add: load_config_def map_files_def demo_env_def of_sum_def)
  have sock: "\<exists>svc. ipamService demo_env ''/run/ipam.sock'' cfg al ev demo_disk = Some (Ok svc, demo_disk)" for cfg
    and al :: "(alloc_state \<times> files) allocator_if" and ev
    using paths by (simp add: ipamService_def Let_def demo_env_def map_files_def attempt_def)
  have calls: "NewSession demo_env = ret ()" "GetMetadata demo_env k = ret (if k = ''mac'' then ''02:00'' else if k = ''instance-id'' then ''i-1'' else ''10.1.0.5'')"
    "InClusterConfig demo_env = ret ()" "NewForConfig demo_env = ret ()" for k
    by (simp_all add: demo_env_def)
  show ?thesis
    unfolding daemon_main_def daemon_wire_def Let_def env
    by (simp add: conf new demo_primary calls) (rule andthen_ret_run, rule sock)
qed

theorem daemon_restart_keeps_owners_witness:
  "\<exists>d w. daemon_main demo_env (\<lambda>_. 0) ''/run/ipam.sock'' ''/etc/vpcnet'' ''node-1'' demo_disk = Some (Ok d, w) \<and>
     owners (d_alloc d) = [''10.0.0.11'' \<mapsto> ''c1'']"
proof -
  obtain d where run: "daemon_main demo_env (\<lambda>_. 0) ''/run/ipam.sock'' ''/etc/vpcnet'' ''node-1'' demo_disk = Some (Ok d, demo_disk)"
    using demo_start by blast
  have env: "file_system (env_files demo_env) (\<lambda>f. f)" "start_apart demo_env (\<lambda>f. f)"
    using map_files_system by (auto simp: demo_env_def start_apart_def unchanging_basic simp del: ret_def)
  have "demo_disk DefaultStatePath = Some demo_state_text" by (simp add: demo_disk_def DefaultStatePath_def)
  from daemon_restart_keeps_owners [OF env demo_state_text(1) demo_sendable(2) demo_ok(2) this run] run
  show ?thesis by (auto simp: demo_owners)
qed

theorem daemon_parts_agree_witness:
  "\<exists>d net. daemon_main demo_env (\<lambda>_. 0) ''/run/ipam.sock'' ''/etc/vpcnet'' ''node-1'' demo_disk = Some (Ok d, demo_disk) \<and>
     Network (d_config d) = Some net \<and> HostPrimaryInterface net = ''eth0''"
proof -
  obtain d where run: "daemon_main demo_env (\<lambda>_. 0) ''/run/ipam.sock'' ''/etc/vpcnet'' ''node-1'' demo_disk = Some (Ok d, demo_disk)"
    using demo_start by blast
  from daemon_parts_agree [OF run] run
  show ?thesis by (auto simp: demo_env_def unnamed_network_def split: if_splits)
qed

end
