(* ===== verification/Spec2Isabelle.thy ===== *)
theory Spec2Isabelle
  imports Eni_History New_Node Pool_Refinement Pod_Lives Cni_Theorems Worker_Theorems Run_Group Daemon_Start
begin

text \<open>
  k8s-vpcnet gives Kubernetes pods addresses of their AWS VPC. Three programs share the work and
  meet in two places, the annotations of the node object and a socket on the node:

  \<^item> the ENI controller (cmd/eni-controller), one for the cluster, creates and attaches network
    interfaces (ENIs) for every node and writes their list into an annotation of the node;
  \<^item> the daemon (cmd/vpcnet-daemon), one per node, reads that annotation, configures the
    interfaces of its host, hands their addresses to its allocator, serves the allocator on a
    socket, and taints the node when no address is left;
  \<^item> the CNI plugin (cmd/cni-vpcnet) is run by the kubelet for every pod: it asks the daemon over
    the socket for an address and prints it.

  This theory imports all others and has the properties that span components. Its two sections are
  about both halves of the way of an address: the list that the ENI controller builds, over any
  history of its runs, gives each interface a routing table of its own on the host, and what the controller's runs for a
  new node leave in the annotation is what the plugin prints for a pod in the end (\<open>Pod_Wiring\<close>
  has the steps on the node, \<open>New_Node\<close> the controller's end of it and the cluster of the witness).

  Conventions. A Go function with effects is a function of type \<open>('w, 'a) io\<close> over the world it
  runs in (\<open>Go_Prelude\<close>): \<open>None\<close> if it never returns, else a value, an error return, a panic or a
  process exit, with the world it leaves. An early return undoes nothing. Code outside the
  repository (EC2, the Kubernetes API, netlink, iptables, the file system, gRPC) is a record of such
  functions, an argument of the definitions; what the code relies on is stated as laws over
  them (\<open>node_server\<close>, \<open>host_tables\<close>, \<open>file_system\<close>, \<open>cooperative\<close> and others), and each has
  a concrete instance that the witnesses run on (\<open>store_client\<close>, \<open>tables_host\<close>, \<open>map_files\<close>, \<open>cloud\<close>). The
  interfaces between the repository's own parts are locales, interpreted on the models of the parts.
  Definitions have the names of the source.

  Data and their texts.

  \<^item> \<open>Net_IP\<close>: package net as far as it is used (addresses as byte slices, their 4- and 16-byte
    forms, parsing and printing of addresses, masks and CIDRs), with round trips.
  \<^item> \<open>Json_Text\<close>, \<open>Json_Struct\<close>, \<open>Base64\<close>: encoding/json for the structs of the repository. The locales
    \<open>text_codec\<close> and \<open>json_codec\<close> say that decoding what was encoded gives the value in its
    normal form; every struct that travels as a text is an interpretation.
  \<^item> \<open>App_Config\<close> (pkg/config), \<open>Node_State\<close> (pkg/nodestate: the annotations), \<open>Cni_Config\<close>
    (pkg/cni/config), \<open>Instance_Types\<close> (defs.go, both tables entry by entry).

  The allocator (pkg/allocator): \<open>Alloc_State\<close> has the state and its file, \<open>Address_Pool\<close> the
  locale \<open>address_pool\<close> of what one client relies on, \<open>Allocator\<close> the operations and the interpretation,
  \<open>Pool_Refinement\<close> the abstract machine that they implement for all clients together,
  \<open>Alloc_Theorems\<close> what they guarantee: addresses are handed out once under any interleaving
  of calls (each critical section is a step), allocation succeeds exactly if an address is
  free, releases, and restarts from the file. The order in which Go ranges over a map is
  the parameter \<open>rank\<close>.

  The ENI controller: \<open>Obj_Util\<close> has the read-modify-write loop \<open>UpdateNode\<close> (pkg/objutil; a
  \<open>partial_function\<close>, as it may never end) and the taint helpers, \<open>Provider_ID\<close> the parsing of provider
  IDs, \<open>Eni_Controller\<close> the handler \<open>handleNode\<close>, \<open>Eni_Theorems\<close> what one run of it writes, \<open>Eni_History\<close> the
  list over any history of runs, failed calls and stale caches (\<open>node_step\<close>) and the interface that a
  stale cache loses, \<open>Eni_Convergence\<close> its liveness (\<open>2 + 2m\<close> runs for \<open>m\<close> interfaces: one stores the instance's data, each interface takes a
  run to create and one to attach, and a last one changes nothing) and the ways in which it goes wrong.

  The daemon's network: \<open>If_Mgr\<close> has pkg/ifmgr over a host, \<open>Host_Tables\<close> the kernel tables that the
  host's calls act on, \<open>If_Mgr_Theorems\<close> the policy routing, \<open>Nat_Chains\<close> the masquerading, \<open>Working_Host\<close> a host on which
  every call succeeds. \<open>If_Controller\<close> is the daemon's handler, with the locale \<open>interface_manager\<close>;
  \<open>Daemon_Node\<close> puts it on the interface manager, the allocator and the installer, \<open>Daemon_Theorems\<close> and
  \<open>Daemon_Safety\<close> show what it offers to the allocator and that it never panics,
  \<open>Daemon_Witness\<close> has the witnesses. \<open>Host_Files\<close>, \<open>Cni_Install\<close> and \<open>Cni_Theorems\<close> are the installer
  (cmd/vpcnet-daemon/cniinstall), step by step over file operations.

  Serving pods: \<open>Reconciler\<close> has the taint and the eviction of pods (locale \<open>evictor\<close>), \<open>Ipam_Service\<close> the gRPC
  service over allocator and evictor (locale \<open>ipam\<close>), \<open>Ipam_Theorems\<close> its guarantees. \<open>Cni_Plugin\<close> is
  the plugin with the argument parsing of its library, \<open>Plugin_Theorems\<close> runs it against the
  daemon as a second process (locale \<open>ipam_server\<close>) behind a link that may fail to deliver a call or lose its
  reply (\<open>delivery\<close>), \<open>Pod_Lives\<close> runs it for many pods, with any outcome
  of every command, while the daemon's interface list changes: live pods have different addresses,
  and a deleted pod gives its address back exactly if its release reaches the daemon.

  Concurrency: \<open>Work_Queue\<close> is the vendored queue of both controllers with the locale \<open>key_queue\<close> (two sets of
  keys), \<open>Workers\<close> the event handlers and worker loops, as functions for one worker and as the
  step relation \<open>crew_step\<close> for any number of them, \<open>Worker_Theorems\<close> shows that no event is lost and no node is
  handled twice at a time. \<open>Lifecycle\<close> and \<open>Reconciler_Run\<close> are \<open>Run\<close> and \<open>Stop\<close> as step relations over the
  goroutines that share the stop channel, \<open>Run_Group\<close> the shutdown of both processes. \<open>Daemon_Main\<close> is
  the start of the programs, \<open>Daemon_Start\<close> what it establishes.

  Bounds. No model runs on fuel: recursion is structural or has its measure, and the loops
  that may not end (\<open>update_loop\<close>, \<open>runWorker\<close>) are partial functions whose termination is a theorem under the
  conditions that it needs. Go's int is \<open>int\<close> where the code only counts; where a value is bounded by
  its width or by its text (bytes, masks, JSON numbers) the bound is a condition of the codec.

  Not modelled:
  \<^item> time: back-off, rate limits and tickers. A delayed key may become ready and a tick may come at
    any moment, so whatever is proved holds for all delays;
  \<^item> log output, metrics, flag parsing, and of the generated gRPC code (pkg/vpcnetpb) all but the messages;
  \<^item> pkg/ifmgr/ifmgr_darwin.go, whose functions are stubs, and version/version.go, a string;
  \<^item> data races below the level of critical sections and single statements: goroutines
    interleave at the steps of the relations;
  \<^item> the internals of third-party code, beyond the parts of the work queue, the argument parser,
    \<open>wait.Until\<close> and the run group that the controllers' behaviour rests on.
\<close>

section \<open>Routing tables of a node\<close>

text \<open>
  C18. The list of interfaces the ENI controller builds and the daemon's routing agree: in every
  list that runs of \<open>handleNode\<close> leave on a node, whatever the runs come to and however old their
  cache is (under the conditions of \<open>eni_list_stays_well_formed\<close>), every interface has a routing table of its own, which
  its pods' policy rules name and all its routes are in, numbered within 121 and 134, away from the
  kernel's tables (\<open>main\<close> is 254).
\<close>

theorem routing_tables_apart:
  assumes "sole_annotator c name nodes" "ec2_answers c ty" "InstanceENIsAvailable ty = Some k"
    and "\<forall>n \<in> nodes w. untouched name n" "rtranclp (node_step c name nodes) w w'" "n \<in> nodes w'"
  shows "\<exists>cfg es. ENIConfigFromAnnotations (Annotations n) = Inr cfg \<and> elems cfg = map Some es \<and>
    distinct (map (\<lambda>e. FromPodRTBase + Index e) es) \<and>
    (\<forall>e \<in> set es. 121 \<le> FromPodRTBase + Index e \<and> FromPodRTBase + Index e \<le> 134 \<and>
       (\<forall>r \<in> set (pod_rules (Index e) (elems (IPs e))). ru_Table r \<in> {mainTable, FromPodRTBase + Index e}) \<and>
       (\<forall>r \<in> set (eni_routes conf (Index e) link eth0 gw (CIDRBlock e)). rt_Table r = FromPodRTBase + Index e))"
proof -
  have k: "2 \<le> k" "k \<le> 15" using InstanceENIsAvailable_bounds [OF assms(3)] by auto
  obtain cfg where cfg: "ENIConfigFromAnnotations (Annotations n) = Inr cfg" "enis_wf (elems cfg)" "int (length (elems cfg)) \<le> k - 1"
    using history_sound [OF assms(1-5)] assms(6) by (auto simp: sound_node_def sound_list_def)
  define es where "es = map the (elems cfg)"
  have es: "elems cfg ! i = Some (es ! i) \<and> Index (es ! i) = int i + 1" if "i < length (elems cfg)" for i
    using cfg(2) that by (auto simp: enis_wf_def es_def)
  then have list: "elems cfg = map Some es" by (intro nth_equalityI) (auto simp: es_def)
  have "distinct (map (\<lambda>e. FromPodRTBase + Index e) es)"
    using es by (auto simp: distinct_conv_nth es_def)
  moreover have "1 \<le> Index e \<and> Index e \<le> 14" if mem: "e \<in> set es" for e
  proof -
    obtain i where "i < length es" "e = es ! i" using mem by (auto simp: in_set_conv_nth)
    moreover from this have "i < length (elems cfg)" by (simp add: es_def)
    ultimately show ?thesis using es [of i] cfg(3) k by simp
  qed
  then have "121 \<le> FromPodRTBase + Index e \<and> FromPodRTBase + Index e \<le> 134" if "e \<in> set es" for e
    using that by (simp add: FromPodRTBase_def)
  moreover have "ru_Table r \<in> {mainTable, FromPodRTBase + Index e}" if "r \<in> set (pod_rules (Index e) ips)" for e r ips
    using that by (auto simp: pod_rules_def)
  moreover have "rt_Table r = FromPodRTBase + Index e" if "r \<in> set (eni_routes conf (Index e) link eth0 gw b)" for e r b
    using that by (auto simp: eni_routes_def via_def Let_def split: option.splits)
  ultimately show ?thesis using cfg(1) list by blast
qed

theorem routing_tables_apart_witness:
  "\<exists>es. rtranclp (node_step cloud ''node-1'' (\<lambda>n. {n})) cloud_node served_node \<and>
     ENIConfigFromAnnotations (Annotations served_node) = Inr (Some (map Some es)) \<and> es = [wired_eni] \<and>
     (\<forall>r \<in> set (pod_rules (Index wired_eni) (elems (IPs wired_eni))). ru_Table r \<in> {mainTable, 121})"
proof -
  have ty: "InstanceENIsAvailable ''t2.nano'' = Some 2" by (simp add: InstanceENIsAvailable_def enis_table_def)
  have runs: "runs 4 cloud ''node-1'' cloud_node = Some (Ok (), served_node)"
    using cloud_runs by (simp add: served_node_def)
  note steps = runs_steps [OF runs, of "\<lambda>n. {n}"]
  have mem: "served_node \<in> {served_node}" by simp
  from routing_tables_apart [OF cloud_sole cloud_answers ty cloud_untouched steps mem]
  obtain cfg es where es: "ENIConfigFromAnnotations (Annotations served_node) = Inr cfg" "elems cfg = map Some es"
    "\<forall>e \<in> set es. \<forall>r \<in> set (pod_rules (Index e) (elems (IPs e))). ru_Table r \<in> {mainTable, FromPodRTBase + Index e}" by blast
  have "es = [wired_eni]" using es(1,2) served_node_list by auto
  moreover have "FromPodRTBase + Index wired_eni = 121" by (simp add: FromPodRTBase_def wired_eni_def)
  ultimately show ?thesis using es(3) steps served_node_list by auto
qed

section \<open>From the annotation to the pod\<close>

text \<open>
  C1. The whole program: the ENI controller has handled a new node \<open>2 + 2 * m\<close> times, for the \<open>m\<close>
  interfaces that its type allows, with an EC2 that gives no address twice; the node's daemon then handles the node object that this
  has left, without error, and the plugin runs for a container. The result that it prints has an
  address of one of the node's interfaces that nobody had, with that interface's own address
  as the gateway and its subnet's mask; the address is the container's, and its interface's
  policy rules and NAT jumps are in place.
\<close>

theorem new_node_serves_pods:
  assumes controller: "cooperative c name itype cur" "InstanceENIsAvailable itype = Some k" "new_node name iid (cur w)"
      "runs (2 + 2 * nat (k - 1)) c name w = Some (Ok (), w')"
    and ec2: "distinct (map ip_string (node_addresses (cur w')))"
    and daemon: "host_tables (mgr_host i) net" "files_apart fs net" "eni_names k \<inter> host_ifs (net v) = {}"
      "lister key v = Some (Ok (cur w'), v)" "alloc_ok s" "sendable_state s"
      "if_handleNode (daemon_if_controller iid hostIP i fs inst lister) key (s, v) = Some (Ok (), (s1, v1))"
    and plugin: "prints penv out"
      "cmdAdd (served (grpc_client g (daemon_service cfg nm cl fs rank) l) penv) args ((s1, v1), p) =
        Some (Ok (), ((s2, v2), p'))"
  shows "\<exists>e ip blk. Some e \<in> set (interfaces_of (cur w')) \<and> 1 \<le> Index e \<and> Index e < k \<and>
    owners s (ip_string ip) = None \<and> owners s2 = (owners s)(ip_string ip \<mapsto> ca_ContainerID args) \<and>
    (\<exists>x \<in> set (elems (IPs e)). ip_equal x ip) \<and> CIDRBlock e = Some blk \<and>
    out p' = out p @ [\<lparr>res_IPs = [\<lparr>ipc_Address = \<lparr>net_IP = ip_norm ip, net_Mask = net_Mask blk\<rparr>,
        ipc_Gateway = ip_norm (InterfaceIP e)\<rparr>],
      res_Routes = [\<lparr>net_IP = IP [0, 0, 0, 0], net_Mask = cidr_mask 0 32\<rparr>]\<rparr>] \<and>
    pods_routed (net v1) (Index e) (elems (IPs e)) \<and> pods_natted (net v1) (elems (IPs e))"
proof -
  have good: "node_good itype k (cur w')" "todo k (cur w') = 0" "ProviderID (cur w') = ProviderID (cur w)"
    by (rule new_node_done [OF controller(1-3)], use controller(4) in simp)+
  have id: "ProviderID (cur w') \<noteq> []" "ProviderIDToAWSInstanceID (ProviderID (cur w')) = Inr iid"
    using controller(3) by (simp_all add: good(3) new_node_def)
  show ?thesis
    by (rule pod_from_done_node [OF good(1,2) controller(2) id ec2 daemon(4) daemon(1-3) daemon(5-7) plugin]) blast
qed

text \<open>The node of \<open>cloud\<close>, of a type with one spare interface, and the host of \<open>Daemon_Witness\<close>.\<close>

theorem new_node_serves_pods_witness:
  "\<exists>s1 t1 s2 t2 out ip. runs 4 cloud ''node-1'' cloud_node = Some (Ok (), served_node) \<and>
     if_handleNode (daemon_if_controller ''i-1'' nil_ip demo_mgr ready_files ready_installer (\<lambda>key. ret served_node))
       ''node-1'' (demo_free, fresh_tables) = Some (Ok (), (s1, t1)) \<and>
     cmdAdd (served (grpc_client (\<lambda>e. e) (daemon_service quiet_config ''node-1'' no_cluster ready_files (\<lambda>_. 0)) Delivered) demo_penv)
       demo_cmd ((s1, t1), []) = Some (Ok (), ((s2, t2), out)) \<and> out \<noteq> [] \<and>
     owners s2 = (owners demo_free)(ip_string ip \<mapsto> ''c2'') \<and> ip_equal (ipv4 10 1 0 9) ip \<and>
     pods_routed t1 1 [ipv4 10 1 0 9] \<and> pods_natted t1 [ipv4 10 1 0 9]"
proof -
  let ?lister = "\<lambda>key :: string. (ret served_node :: (tables, node) io)"
  have k: "InstanceENIsAvailable ''t2.nano'' = Some 2" by (simp add: InstanceENIsAvailable_def enis_table_def)
  have runs: "runs (2 + 2 * nat (2 - 1)) cloud ''node-1'' cloud_node = Some (Ok (), served_node)"
    using cloud_runs by (simp add: served_node_def)
  have ips: "distinct (map ip_string (node_addresses served_node))" by (simp add: served_node_addresses)
  have seen: "?lister ''node-1'' fresh_tables = Some (Ok served_node, fresh_tables)" by simp
  obtain t1 where "configure_eni (daemon_ifmgr demo_mgr) nil_ip ''node-1'' wired_eni (demo_free, fresh_tables) =
      Some (Ok (), (demo_free, t1))"
    using fresh_configured by blast
  then have "configure_eni (daemon_ifmgr demo_mgr) nil_ip (node_Name served_node) wired_eni (demo_free, fresh_tables) =
      Some (Ok (), (demo_free, t1))" by (simp add: served_node_def)
  note run = wired_run_ok [OF served_node_own [of "''node-1''"] this]
  let ?s1 = "demo_free\<lparr>ENIs := Some [Some wired_eni]\<rparr>"
  let ?client = "grpc_client (\<lambda>e :: error. e) (daemon_service quiet_config ''node-1'' (no_cluster :: tables cluster) ready_files (\<lambda>_. 0)) Delivered"
  obtain resp s2 t2 ip0 n where add: "client_Add ?client demo_request (?s1, t1) = Some (Ok resp, (s2, t2))"
      "parse_cidr (resp_SubnetCIDR resp) = Some (ip0, n)"
    using wired_add [of t1] by auto
  note cmd = demo_cmd_run [OF add, of "[]"]
  from new_node_serves_pods [OF cloud_cooperates k cloud_node_new runs ips demo_mgr_tables ready_files_apart fresh_names
      seen demo_ok(1) demo_sendable(1) run demo_penv_prints cmd]
  obtain e ip where e: "Some e \<in> set (interfaces_of served_node)" "\<exists>x \<in> set (elems (IPs e)). ip_equal x ip"
      "owners s2 = (owners demo_free)(ip_string ip \<mapsto> ca_ContainerID demo_cmd)"
      "pods_routed t1 (Index e) (elems (IPs e))" "pods_natted t1 (elems (IPs e))" by blast
  then have "e = wired_eni" by (simp add: served_node_ifs)
  then have "Index e = 1" "elems (IPs e) = [ipv4 10 1 0 9]" by (simp_all add: wired_eni_def)
  moreover have "ca_ContainerID demo_cmd = ''c2''" by (simp add: demo_cmd_def)
  ultimately show ?thesis
    using runs run cmd e(2-5) by (intro exI [of _ ?s1] exI [of _ t1] exI [of _ s2] exI [of _ t2] exI conjI) auto
qed

text \<open>
  C2. From end to end: when the ENI controller has written the list \<open>nc\<close> of a node's interfaces,
  none of the attached ones has its name on the node's host yet, the daemon of that node has
  handled the list without error, and the plugin then runs for a
  container, the result it prints has an address of an attached interface of \<open>nc\<close> that nobody
  had, that interface's own address as the gateway and its subnet's mask; the address is the
  container's, and its interface's policy rules and NAT jumps are in place. (Without the condition
  on the names the rules may be missing: \<open>half_configured_eni_is_offered\<close>.)
\<close>

theorem pod_gets_wired_address:
  assumes tables: "host_tables (mgr_host i) net" "files_apart fs net"
    and written: "marshal_enis (Some nc) = Inr t" "list_all sendable_eni nc" "go_lookup (Annotations nd) IFSKey = Some t"
    and node: "lister key w = Some (Ok nd, w)" "ProviderID nd \<noteq> []" "ProviderIDToAWSInstanceID (ProviderID nd) = Inr iid"
    and enis: "distinct (map interface_name (attached_enis nc))" "enis_ok (Some (map (\<lambda>e. Some (eni_norm e)) (attached_enis nc)))"
    and fresh: "\<forall>e \<in> set (attached_enis nc). interface_name e \<notin> host_ifs (net w)"
    and pool: "alloc_ok s" "sendable_state s"
    and handled: "if_handleNode (daemon_if_controller iid hostIP i fs inst lister) key (s, w) = Some (Ok (), (s1, w1))"
    and plugin: "prints penv out"
      "cmdAdd (served (grpc_client g (daemon_service cfg name cl fs rank) l) penv) args ((s1, w1), p) =
        Some (Ok (), ((s2, w2), p'))"
  shows "\<exists>e \<in> set (attached_enis nc). \<exists>ip blk. owners s (ip_string ip) = None \<and>
    owners s2 = (owners s)(ip_string ip \<mapsto> ca_ContainerID args) \<and>
    (\<exists>x \<in> set (elems (IPs e)). ip_norm x = ip_norm ip) \<and> CIDRBlock e = Some blk \<and>
    out p' = out p @ [\<lparr>res_IPs = [\<lparr>ipc_Address = \<lparr>net_IP = ip_norm ip, net_Mask = net_Mask blk\<rparr>,
        ipc_Gateway = ip_norm (InterfaceIP e)\<rparr>],
      res_Routes = [\<lparr>net_IP = IP [0, 0, 0, 0], net_Mask = cidr_mask 0 32\<rparr>]\<rparr>] \<and>
    pods_routed (net w1) (Index e) (map ip_norm (elems (IPs e))) \<and> pods_natted (net w1) (map ip_norm (elems (IPs e)))"
proof -
  let ?ps = "map (map_option eni_norm) nc"
  have own: "own_node iid lister key w nd ?ps"
    using ENIConfig_of_marshal [of "Some nc" t "Annotations nd"] written node by (simp add: own_node_def)
  have names: "interface_name (eni_norm e) = interface_name e" for e by (simp add: interface_name_def eni_norm_def)
  have sendable: "sendable_eni (Some (eni_norm e))" if "e \<in> set (attached_enis nc)" for e
  proof -
    have "sendable_eni (Some e)" using that written(2) by (auto simp: list_all_iff set_attached_enis)
    from eni_json.ok_norm [OF this] show ?thesis by simp
  qed
  have ok: "list_all sendable_eni (map Some (attached_enis ?ps))" "distinct (map interface_name (attached_enis ?ps))"
    "enis_ok (Some (map Some (attached_enis ?ps)))" "\<forall>e \<in> set (attached_enis ?ps). interface_name e \<notin> host_ifs (net w)"
    using enis fresh sendable by (simp_all add: attached_norm list_all_iff names comp_def)
  obtain e ip blk where ip: "e \<in> set (attached_enis ?ps)" "owners s (ip_string ip) = None"
      "owners s2 = (owners s)(ip_string ip \<mapsto> ca_ContainerID args)"
      "\<exists>x \<in> set (elems (IPs e)). ip_equal x ip" "CIDRBlock e = Some blk"
    and res: "out p' = out p @ [\<lparr>res_IPs = [\<lparr>ipc_Address = \<lparr>net_IP = ip_norm ip, net_Mask = net_Mask blk\<rparr>,
        ipc_Gateway = ip_norm (InterfaceIP e)\<rparr>],
      res_Routes = [\<lparr>net_IP = IP [0, 0, 0, 0], net_Mask = cidr_mask 0 32\<rparr>]\<rparr>]"
    and wired: "pods_routed (net w1) (Index e) (elems (IPs e))" "pods_natted (net w1) (elems (IPs e))"
    by (rule pod_from_own_node [OF tables own ok pool handled plugin])
  obtain d where d: "d \<in> set (attached_enis nc)" "e = eni_norm d" using ip(1) by (auto simp: attached_norm)
  obtain b where b: "CIDRBlock d = Some b" "net_Mask blk = net_Mask b"
    using ip(5) by (auto simp: d(2) eni_norm_def net_norm_def)
  have e: "elems (IPs e) = map ip_norm (elems (IPs d))" "InterfaceIP e = ip_norm (InterfaceIP d)" "Index e = Index d"
    by (cases "IPs d"; simp add: d(2) eni_norm_def)+
  have "\<exists>x \<in> set (elems (IPs d)). ip_norm x = ip_norm ip" using ip(4) by (auto simp: e(1) ip_equal_norms)
  then show ?thesis
    using ip(2,3) d(1) b res wired by (intro bexI [of _ d] exI [of _ ip] exI [of _ b]) (simp_all add: e)
qed

theorem pod_gets_wired_address_witness:
  "\<exists>s1 w1 s2 w2 out ip blk. if_handleNode demo_daemon ''node-1'' (demo_free, fresh_tables) = Some (Ok (), (s1, w1)) \<and>
     cmdAdd (served (grpc_client (\<lambda>e. e) (daemon_service quiet_config ''node-1'' no_cluster ready_files (\<lambda>_. 0)) Delivered) demo_penv)
       demo_cmd ((s1, w1), []) = Some (Ok (), ((s2, w2), out)) \<and> out \<noteq> [] \<and>
     owners s2 = (owners demo_free)(ip_string ip \<mapsto> ''c2'') \<and> ip_norm (ipv4 10 1 0 9) = ip_norm ip \<and>
     pods_routed w1 1 [ipv4 10 1 0 9] \<and> pods_natted w1 [ipv4 10 1 0 9]"
proof -
  let ?g = "\<lambda>e :: error. e" and ?cl = "no_cluster :: tables cluster"
  have eni: "Index wired_eni = 1" "elems (IPs wired_eni) = [ipv4 10 1 0 9]" "attached_enis [Some wired_eni] = [wired_eni]"
    "interface_name wired_eni = ''eni1''"
    by (simp_all add: wired_eni_def interface_name_def) code_simp
  have node: "go_lookup (Annotations eni_node) IFSKey = Some eni_text" "eni_lister ''node-1'' fresh_tables = Some (Ok eni_node, fresh_tables)"
      "ProviderID eni_node \<noteq> []" "ProviderIDToAWSInstanceID (ProviderID eni_node) = Inr ''i-1''"
    by (simp_all add: eni_node_def go_lookup_def eni_lister_def cloud_node_def cloud_node_id)
  obtain t where t: "configure_eni (daemon_ifmgr demo_mgr) nil_ip ''node-1'' wired_eni (demo_free, fresh_tables) =
      Some (Ok (), (demo_free, t))"
    using fresh_configured by blast
  note run = demo_run_ok [OF t]
  let ?s1 = "demo_free\<lparr>ENIs := Some [Some wired_eni]\<rparr>"
  let ?client = "grpc_client ?g (daemon_service quiet_config ''node-1'' ?cl ready_files (\<lambda>_. 0)) Delivered"
  obtain resp s2 w2 ip0 n where add: "client_Add ?client demo_request (?s1, t) = Some (Ok resp, (s2, w2))"
      "parse_cidr (resp_SubnetCIDR resp) = Some (ip0, n)"
    using wired_add [of t] by auto
  note cmd = demo_cmd_run [OF add, of "[]"]
  have enis: "distinct (map interface_name (attached_enis [Some wired_eni]))"
    "enis_ok (Some (map (\<lambda>e. Some (eni_norm e)) (attached_enis [Some wired_eni])))"
    "\<forall>e \<in> set (attached_enis [Some wired_eni]). interface_name e \<notin> host_ifs fresh_tables"
    unfolding eni(3) using alloc_ok_state(2) [OF wired_state(1)]
    by (simp_all add: eni(4) wired_eni_norm) (simp add: host_ifs_def fresh_tables_def)
  from pod_gets_wired_address [OF demo_mgr_tables ready_files_apart eni_node_written node(1) node(2-4) enis
      demo_ok(1) demo_sendable(1) run demo_penv_prints cmd]
  obtain ip where "owners s2 = (owners demo_free)(ip_string ip \<mapsto> ca_ContainerID demo_cmd)"
      "ip_norm (ipv4 10 1 0 9) = ip_norm ip" "pods_routed t 1 [ip_norm (ipv4 10 1 0 9)]" "pods_natted t [ip_norm (ipv4 10 1 0 9)]"
    unfolding eni(3) by (auto simp: eni(1,2))
  moreover have "ca_ContainerID demo_cmd = ''c2''" by (simp add: demo_cmd_def)
  ultimately show ?thesis using run cmd by (auto simp: ip_norm_v4)
qed

end
